theory Spec2Isabelle
  imports Main "HOL-Library.Multiset" "HOL-Library.Char_ord" "HOL-Library.List_Lexorder"
begin

section \<open>Strings and runtime failures\<close>

text \<open>
  Go strings are byte sequences; they are modelled as \<open>string\<close> (a list of 8-bit
  characters). A \<open>panic\<close> of the source is a value of the type \<open>panic\<close>, one
  constructor per panic site (the formatted message text is not modelled).
\<close>

datatype panic =
    TableMustBeSealed
  | AliasAlreadyUsed
  | UnexpectedPreviousAction
  | OnlyBuilderTypeSupported
  | OnlySelectTypeSupported
  | OnKeyPairsMustBeEven
  | JoinOnSameTable
  | JoinMustInvolveJoinTable
  | MustBeAfterWhere
  | MustHaveAtLeastOneToken
  | ValueNotOfTableType
  | ConflictKeysAlreadyAdded
  | ColumnNotFromTable
  | ConflictKeysNotAdded
  | NoColumnsSelected
  | NoTablesSelected
  | UnexpectedSelectType
  | UnexpectedTokenType
  | NoColumnsForInserting
  | NoTableForInserting
  | NoValuesForInserting
  | ColumnNotFound
  | ColumnAlreadyAdded
  | PrimaryKeysMismatch
  | TableAlreadyRegistered
  | TypeAssertionFailed
  | NilDereference
  | IndexOutOfRange
  | NotAllColumnsRead
  | RequireNextFirst

text \<open>
  \<open>strings.TrimSpace\<close> removes the leading and the trailing white space of a string, as
  \<open>unicode.IsSpace\<close> defines it: the code points U+0009 to U+000D, U+0020, U+0085,
  U+00A0, U+1680, U+2000 to U+200A, U+2028, U+2029, U+202F, U+205F and U+3000.
  \<open>whiteSpace\<close> lists their UTF-8 encodings. Go decodes one code point at a time, from
  the front and then from the back; a byte that starts no valid encoding is the code
  point U+FFFD, which is not white space, and ends the trimming on its side. No encoding
  of the list is the beginning or the end of another one, and the last byte of every
  multi-byte encoding is a continuation byte after one lead byte, so decoding from the
  back finds a white-space code point exactly when the string ends with its encoding.
\<close>

definition whiteSpace :: "string list" where
  "whiteSpace =
     [[CHR 0x09], [CHR 0x0A], [CHR 0x0B], [CHR 0x0C], [CHR 0x0D], [CHR 0x20],
      [CHR 0xC2, CHR 0x85], [CHR 0xC2, CHR 0xA0],
      [CHR 0xE1, CHR 0x9A, CHR 0x80],
      [CHR 0xE2, CHR 0x80, CHR 0x80], [CHR 0xE2, CHR 0x80, CHR 0x81], [CHR 0xE2, CHR 0x80, CHR 0x82],
      [CHR 0xE2, CHR 0x80, CHR 0x83], [CHR 0xE2, CHR 0x80, CHR 0x84], [CHR 0xE2, CHR 0x80, CHR 0x85],
      [CHR 0xE2, CHR 0x80, CHR 0x86], [CHR 0xE2, CHR 0x80, CHR 0x87], [CHR 0xE2, CHR 0x80, CHR 0x88],
      [CHR 0xE2, CHR 0x80, CHR 0x89], [CHR 0xE2, CHR 0x80, CHR 0x8A],
      [CHR 0xE2, CHR 0x80, CHR 0xA8], [CHR 0xE2, CHR 0x80, CHR 0xA9], [CHR 0xE2, CHR 0x80, CHR 0xAF],
      [CHR 0xE2, CHR 0x81, CHR 0x9F],
      [CHR 0xE3, CHR 0x80, CHR 0x80]]"

text \<open>
  The number of bytes of the encoding that a string begins with (0 when it begins with
  none of the list), and the removal of all such encodings from the front.
\<close>

definition runeWidth :: "string list \<Rightarrow> string \<Rightarrow> nat" where
  "runeWidth encodings s =
     (if take 1 s \<in> set encodings then 1
      else if take 2 s \<in> set encodings then 2
      else if take 3 s \<in> set encodings then 3
      else 0)"

fun dropRunes :: "string list \<Rightarrow> string \<Rightarrow> string" where
  "dropRunes encodings [] = []"
| "dropRunes encodings (c # s) =
     (if runeWidth encodings (c # s) = 0 then c # s
      else dropRunes encodings (drop (runeWidth encodings (c # s) - 1) s))"

definition TrimSpace :: "string \<Rightarrow> string" where
  "TrimSpace s = rev (dropRunes (map rev whiteSpace) (rev (dropRunes whiteSpace s)))"

text \<open>
  \<open>strings.ToLower\<close>: in a string of ASCII bytes the letters \<open>A\<close> to \<open>Z\<close> go to
  \<open>a\<close> to \<open>z\<close> and every other byte is kept. A string with a byte from 128 on is
  mapped code point by code point through the case tables of Go's \<open>unicode\<close> package,
  which are not part of this repository: \<open>unicodeToLower\<close> stands for that mapping.
\<close>

definition toLowerChar :: "char \<Rightarrow> char" where
  "toLowerChar c =
     (case map_of (zip ''ABCDEFGHIJKLMNOPQRSTUVWXYZ'' ''abcdefghijklmnopqrstuvwxyz'') c of
        Some l \<Rightarrow> l
      | None \<Rightarrow> c)"

definition ToLower :: "(string \<Rightarrow> string) \<Rightarrow> string \<Rightarrow> string" where
  "ToLower unicodeToLower s =
     (if \<forall>c \<in> set s. (of_char c :: nat) < 128 then map toLowerChar s else unicodeToLower s)"

text \<open>\<open>fmt.Sprintf("%d", n)\<close>: decimal digits, most significant first, \<open>-\<close> for a negative number.\<close>

definition digitChar :: "nat \<Rightarrow> char" where
  "digitChar d = ''0123456789'' ! d"

fun decimalNat :: "nat \<Rightarrow> string" where
  "decimalNat n = (if n < 10 then [digitChar n] else decimalNat (n div 10) @ [digitChar (n mod 10)])"

declare decimalNat.simps [simp del]

definition decimalInt :: "int \<Rightarrow> string" where
  "decimalInt i = (if i < 0 then CHR ''-'' # decimalNat (nat (- i)) else decimalNat (nat i))"

section \<open>SQL keywords (table\_metadata.go)\<close>

text \<open>
  The package variable \<open>sqlKeywords\<close> is a set of strings; it is passed explicitly to
  every function that reads it. \<open>init\<close> fills it from \<open>predefinedList\<close>.
\<close>

definition predefinedList :: "string list" where
  "predefinedList = [''count'', ''index'', ''name'', ''type'', ''types'', ''from'', ''to'', ''order'',
     ''value'', ''state'', ''time'', ''left'', ''right'', ''day'', ''local'']"

definition initSqlKeywords :: "string set" where
  "initSqlKeywords = set predefinedList"

definition AddSqlKeyword :: "(string \<Rightarrow> string) \<Rightarrow> string set \<Rightarrow> string \<Rightarrow> string set" where
  "AddSqlKeyword unicodeToLower sqlKeywords keyword = insert (ToLower unicodeToLower keyword) sqlKeywords"

definition doubleQuoted :: "string \<Rightarrow> string" where
  "doubleQuoted name = [CHR 0x22] @ name @ [CHR 0x22]"

definition wrapWithDoubleQuoteIfSqlKeyword :: "string set \<Rightarrow> string \<Rightarrow> string" where
  "wrapWithDoubleQuoteIfSqlKeyword sqlKeywords name =
     (if name \<in> sqlKeywords then doubleQuoted name else name)"

definition wrapManyWithDoubleQuoteIfSqlKeyword :: "string set \<Rightarrow> string list \<Rightarrow> string list" where
  "wrapManyWithDoubleQuoteIfSqlKeyword sqlKeywords names =
     map (wrapWithDoubleQuoteIfSqlKeyword sqlKeywords) names"

section \<open>Table metadata (table\_metadata.go and the column metadata file)\<close>

text \<open>
  \<open>ColumnMetadata[T]\<close>: \<open>'r\<close> stands for the record type \<open>T\<close>, \<open>'v\<close> for Go's
  \<open>any\<close>. The select spec takes the address of the row it is bound to (a \<open>nat\<close>) and
  gives the scan target that \<open>ToQueryArg\<close> of the resulting spec returns.
\<close>

record ('r, 'v) ColumnMetadata =
  cm_name :: string
  cm_isPk :: bool
  insertSpec :: "'r \<Rightarrow> 'v"
  selectSpec :: "nat \<Rightarrow> 'v"

record ('r, 'v) TableMetadata =
  tm_name :: string
  tm_columns :: "('r, 'v) ColumnMetadata list"
  columnsByName :: "string \<rightharpoonup> ('r, 'v) ColumnMetadata"
  tm_typeName :: string

text \<open>
  \<open>TableMetadataBuilder[T]\<close>; \<open>tb_typeName\<close> is \<open>getStructTypeName(new(T))\<close>, the name
  of the type parameter.
\<close>

record ('r, 'v) TableMetadataBuilder =
  tb_name :: string
  tb_columns :: "('r, 'v) ColumnMetadata list"
  tb_typeName :: string

definition NewTableMetadata :: "string \<Rightarrow> string \<Rightarrow> ('r, 'v) TableMetadataBuilder" where
  "NewTableMetadata typeName name = \<lparr>tb_name = name, tb_columns = [], tb_typeName = typeName\<rparr>"

definition AddColumns ::
  "string set \<Rightarrow> ('r, 'v) TableMetadataBuilder \<Rightarrow> ('r, 'v) ColumnMetadata list \<Rightarrow> ('r, 'v) TableMetadataBuilder" where
  "AddColumns sqlKeywords b columns =
     b\<lparr>tb_columns := tb_columns b @
         map (\<lambda>column. column\<lparr>cm_name := wrapWithDoubleQuoteIfSqlKeyword sqlKeywords (TrimSpace (cm_name column))\<rparr>)
           columns\<rparr>"

definition MustGetColumnByName ::
  "string set \<Rightarrow> ('r, 'v) TableMetadata \<Rightarrow> string \<Rightarrow> panic + ('r, 'v) ColumnMetadata" where
  "MustGetColumnByName sqlKeywords t name =
     (case columnsByName t (wrapWithDoubleQuoteIfSqlKeyword sqlKeywords name) of
        Some col \<Rightarrow> Inr col
      | None \<Rightarrow> Inl ColumnNotFound)"

text \<open>
  The first loop of \<open>Build\<close>: it fills \<open>columnsByName\<close> and \<open>pkColumnsName\<close> and
  panics at the first column whose name is already present.
\<close>

fun collectColumns ::
  "('r, 'v) ColumnMetadata list \<Rightarrow> (string \<rightharpoonup> ('r, 'v) ColumnMetadata) \<Rightarrow> string list
     \<Rightarrow> panic + ((string \<rightharpoonup> ('r, 'v) ColumnMetadata) \<times> string list)" where
  "collectColumns [] byName pkColumnsName = Inr (byName, pkColumnsName)"
| "collectColumns (col # cols) byName pkColumnsName =
     (if byName (cm_name col) \<noteq> None then Inl ColumnAlreadyAdded
      else collectColumns cols (byName(cm_name col \<mapsto> col))
             (if cm_isPk col then pkColumnsName @ [cm_name col] else pkColumnsName))"

text \<open>
  The process-wide registry: \<open>registeredTableTypeToName\<close> and \<open>registeredTables\<close>.
\<close>

record ('r, 'v) registry =
  registeredTableTypeToName :: "string \<rightharpoonup> string"
  registeredTables :: "string \<rightharpoonup> ('r, 'v) TableMetadata"

definition TableMetadataBuilder_Build ::
  "string set \<Rightarrow> ('r, 'v) registry \<Rightarrow> ('r, 'v) TableMetadataBuilder \<Rightarrow> string list
     \<Rightarrow> panic + (('r, 'v) TableMetadata \<times> ('r, 'v) registry)" where
  "TableMetadataBuilder_Build sqlKeywords reg b ExpectedPkColumns =
     (case collectColumns (tb_columns b) Map.empty [] of
        Inl e \<Rightarrow> Inl e
      | Inr (byName, pkColumnsName) \<Rightarrow>
          if sort pkColumnsName \<noteq> sort (wrapManyWithDoubleQuoteIfSqlKeyword sqlKeywords ExpectedPkColumns)
          then Inl PrimaryKeysMismatch
          else
            let tableMetadata = \<lparr>tm_name = tb_name b, tm_columns = tb_columns b,
                                  columnsByName = byName, tm_typeName = tb_typeName b\<rparr>
            in if registeredTableTypeToName reg (tb_typeName b) \<noteq> None then Inl TableAlreadyRegistered
               else Inr (tableMetadata,
                      reg\<lparr>registeredTableTypeToName := (registeredTableTypeToName reg)(tb_typeName b \<mapsto> tb_name b),
                          registeredTables := (registeredTables reg)(tb_name b \<mapsto> tableMetadata)\<rparr>))"

text \<open>
  Auxiliary notions for the statements about registration: the primary-key names that the
  loop of \<open>Build\<close> collects, the name and the column as \<open>AddColumns\<close> stores them, an
  empty registry, and a small example table.
\<close>

definition pkColumnsNameOf :: "('r, 'v) ColumnMetadata list \<Rightarrow> string list" where
  "pkColumnsNameOf cols = map cm_name (filter cm_isPk cols)"

definition emptyRegistry :: "('r, 'v) registry" where
  "emptyRegistry = \<lparr>registeredTableTypeToName = Map.empty, registeredTables = Map.empty\<rparr>"

definition registeredName :: "string set \<Rightarrow> string \<Rightarrow> string" where
  "registeredName sqlKeywords name = wrapWithDoubleQuoteIfSqlKeyword sqlKeywords (TrimSpace name)"

definition registeredColumn :: "string set \<Rightarrow> ('r, 'v) ColumnMetadata \<Rightarrow> ('r, 'v) ColumnMetadata" where
  "registeredColumn sqlKeywords column = column\<lparr>cm_name := registeredName sqlKeywords (cm_name column)\<rparr>"

text \<open>
  The examples add keywords of ASCII letters only, for which \<open>ToLower\<close> never consults
  the Unicode case tables; \<open>asciiOnly\<close> stands for the tables there.
\<close>

definition asciiOnly :: "string \<Rightarrow> string" where
  "asciiOnly s = s"

definition idColumn :: "(nat, nat) ColumnMetadata" where
  "idColumn = \<lparr>cm_name = ''id'', cm_isPk = True, insertSpec = id, selectSpec = id\<rparr>"

definition nameColumn :: "(nat, nat) ColumnMetadata" where
  "nameColumn = \<lparr>cm_name = '' name'', cm_isPk = False, insertSpec = Suc, selectSpec = Suc\<rparr>"

definition exampleTableBuilder :: "(nat, nat) TableMetadataBuilder" where
  "exampleTableBuilder = AddColumns initSqlKeywords (NewTableMetadata ''rec'' ''t'') [idColumn, nameColumn]"


section \<open>Tables and columns in use (use\_table.go, column file)\<close>

text \<open>
  \<open>TableToUse[T]\<close>. The unique identity is an \<open>int64\<close> that is only ever compared for
  equality. A \<open>GenericTableToUse\<close> is a pointer to such a table; the builder only accepts
  sealed tables, whose name and alias no longer change, so the table is held by value.
\<close>

record ('r, 'v) TableToUse =
  uid :: int
  sealed :: bool
  metadata :: "('r, 'v) TableMetadata"
  tu_name :: string
  tu_alias :: string

definition tableName :: "('r, 'v) TableToUse \<Rightarrow> string" where
  "tableName t = tu_name t"

definition tableAlias :: "('r, 'v) TableToUse \<Rightarrow> string" where
  "tableAlias t = tu_alias t"

definition uniqueIdentity :: "('r, 'v) TableToUse \<Rightarrow> int" where
  "uniqueIdentity t = uid t"

record ('r, 'v) GenericColumnToUse =
  gc_name :: string
  gc_isPk :: bool
  gc_table :: "('r, 'v) TableToUse"

definition newGenericColumnToUse ::
  "('r, 'v) ColumnMetadata \<Rightarrow> ('r, 'v) TableToUse \<Rightarrow> ('r, 'v) GenericColumnToUse" where
  "newGenericColumnToUse column t = \<lparr>gc_name = cm_name column, gc_isPk = cm_isPk column, gc_table = t\<rparr>"

definition nameWithAlias :: "('r, 'v) GenericColumnToUse \<Rightarrow> string" where
  "nameWithAlias c = tableAlias (gc_table c) @ ''.'' @ gc_name c"

definition Excluded :: "('r, 'v) GenericColumnToUse \<Rightarrow> string" where
  "Excluded c = ''excluded.'' @ gc_name c"

definition FromExcluded :: "('r, 'v) GenericColumnToUse \<Rightarrow> string" where
  "FromExcluded c = gc_name c @ '' = '' @ Excluded c"

definition ColumnsName :: "('r, 'v) TableMetadata \<Rightarrow> string list" where
  "ColumnsName t = map cm_name (tm_columns t)"

fun columnsLoop ::
  "string set \<Rightarrow> ('r, 'v) TableToUse \<Rightarrow> string list \<Rightarrow> panic + ('r, 'v) GenericColumnToUse list" where
  "columnsLoop sqlKeywords t [] = Inr []"
| "columnsLoop sqlKeywords t (column # columns) =
     (case MustGetColumnByName sqlKeywords (metadata t) column of
        Inl e \<Rightarrow> Inl e
      | Inr col \<Rightarrow>
          (case columnsLoop sqlKeywords t columns of
             Inl e \<Rightarrow> Inl e
           | Inr uc \<Rightarrow> Inr (newGenericColumnToUse col t # uc)))"

definition Columns ::
  "string set \<Rightarrow> ('r, 'v) TableToUse \<Rightarrow> string list \<Rightarrow> panic + ('r, 'v) GenericColumnToUse list" where
  "Columns sqlKeywords t columns =
     (if \<not> sealed t then Inl TableMustBeSealed
      else columnsLoop sqlKeywords t (if columns = [] then ColumnsName (metadata t) else columns))"

definition Col ::
  "string set \<Rightarrow> ('r, 'v) TableToUse \<Rightarrow> string \<Rightarrow> panic + ('r, 'v) GenericColumnToUse" where
  "Col sqlKeywords t column =
     (case Columns sqlKeywords t [column] of
        Inl e \<Rightarrow> Inl e
      | Inr uc \<Rightarrow> (case uc of [] \<Rightarrow> Inl IndexOutOfRange | c # _ \<Rightarrow> Inr c))"

definition allColumns :: "('r, 'v) TableToUse \<Rightarrow> ('r, 'v) GenericColumnToUse list" where
  "allColumns t = map (\<lambda>col. newGenericColumnToUse col t) (tm_columns (metadata t))"

section \<open>The builder state (types.go and the builder file)\<close>

datatype sqlBuilderType = sqlBuilderTypeSelect | sqlBuilderTypeInsert

datatype selectType = notSelectTypeBasic | selectTypeBasic | selectTypeExists | selectTypeCount

datatype previousAddedBuilderAction =
    nonePrevious
  | previousIsSelect
  | previousIsSelectFrom
  | previousIsSelectJoin
  | previousIsSelectWhere
  | previousIsSelectOrderBy
  | previousIsSelectOffset
  | previousIsSelectLimit
  | previousIsInsertInto
  | previousIsInsertIntoValues
  | previousIsInsertIntoOnConflict
  | previousIsInsertIntoOnConflictDoUpdate
  | previousIsInsertIntoOnConflictDoUpdateWhere
  | previousIsInsertIntoOnConflictDoNoThing

datatype JoinType = InnerJoin | LeftJoin | RightJoin

record ('r, 'v) joinOn =
  joinType :: JoinType
  joinOnTable :: "('r, 'v) TableToUse"
  joinOnColumns :: "('r, 'v) GenericColumnToUse list"

record ('r, 'v) orderBy =
  ob_column :: "('r, 'v) GenericColumnToUse"
  asc :: bool

text \<open>
  The elements of the token slices (\<open>[]any\<close>) by the cases of the type switch of the
  renderer: a string, a column, a value of one of the integer types, a boolean, and
  \<open>OtherToken\<close> for a value of any other dynamic type.
\<close>

datatype ('r, 'v) token =
    StringToken string
  | ColumnToken "('r, 'v) GenericColumnToUse"
  | IntToken int
  | BoolToken bool
  | OtherToken

text \<open>
  The values handed to \<open>Values\<close> (\<open>any\<close>): the name of the dynamic type, whether the
  value is a pointer to that type, and the record itself.
\<close>

datatype 'r insertValue = StructValue string 'r | PointerValue string 'r

fun getStructTypeName :: "'r insertValue \<Rightarrow> string" where
  "getStructTypeName (StructValue n _) = n"
| "getStructTypeName (PointerValue n _) = n"

record ('r, 'v) SqlBuilder =
  b_type :: sqlBuilderType
  previousAction :: previousAddedBuilderAction
  aliasToTableUniqueId :: "string \<rightharpoonup> int"
  tableUniqueIdToAlias :: "int \<rightharpoonup> string"
  selectType :: selectType
  selectColumns :: "('r, 'v) GenericColumnToUse list"
  selectFromTable :: "('r, 'v) TableToUse list"
  joinsOn :: "('r, 'v) joinOn list"
  whereTokens :: "('r, 'v) token list"
  whereArgs :: "'v list"
  orders :: "('r, 'v) orderBy list"
  offset :: nat
  limit :: nat
  insertIntoTable :: "('r, 'v) TableToUse option"
  insertColumns :: "('r, 'v) GenericColumnToUse list"
  insertValues :: "'r insertValue list"
  insertOnConflictKeys :: "('r, 'v) GenericColumnToUse list"
  insertOnConflictDoUpdateTokens :: "('r, 'v) token list"
  insertOnConflictDoUpdateWhereTokens :: "('r, 'v) token list"
  insertOnConflictDoNothing :: bool

text \<open>
  A method of the builder mutates it through the pointer and either returns or panics.
  Both outcomes carry the builder as the call leaves it: a deferred call runs while the
  panic unwinds, so a panicking method can still have changed the builder.
\<close>

datatype 'b outcome = Returned 'b | Panicked panic 'b

fun stateAfter :: "'b outcome \<Rightarrow> 'b" where
  "stateAfter (Returned b) = b"
| "stateAfter (Panicked e b) = b"

fun isPanicked :: "'b outcome \<Rightarrow> bool" where
  "isPanicked (Returned b) = False"
| "isPanicked (Panicked e b) = True"

definition newSqlBuilder :: "('r, 'v) SqlBuilder" where
  "newSqlBuilder = \<lparr>
     b_type = sqlBuilderTypeSelect,
     previousAction = nonePrevious,
     aliasToTableUniqueId = Map.empty,
     tableUniqueIdToAlias = Map.empty,
     selectType = notSelectTypeBasic,
     selectColumns = [],
     selectFromTable = [],
     joinsOn = [],
     whereTokens = [],
     whereArgs = [],
     orders = [],
     offset = 0,
     limit = 0,
     insertIntoTable = None,
     insertColumns = [],
     insertValues = [],
     insertOnConflictKeys = [],
     insertOnConflictDoUpdateTokens = [],
     insertOnConflictDoUpdateWhereTokens = [],
     insertOnConflictDoNothing = False\<rparr>"

definition registerUsingTable ::
  "('r, 'v) SqlBuilder \<Rightarrow> ('r, 'v) TableToUse \<Rightarrow> ('r, 'v) SqlBuilder outcome" where
  "registerUsingTable b use =
     (if \<not> sealed use then Panicked TableMustBeSealed b
      else
        let al = tableAlias use; u = uniqueIdentity use
        in (case aliasToTableUniqueId b al of
              Some byTableUid \<Rightarrow>
                if byTableUid \<noteq> u then Panicked AliasAlreadyUsed b
                else Returned (b\<lparr>aliasToTableUniqueId := (aliasToTableUniqueId b)(al \<mapsto> u),
                                  tableUniqueIdToAlias := (tableUniqueIdToAlias b)(u \<mapsto> al)\<rparr>)
            | None \<Rightarrow>
                Returned (b\<lparr>aliasToTableUniqueId := (aliasToTableUniqueId b)(al \<mapsto> u),
                             tableUniqueIdToAlias := (tableUniqueIdToAlias b)(u \<mapsto> al)\<rparr>)))"

text \<open>The loops \<open>for _, table := range tables { b.registerUsingTable(table) }\<close>.\<close>

fun registerAll ::
  "('r, 'v) SqlBuilder \<Rightarrow> ('r, 'v) TableToUse list \<Rightarrow> ('r, 'v) SqlBuilder outcome" where
  "registerAll b [] = Returned b"
| "registerAll b (t # ts) =
     (case registerUsingTable b t of
        Panicked e b' \<Rightarrow> Panicked e b'
      | Returned b' \<Rightarrow> registerAll b' ts)"

text \<open>
  The checks that open every method. Each gives the panic it raises, if any;
  \<open>firstPanic\<close> runs them in order.
\<close>

definition mustTypeSelect :: "('r, 'v) SqlBuilder \<Rightarrow> panic option" where
  "mustTypeSelect b = (if b_type b \<noteq> sqlBuilderTypeSelect then Some OnlyBuilderTypeSupported else None)"

definition mustTypeInsert :: "('r, 'v) SqlBuilder \<Rightarrow> panic option" where
  "mustTypeInsert b = (if b_type b \<noteq> sqlBuilderTypeInsert then Some OnlyBuilderTypeSupported else None)"

definition mustSelectType :: "('r, 'v) SqlBuilder \<Rightarrow> selectType \<Rightarrow> panic option" where
  "mustSelectType b t =
     (case mustTypeSelect b of
        Some e \<Rightarrow> Some e
      | None \<Rightarrow> if selectType b \<noteq> t then Some OnlySelectTypeSupported else None)"

definition mustBasicSelect :: "('r, 'v) SqlBuilder \<Rightarrow> panic option" where
  "mustBasicSelect b = mustSelectType b selectTypeBasic"

definition mustPreviousAction ::
  "('r, 'v) SqlBuilder \<Rightarrow> previousAddedBuilderAction list \<Rightarrow> panic option" where
  "mustPreviousAction b expected =
     (if previousAction b \<in> set expected then None else Some UnexpectedPreviousAction)"

fun firstPanic :: "panic option list \<Rightarrow> panic option" where
  "firstPanic [] = None"
| "firstPanic (Some e # _) = Some e"
| "firstPanic (None # checks) = firstPanic checks"

definition setPreviousAction ::
  "previousAddedBuilderAction \<Rightarrow> ('r, 'v) SqlBuilder \<Rightarrow> ('r, 'v) SqlBuilder" where
  "setPreviousAction a b = b\<lparr>previousAction := a\<rparr>"

text \<open>
  \<open>defer b.setPreviousAction(a)\<close>: the rest of the method runs, and the action is set
  when the method is left, by a return or by a panic.
\<close>

fun deferSetPreviousAction ::
  "previousAddedBuilderAction \<Rightarrow> ('r, 'v) SqlBuilder outcome \<Rightarrow> ('r, 'v) SqlBuilder outcome" where
  "deferSetPreviousAction a (Returned b) = Returned (setPreviousAction a b)"
| "deferSetPreviousAction a (Panicked e b) = Panicked e (setPreviousAction a b)"

section \<open>The fluent methods (builder file)\<close>

text \<open>\<open>func (b *SqlBuilder) Select(columns ...GenericColumnToUse)\<close>\<close>

definition SqlBuilder_Select ::
  "('r, 'v) SqlBuilder \<Rightarrow> ('r, 'v) GenericColumnToUse list \<Rightarrow> ('r, 'v) SqlBuilder outcome" where
  "SqlBuilder_Select b columns =
     (case firstPanic [mustTypeSelect b, mustBasicSelect b, mustPreviousAction b [previousIsSelect]] of
        Some e \<Rightarrow> Panicked e b
      | None \<Rightarrow>
          deferSetPreviousAction previousIsSelect
            (case registerAll b (map gc_table columns) of
               Panicked e b' \<Rightarrow> Panicked e b'
             | Returned b' \<Rightarrow> Returned (b'\<lparr>selectColumns := selectColumns b' @ columns\<rparr>)))"

definition From ::
  "('r, 'v) SqlBuilder \<Rightarrow> ('r, 'v) TableToUse list \<Rightarrow> ('r, 'v) SqlBuilder outcome" where
  "From b tables =
     (case firstPanic [mustTypeSelect b, mustPreviousAction b [previousIsSelect, previousIsSelectFrom]] of
        Some e \<Rightarrow> Panicked e b
      | None \<Rightarrow>
          deferSetPreviousAction previousIsSelectFrom
            (case registerAll b tables of
               Panicked e b' \<Rightarrow> Panicked e b'
             | Returned b' \<Rightarrow> Returned (b'\<lparr>selectFromTable := tables\<rparr>)))"

text \<open>
  The loop of \<open>Join\<close> over the key pairs. The length of the list is even when the loop
  runs, so the case of a single remaining column does not arise.
\<close>

fun joinPairs ::
  "('r, 'v) SqlBuilder \<Rightarrow> string \<Rightarrow> ('r, 'v) GenericColumnToUse list \<Rightarrow> ('r, 'v) SqlBuilder outcome" where
  "joinPairs b joinOnTableName (left # right # onKeyPairs) =
     (let leftTable = gc_table left; rightTable = gc_table right
      in if tableName leftTable = tableName rightTable then Panicked JoinOnSameTable b
         else if tableName leftTable \<noteq> joinOnTableName \<and> tableName rightTable \<noteq> joinOnTableName
         then Panicked JoinMustInvolveJoinTable b
         else (case registerUsingTable b leftTable of
                 Panicked e b' \<Rightarrow> Panicked e b'
               | Returned b' \<Rightarrow>
                   (case registerUsingTable b' rightTable of
                      Panicked e b'' \<Rightarrow> Panicked e b''
                    | Returned b'' \<Rightarrow> joinPairs b'' joinOnTableName onKeyPairs)))"
| "joinPairs b joinOnTableName [left] = Panicked IndexOutOfRange b"
| "joinPairs b joinOnTableName [] = Returned b"

definition Join ::
  "('r, 'v) SqlBuilder \<Rightarrow> JoinType \<Rightarrow> ('r, 'v) TableToUse \<Rightarrow> ('r, 'v) GenericColumnToUse list
     \<Rightarrow> ('r, 'v) SqlBuilder outcome" where
  "Join b jt joinOnTbl onKeyPairs =
     (case firstPanic [mustTypeSelect b, mustPreviousAction b [previousIsSelectFrom, previousIsSelectJoin],
                       if length onKeyPairs mod 2 \<noteq> 0 then Some OnKeyPairsMustBeEven else None] of
        Some e \<Rightarrow> Panicked e b
      | None \<Rightarrow>
          deferSetPreviousAction previousIsSelectJoin
            (case joinPairs b (tableName joinOnTbl) onKeyPairs of
               Panicked e b' \<Rightarrow> Panicked e b'
             | Returned b' \<Rightarrow>
                 Returned (b'\<lparr>joinsOn := joinsOn b' @
                    [\<lparr>joinType = jt, joinOnTable = joinOnTbl, joinOnColumns = onKeyPairs\<rparr>]\<rparr>)))"

definition Where ::
  "('r, 'v) SqlBuilder \<Rightarrow> ('r, 'v) token list \<Rightarrow> ('r, 'v) SqlBuilder outcome" where
  "Where b tokens =
     (case b_type b of
        sqlBuilderTypeSelect \<Rightarrow>
          (case mustPreviousAction b [previousIsSelectFrom, previousIsSelectJoin, previousIsSelectWhere] of
             Some e \<Rightarrow> Panicked e b
           | None \<Rightarrow>
               deferSetPreviousAction previousIsSelectWhere
                 (Returned (b\<lparr>whereTokens := whereTokens b @ tokens\<rparr>)))
      | sqlBuilderTypeInsert \<Rightarrow>
          (case mustPreviousAction b [previousIsInsertIntoOnConflictDoUpdate] of
             Some e \<Rightarrow> Panicked e b
           | None \<Rightarrow>
               deferSetPreviousAction previousIsInsertIntoOnConflictDoUpdateWhere
                 (Returned (b\<lparr>insertOnConflictDoUpdateWhereTokens := tokens\<rparr>))))"

text \<open>\<open>And\<close> and \<open>Or\<close> differ in the connective they insert only.\<close>

definition continueWhere ::
  "string \<Rightarrow> ('r, 'v) SqlBuilder \<Rightarrow> ('r, 'v) token list \<Rightarrow> ('r, 'v) SqlBuilder outcome" where
  "continueWhere connective b tokens =
     (case b_type b of
        sqlBuilderTypeSelect \<Rightarrow>
          (case mustPreviousAction b [previousIsSelectWhere] of
             Some e \<Rightarrow> Panicked e b
           | None \<Rightarrow>
               if length (whereTokens b) = 0 then Panicked MustBeAfterWhere b
               else if length tokens = 0 then Panicked MustHaveAtLeastOneToken b
               else Returned (b\<lparr>whereTokens := whereTokens b @ [StringToken connective] @ tokens\<rparr>))
      | sqlBuilderTypeInsert \<Rightarrow>
          (case mustPreviousAction b [previousIsInsertIntoOnConflictDoUpdateWhere] of
             Some e \<Rightarrow> Panicked e b
           | None \<Rightarrow>
               if length (insertOnConflictDoUpdateWhereTokens b) = 0 then Panicked MustBeAfterWhere b
               else if length tokens = 0 then Panicked MustHaveAtLeastOneToken b
               else Returned (b\<lparr>insertOnConflictDoUpdateWhereTokens :=
                      insertOnConflictDoUpdateWhereTokens b @ [StringToken connective] @ tokens\<rparr>)))"

definition And :: "('r, 'v) SqlBuilder \<Rightarrow> ('r, 'v) token list \<Rightarrow> ('r, 'v) SqlBuilder outcome" where
  "And b tokens = continueWhere ''AND'' b tokens"

definition Or :: "('r, 'v) SqlBuilder \<Rightarrow> ('r, 'v) token list \<Rightarrow> ('r, 'v) SqlBuilder outcome" where
  "Or b tokens = continueWhere ''OR'' b tokens"

definition Args :: "('r, 'v) SqlBuilder \<Rightarrow> 'v list \<Rightarrow> ('r, 'v) SqlBuilder outcome" where
  "Args b args =
     (case firstPanic [mustTypeSelect b, mustPreviousAction b [previousIsSelectWhere]] of
        Some e \<Rightarrow> Panicked e b
      | None \<Rightarrow> Returned (b\<lparr>whereArgs := whereArgs b @ args\<rparr>))"

definition OrderBy ::
  "('r, 'v) SqlBuilder \<Rightarrow> ('r, 'v) GenericColumnToUse \<Rightarrow> bool \<Rightarrow> ('r, 'v) SqlBuilder outcome" where
  "OrderBy b column ascending =
     (case firstPanic [mustTypeSelect b, mustBasicSelect b,
                       mustPreviousAction b [previousIsSelectFrom, previousIsSelectJoin,
                                             previousIsSelectWhere, previousIsSelectOrderBy]] of
        Some e \<Rightarrow> Panicked e b
      | None \<Rightarrow>
          deferSetPreviousAction previousIsSelectOrderBy
            (Returned (b\<lparr>orders := orders b @ [\<lparr>ob_column = column, asc = ascending\<rparr>]\<rparr>)))"

definition ThenBy ::
  "('r, 'v) SqlBuilder \<Rightarrow> ('r, 'v) GenericColumnToUse \<Rightarrow> bool \<Rightarrow> ('r, 'v) SqlBuilder outcome" where
  "ThenBy b column ascending =
     (case firstPanic [mustTypeSelect b, mustBasicSelect b, mustPreviousAction b [previousIsSelectOrderBy]] of
        Some e \<Rightarrow> Panicked e b
      | None \<Rightarrow> Returned (b\<lparr>orders := orders b @ [\<lparr>ob_column = column, asc = ascending\<rparr>]\<rparr>))"

text \<open>\<open>offset\<close> and \<open>limit\<close> are of type \<open>uint\<close>; they are only stored, compared with zero and printed.\<close>

definition Offset :: "('r, 'v) SqlBuilder \<Rightarrow> nat \<Rightarrow> ('r, 'v) SqlBuilder outcome" where
  "Offset b n =
     (case firstPanic [mustTypeSelect b, mustBasicSelect b,
                       mustPreviousAction b [previousIsSelectFrom, previousIsSelectJoin, previousIsSelectWhere,
                                             previousIsSelectOrderBy, previousIsSelectLimit]] of
        Some e \<Rightarrow> Panicked e b
      | None \<Rightarrow> deferSetPreviousAction previousIsSelectOffset (Returned (b\<lparr>offset := n\<rparr>)))"

definition Limit :: "('r, 'v) SqlBuilder \<Rightarrow> nat \<Rightarrow> ('r, 'v) SqlBuilder outcome" where
  "Limit b n =
     (case firstPanic [mustTypeSelect b, mustBasicSelect b,
                       mustPreviousAction b [previousIsSelectFrom, previousIsSelectJoin, previousIsSelectWhere,
                                             previousIsSelectOrderBy, previousIsSelectOffset]] of
        Some e \<Rightarrow> Panicked e b
      | None \<Rightarrow> deferSetPreviousAction previousIsSelectLimit (Returned (b\<lparr>limit := n\<rparr>)))"

text \<open>\<open>Pagination\<close>: the argument is a pointer, \<open>None\<close> for \<open>nil\<close>, to the pair of offset and limit.\<close>

definition Pagination :: "('r, 'v) SqlBuilder \<Rightarrow> (nat \<times> nat) option \<Rightarrow> ('r, 'v) SqlBuilder outcome" where
  "Pagination b pagination =
     (case pagination of
        None \<Rightarrow> Returned b
      | Some (off, lim) \<Rightarrow>
          (case (if off > 0 then Offset b off else Returned b) of
             Panicked e b' \<Rightarrow> Panicked e b'
           | Returned b' \<Rightarrow> if lim > 0 then Limit b' lim else Returned b'))"

text \<open>
  The validation loop of \<open>Values\<close>. Reading the type name of the target table
  dereferences \<open>insertIntoTable\<close>.
\<close>

fun validateValues :: "('r, 'v) SqlBuilder \<Rightarrow> 'r insertValue list \<Rightarrow> panic option" where
  "validateValues b [] = None"
| "validateValues b (v # values) =
     (case insertIntoTable b of
        None \<Rightarrow> Some NilDereference
      | Some t \<Rightarrow>
          if getStructTypeName v \<noteq> tm_typeName (metadata t) then Some ValueNotOfTableType
          else validateValues b values)"

definition Values :: "('r, 'v) SqlBuilder \<Rightarrow> 'r insertValue list \<Rightarrow> ('r, 'v) SqlBuilder outcome" where
  "Values b values =
     (case firstPanic [mustTypeInsert b, mustPreviousAction b [previousIsInsertInto]] of
        Some e \<Rightarrow> Panicked e b
      | None \<Rightarrow>
          deferSetPreviousAction previousIsInsertIntoValues
            (case validateValues b values of
               Some e \<Rightarrow> Panicked e b
             | None \<Rightarrow> Returned (b\<lparr>insertValues := values\<rparr>)))"

fun validateConflictColumns :: "('r, 'v) SqlBuilder \<Rightarrow> ('r, 'v) GenericColumnToUse list \<Rightarrow> panic option" where
  "validateConflictColumns b [] = None"
| "validateConflictColumns b (column # columns) =
     (case insertIntoTable b of
        None \<Rightarrow> Some NilDereference
      | Some t \<Rightarrow>
          if tableName (gc_table column) \<noteq> tableName t then Some ColumnNotFromTable
          else validateConflictColumns b columns)"

definition OnConflict ::
  "('r, 'v) SqlBuilder \<Rightarrow> ('r, 'v) GenericColumnToUse list \<Rightarrow> ('r, 'v) SqlBuilder outcome" where
  "OnConflict b columns =
     (case firstPanic [mustTypeInsert b, mustPreviousAction b [previousIsInsertIntoValues]] of
        Some e \<Rightarrow> Panicked e b
      | None \<Rightarrow>
          deferSetPreviousAction previousIsInsertIntoOnConflict
            (if length (insertOnConflictKeys b) > 0 then Panicked ConflictKeysAlreadyAdded b
             else (case validateConflictColumns b columns of
                     Some e \<Rightarrow> Panicked e b
                   | None \<Rightarrow> Returned (b\<lparr>insertOnConflictKeys := columns\<rparr>))))"

definition DoUpdate :: "('r, 'v) SqlBuilder \<Rightarrow> ('r, 'v) token list \<Rightarrow> ('r, 'v) SqlBuilder outcome" where
  "DoUpdate b tokens =
     (case firstPanic [mustTypeInsert b,
                       mustPreviousAction b [previousIsInsertIntoOnConflict, previousIsInsertIntoOnConflictDoUpdate]] of
        Some e \<Rightarrow> Panicked e b
      | None \<Rightarrow>
          deferSetPreviousAction previousIsInsertIntoOnConflictDoUpdate
            (if length (insertOnConflictKeys b) < 1 then Panicked ConflictKeysNotAdded b
             else Returned (b\<lparr>insertOnConflictDoUpdateTokens :=
                    (if length (insertOnConflictDoUpdateTokens b) > 0
                     then insertOnConflictDoUpdateTokens b @ [StringToken '',\<newline>'']
                     else insertOnConflictDoUpdateTokens b) @ tokens\<rparr>)))"

text \<open>The loop of \<open>DoUpdateExceptPrimaryKeys\<close> that collects the tokens.\<close>

fun exceptPrimaryKeysTokens ::
  "('r, 'v) GenericColumnToUse list \<Rightarrow> ('r, 'v) token list \<Rightarrow> ('r, 'v) token list" where
  "exceptPrimaryKeysTokens [] tokens = tokens"
| "exceptPrimaryKeysTokens (column # columns) tokens =
     (if gc_isPk column then exceptPrimaryKeysTokens columns tokens
      else exceptPrimaryKeysTokens columns
             ((if length tokens > 0 then tokens @ [StringToken '',\<newline>''] else tokens)
                @ [StringToken (FromExcluded column)]))"

definition DoUpdateExceptPrimaryKeys :: "('r, 'v) SqlBuilder \<Rightarrow> ('r, 'v) SqlBuilder outcome" where
  "DoUpdateExceptPrimaryKeys b =
     (case mustTypeInsert b of
        Some e \<Rightarrow> Panicked e b
      | None \<Rightarrow>
          (case insertIntoTable b of
             None \<Rightarrow> Panicked NilDereference b
           | Some t \<Rightarrow> DoUpdate b (exceptPrimaryKeysTokens (allColumns t) [])))"

definition DoNothing :: "('r, 'v) SqlBuilder \<Rightarrow> ('r, 'v) SqlBuilder outcome" where
  "DoNothing b =
     (case firstPanic [mustTypeInsert b, mustPreviousAction b [previousIsInsertIntoOnConflict]] of
        Some e \<Rightarrow> Panicked e b
      | None \<Rightarrow>
          deferSetPreviousAction previousIsInsertIntoOnConflictDoNoThing
            (Returned (b\<lparr>insertOnConflictDoNothing := True\<rparr>)))"

subsection \<open>The constructors\<close>

definition Select :: "('r, 'v) GenericColumnToUse list \<Rightarrow> ('r, 'v) SqlBuilder outcome" where
  "Select selectCols =
     SqlBuilder_Select
       (newSqlBuilder\<lparr>b_type := sqlBuilderTypeSelect, selectType := selectTypeBasic,
                      previousAction := previousIsSelect\<rparr>)
       selectCols"

definition SelectExists :: "('r, 'v) SqlBuilder outcome" where
  "SelectExists =
     (case Select [] of
        Panicked e b \<Rightarrow> Panicked e b
      | Returned b \<Rightarrow> Returned (b\<lparr>selectType := selectTypeExists\<rparr>))"

definition SelectCount :: "('r, 'v) SqlBuilder outcome" where
  "SelectCount =
     (case Select [] of
        Panicked e b \<Rightarrow> Panicked e b
      | Returned b \<Rightarrow> Returned (b\<lparr>selectType := selectTypeCount\<rparr>))"

text \<open>
  The loop of \<open>InsertInto\<close> that takes every column of the table when none is given.
  The metadata of the type is the one the table was created with.
\<close>

fun defaultColumns ::
  "string set \<Rightarrow> ('r, 'v) TableToUse \<Rightarrow> ('r, 'v) ColumnMetadata list
     \<Rightarrow> panic + ('r, 'v) GenericColumnToUse list" where
  "defaultColumns sqlKeywords use [] = Inr []"
| "defaultColumns sqlKeywords use (c # cs) =
     (case Col sqlKeywords use (cm_name c) of
        Inl e \<Rightarrow> Inl e
      | Inr col \<Rightarrow>
          (case defaultColumns sqlKeywords use cs of
             Inl e \<Rightarrow> Inl e
           | Inr cols \<Rightarrow> Inr (col # cols)))"

definition InsertInto ::
  "string set \<Rightarrow> ('r, 'v) TableToUse \<Rightarrow> ('r, 'v) GenericColumnToUse list \<Rightarrow> ('r, 'v) SqlBuilder outcome" where
  "InsertInto sqlKeywords use columns =
     (let b = newSqlBuilder\<lparr>b_type := sqlBuilderTypeInsert\<rparr>
      in deferSetPreviousAction previousIsInsertInto
           (case (if length columns = 0 then defaultColumns sqlKeywords use (tm_columns (metadata use))
                  else Inr columns) of
              Inl e \<Rightarrow> Panicked e b
            | Inr cols \<Rightarrow>
                (case registerUsingTable (b\<lparr>insertColumns := cols\<rparr>) use of
                   Panicked e b' \<Rightarrow> Panicked e b'
                 | Returned b' \<Rightarrow> Returned (b'\<lparr>insertIntoTable := Some use\<rparr>))))"

subsection \<open>Calls as data\<close>

text \<open>
  A fluent call with its arguments, and the method it runs. Sequences of calls are used to
  speak about every builder a caller can obtain. (\<open>Pagination\<close> and
  \<open>DoUpdateExceptPrimaryKeys\<close> only run \<open>Offset\<close>, \<open>Limit\<close> and \<open>DoUpdate\<close>.)
\<close>

datatype ('r, 'v) call =
    CallSelect "('r, 'v) GenericColumnToUse list"
  | CallFrom "('r, 'v) TableToUse list"
  | CallJoin JoinType "('r, 'v) TableToUse" "('r, 'v) GenericColumnToUse list"
  | CallWhere "('r, 'v) token list"
  | CallAnd "('r, 'v) token list"
  | CallOr "('r, 'v) token list"
  | CallArgs "'v list"
  | CallOrderBy "('r, 'v) GenericColumnToUse" bool
  | CallThenBy "('r, 'v) GenericColumnToUse" bool
  | CallOffset nat
  | CallLimit nat
  | CallValues "'r insertValue list"
  | CallOnConflict "('r, 'v) GenericColumnToUse list"
  | CallDoUpdate "('r, 'v) token list"
  | CallDoNothing

fun applyCall :: "('r, 'v) call \<Rightarrow> ('r, 'v) SqlBuilder \<Rightarrow> ('r, 'v) SqlBuilder outcome" where
  "applyCall (CallSelect columns) b = SqlBuilder_Select b columns"
| "applyCall (CallFrom tables) b = From b tables"
| "applyCall (CallJoin jt t onKeyPairs) b = Join b jt t onKeyPairs"
| "applyCall (CallWhere tokens) b = Where b tokens"
| "applyCall (CallAnd tokens) b = And b tokens"
| "applyCall (CallOr tokens) b = Or b tokens"
| "applyCall (CallArgs args) b = Args b args"
| "applyCall (CallOrderBy column ascending) b = OrderBy b column ascending"
| "applyCall (CallThenBy column ascending) b = ThenBy b column ascending"
| "applyCall (CallOffset n) b = Offset b n"
| "applyCall (CallLimit n) b = Limit b n"
| "applyCall (CallValues values) b = Values b values"
| "applyCall (CallOnConflict columns) b = OnConflict b columns"
| "applyCall (CallDoUpdate tokens) b = DoUpdate b tokens"
| "applyCall CallDoNothing b = DoNothing b"

text \<open>The tables a call hands to \<open>registerUsingTable\<close>.\<close>

fun callTables :: "('r, 'v) call \<Rightarrow> ('r, 'v) TableToUse list" where
  "callTables (CallSelect columns) = map gc_table columns"
| "callTables (CallFrom tables) = tables"
| "callTables (CallJoin jt t onKeyPairs) = map gc_table onKeyPairs"
| "callTables _ = []"

section \<open>The call-order tables of the specification, and the builders a caller can hold\<close>

text \<open>
  The legal predecessor states of every call as the specification tabulates them, by the
  kind of the builder where the call exists for both kinds. The start state of the
  table is \<open>nonePrevious\<close>.
\<close>

fun allowedPredecessors :: "sqlBuilderType \<Rightarrow> ('r, 'v) call \<Rightarrow> previousAddedBuilderAction list" where
  "allowedPredecessors k (CallSelect _) = [nonePrevious, previousIsSelect]"
| "allowedPredecessors k (CallFrom _) = [previousIsSelect, previousIsSelectFrom]"
| "allowedPredecessors k (CallJoin _ _ _) = [previousIsSelectFrom, previousIsSelectJoin]"
| "allowedPredecessors sqlBuilderTypeSelect (CallWhere _) =
     [previousIsSelectFrom, previousIsSelectJoin, previousIsSelectWhere]"
| "allowedPredecessors sqlBuilderTypeInsert (CallWhere _) = [previousIsInsertIntoOnConflictDoUpdate]"
| "allowedPredecessors sqlBuilderTypeSelect (CallAnd _) = [previousIsSelectWhere]"
| "allowedPredecessors sqlBuilderTypeInsert (CallAnd _) = [previousIsInsertIntoOnConflictDoUpdateWhere]"
| "allowedPredecessors sqlBuilderTypeSelect (CallOr _) = [previousIsSelectWhere]"
| "allowedPredecessors sqlBuilderTypeInsert (CallOr _) = [previousIsInsertIntoOnConflictDoUpdateWhere]"
| "allowedPredecessors k (CallArgs _) = [previousIsSelectWhere]"
| "allowedPredecessors k (CallOrderBy _ _) =
     [previousIsSelectFrom, previousIsSelectJoin, previousIsSelectWhere, previousIsSelectOrderBy]"
| "allowedPredecessors k (CallThenBy _ _) = [previousIsSelectOrderBy]"
| "allowedPredecessors k (CallOffset _) =
     [previousIsSelectFrom, previousIsSelectJoin, previousIsSelectWhere, previousIsSelectOrderBy,
      previousIsSelectLimit]"
| "allowedPredecessors k (CallLimit _) =
     [previousIsSelectFrom, previousIsSelectJoin, previousIsSelectWhere, previousIsSelectOrderBy,
      previousIsSelectOffset]"
| "allowedPredecessors k (CallValues _) = [previousIsInsertInto]"
| "allowedPredecessors k (CallOnConflict _) = [previousIsInsertIntoValues]"
| "allowedPredecessors k (CallDoUpdate _) =
     [previousIsInsertIntoOnConflict, previousIsInsertIntoOnConflictDoUpdate]"
| "allowedPredecessors k CallDoNothing = [previousIsInsertIntoOnConflict]"

text \<open>The tokens that \<open>And\<close> and \<open>Or\<close> continue: those of the WHERE clause of the builder's kind.\<close>

definition existingWhereTokens :: "('r, 'v) SqlBuilder \<Rightarrow> ('r, 'v) token list" where
  "existingWhereTokens b =
     (case b_type b of
        sqlBuilderTypeSelect \<Rightarrow> whereTokens b
      | sqlBuilderTypeInsert \<Rightarrow> insertOnConflictDoUpdateWhereTokens b)"

text \<open>
  The two registries of a builder are mutually inverse: an alias is bound to a unique id
  exactly when that id is bound to the alias.
\<close>

definition mutuallyInverse :: "('r, 'v) SqlBuilder \<Rightarrow> bool" where
  "mutuallyInverse b =
     (\<forall>a u. aliasToTableUniqueId b a = Some u \<longleftrightarrow> tableUniqueIdToAlias b u = Some a)"

text \<open>
  The unique id identifies the table instance: among the tables of \<open>T\<close>, two tables with
  the same unique id are the same instance and so carry the same alias.
\<close>

definition uidIdentifiesInstance :: "('r, 'v) TableToUse set \<Rightarrow> bool" where
  "uidIdentifiesInstance T = (\<forall>t \<in> T. \<forall>t' \<in> T. uid t = uid t' \<longrightarrow> tu_alias t = tu_alias t')"

text \<open>
  The builders a caller can hold when every table it passes in comes from \<open>T\<close>: those
  returned by a constructor, and those left behind by any further call, whether the call
  returned or panicked (and the panic was recovered).
\<close>

inductive_set builders :: "string set \<Rightarrow> ('r, 'v) TableToUse set \<Rightarrow> ('r, 'v) SqlBuilder set"
  for sqlKeywords :: "string set" and T :: "('r, 'v) TableToUse set" where
  fromSelect: "Select columns = Returned b \<Longrightarrow> set (map gc_table columns) \<subseteq> T \<Longrightarrow> b \<in> builders sqlKeywords T"
| fromSelectExists: "SelectExists = Returned b \<Longrightarrow> b \<in> builders sqlKeywords T"
| fromSelectCount: "SelectCount = Returned b \<Longrightarrow> b \<in> builders sqlKeywords T"
| fromInsertInto: "InsertInto sqlKeywords use columns = Returned b \<Longrightarrow> use \<in> T \<Longrightarrow> b \<in> builders sqlKeywords T"
| afterCall: "b \<in> builders sqlKeywords T \<Longrightarrow> set (callTables c) \<subseteq> T
     \<Longrightarrow> stateAfter (applyCall c b) \<in> builders sqlKeywords T"

text \<open>The states a given builder can get into by further calls.\<close>

inductive_set descendants :: "('r, 'v) SqlBuilder \<Rightarrow> ('r, 'v) SqlBuilder set"
  for b0 :: "('r, 'v) SqlBuilder" where
  itself: "b0 \<in> descendants b0"
| afterCall: "b \<in> descendants b0 \<Longrightarrow> stateAfter (applyCall c b) \<in> descendants b0"

text \<open>
  Auxiliary predicates for the proofs: the registries are mutually inverse and every bound
  unique id belongs to a table of \<open>T\<close>; the calls reserved to basic SELECT; a builder
  that carries no column list, ordering or paging; a SELECT EXISTS or SELECT COUNT builder.
\<close>

definition registriesFrom :: "('r, 'v) TableToUse set \<Rightarrow> ('r, 'v) SqlBuilder \<Rightarrow> bool" where
  "registriesFrom T b =
     (mutuallyInverse b \<and>
      (\<forall>u a. tableUniqueIdToAlias b u = Some a \<longrightarrow> (\<exists>t \<in> T. uid t = u \<and> tu_alias t = a)))"

definition basicOnlyCall :: "('r, 'v) call \<Rightarrow> bool" where
  "basicOnlyCall c =
     (case c of
        CallSelect _ \<Rightarrow> True
      | CallOrderBy _ _ \<Rightarrow> True
      | CallThenBy _ _ \<Rightarrow> True
      | CallOffset _ \<Rightarrow> True
      | CallLimit _ \<Rightarrow> True
      | _ \<Rightarrow> False)"

definition carriesNothingBasic :: "('r, 'v) SqlBuilder \<Rightarrow> bool" where
  "carriesNothingBasic b =
     (selectColumns b = [] \<and> orders b = [] \<and> offset b = 0 \<and> limit b = 0)"

definition existsOrCount :: "('r, 'v) SqlBuilder \<Rightarrow> bool" where
  "existsOrCount b =
     (b_type b = sqlBuilderTypeSelect \<and> (selectType b = selectTypeExists \<or> selectType b = selectTypeCount))"

text \<open>Example tables and builders for concrete evaluations.\<close>

definition exampleMetadata :: "(nat, nat) TableMetadata" where
  "exampleMetadata = \<lparr>tm_name = ''t'', tm_columns = [idColumn, nameColumn\<lparr>cm_name := doubleQuoted ''name''\<rparr>],
     columnsByName = [''id'' \<mapsto> idColumn,
                      doubleQuoted ''name'' \<mapsto> nameColumn\<lparr>cm_name := doubleQuoted ''name''\<rparr>],
     tm_typeName = ''rec''\<rparr>"

definition tableA :: "(nat, nat) TableToUse" where
  "tableA = \<lparr>uid = 1, sealed = True, metadata = exampleMetadata, tu_name = ''t'', tu_alias = ''a''\<rparr>"

definition tableB :: "(nat, nat) TableToUse" where
  "tableB = \<lparr>uid = 2, sealed = True, metadata = exampleMetadata, tu_name = ''t'', tu_alias = ''a''\<rparr>"

definition colA :: "(nat, nat) GenericColumnToUse" where
  "colA = \<lparr>gc_name = ''id'', gc_isPk = True, gc_table = tableA\<rparr>"

definition selectedA :: "(nat, nat) SqlBuilder" where
  "selectedA = stateAfter (Select [colA])"

definition fromA :: "(nat, nat) SqlBuilder" where
  "fromA = stateAfter (From selectedA [tableA])"

definition existsFromA :: "(nat, nat) SqlBuilder" where
  "existsFromA = stateAfter (From (stateAfter SelectExists) [tableA])"

section \<open>Rendering (\<open>Build\<close>, \<open>buildSelect\<close>, \<open>buildInsert\<close>)\<close>

text \<open>
  The \<open>strings.Builder\<close> is the string written so far, passed along and returned.
  \<open>writeSeparated\<close> is the loop
  \<open>for i, x := range xs { if i > 0 { sb.WriteString(sep) }; sb.WriteString(f(x)) }\<close>.
\<close>

fun writeSeparated :: "string \<Rightarrow> ('a \<Rightarrow> string) \<Rightarrow> 'a list \<Rightarrow> nat \<Rightarrow> string \<Rightarrow> string" where
  "writeSeparated sep f [] i sb = sb"
| "writeSeparated sep f (x # xs) i sb =
     writeSeparated sep f xs (Suc i) ((if i > 0 then sb @ sep else sb) @ f x)"

text \<open>
  The loop over a token stream. The source has it three times, with the same type switch
  apart from the text written for a column, which is the parameter \<open>columnText\<close> here.
\<close>

fun writeTokens ::
  "(('r, 'v) GenericColumnToUse \<Rightarrow> string) \<Rightarrow> ('r, 'v) token list \<Rightarrow> string \<Rightarrow> panic + string" where
  "writeTokens columnText [] sb = Inr sb"
| "writeTokens columnText (token # tokens) sb =
     (case token of
        StringToken t \<Rightarrow> writeTokens columnText tokens (sb @ '' '' @ TrimSpace t)
      | ColumnToken t \<Rightarrow> writeTokens columnText tokens (sb @ '' '' @ columnText t)
      | IntToken t \<Rightarrow> writeTokens columnText tokens (sb @ '' '' @ decimalInt t)
      | BoolToken t \<Rightarrow> writeTokens columnText tokens (sb @ '' '' @ (if t then ''TRUE'' else ''FALSE''))
      | OtherToken \<Rightarrow> Inl UnexpectedTokenType)"

definition tableQualifiedName :: "('r, 'v) GenericColumnToUse \<Rightarrow> string" where
  "tableQualifiedName t = tableName (gc_table t) @ ''.'' @ gc_name t"

subsection \<open>SELECT\<close>

text \<open>The loop over the key pairs of one join; it reads the columns two by two.\<close>

fun writeJoinColumns :: "('r, 'v) GenericColumnToUse list \<Rightarrow> nat \<Rightarrow> string \<Rightarrow> panic + string" where
  "writeJoinColumns [] i sb = Inr sb"
| "writeJoinColumns [left] i sb = Inl IndexOutOfRange"
| "writeJoinColumns (left # right # columns) i sb =
     writeJoinColumns columns (i + 2)
       ((if i > 0 then sb @ '' AND '' else sb) @ nameWithAlias left @ '' = '' @ nameWithAlias right)"

fun writeJoins :: "('r, 'v) joinOn list \<Rightarrow> string \<Rightarrow> panic + string" where
  "writeJoins [] sb = Inr sb"
| "writeJoins (j # js) sb =
     (case writeJoinColumns (joinOnColumns j) 0
             (sb @ (case joinType j of
                      LeftJoin \<Rightarrow> ''LEFT JOIN ''
                    | RightJoin \<Rightarrow> ''RIGHT JOIN ''
                    | InnerJoin \<Rightarrow> ''INNER JOIN '')
                 @ tableName (joinOnTable j) @ '' AS '' @ tableAlias (joinOnTable j) @ '' ON '') of
        Inl e \<Rightarrow> Inl e
      | Inr sb' \<Rightarrow> writeJoins js (sb' @ ''\<newline>''))"

definition writeSelectList :: "('r, 'v) SqlBuilder \<Rightarrow> string \<Rightarrow> string" where
  "writeSelectList b sb =
     (if selectType b = selectTypeExists then sb @ ''1 ''
      else if selectType b = selectTypeCount then sb @ ''COUNT(1) ''
      else writeSeparated '', '' nameWithAlias (selectColumns b) 0 sb @ ''\<newline>'')"

definition writeFrom :: "('r, 'v) SqlBuilder \<Rightarrow> string \<Rightarrow> string" where
  "writeFrom b sb =
     writeSeparated '', '' (\<lambda>t. tableName t @ '' AS '' @ tableAlias t) (selectFromTable b) 0 (sb @ ''FROM '')
       @ ''\<newline>''"

definition writeWhere :: "('r, 'v) SqlBuilder \<Rightarrow> string \<Rightarrow> panic + string" where
  "writeWhere b sb =
     (if length (whereTokens b) > 0
      then (case writeTokens nameWithAlias (whereTokens b) (sb @ ''WHERE'') of
              Inl e \<Rightarrow> Inl e
            | Inr sb' \<Rightarrow> Inr (sb' @ ''\<newline>''))
      else Inr sb)"

definition writeOrderBy :: "('r, 'v) SqlBuilder \<Rightarrow> string \<Rightarrow> string" where
  "writeOrderBy b sb =
     (if length (orders b) > 0
      then writeSeparated '', ''
             (\<lambda>order. nameWithAlias (ob_column order) @ (if asc order then '' ASC'' else '' DESC''))
             (orders b) 0 (sb @ ''ORDER BY '') @ ''\<newline>''
      else sb)"

definition writeOffsetLimit :: "('r, 'v) SqlBuilder \<Rightarrow> string \<Rightarrow> string" where
  "writeOffsetLimit b sb =
     (if offset b > 0 \<and> limit b > 0
      then sb @ ''OFFSET '' @ decimalNat (offset b) @ '' LIMIT '' @ decimalNat (limit b) @ ''\<newline>''
      else if offset b > 0 then sb @ ''OFFSET '' @ decimalNat (offset b) @ ''\<newline>''
      else if limit b > 0 then sb @ ''LIMIT '' @ decimalNat (limit b) @ ''\<newline>''
      else sb)"

definition buildSelect :: "('r, 'v) SqlBuilder \<Rightarrow> panic + (string \<times> 'v list)" where
  "buildSelect b =
     (if length (selectColumns b) = 0 \<and> selectType b = selectTypeBasic then Inl NoColumnsSelected
      else if length (selectColumns b) = 0 \<and> selectType b = notSelectTypeBasic then Inl UnexpectedSelectType
      else if length (selectFromTable b) = 0 then Inl NoTablesSelected
      else
        (case writeJoins (joinsOn b) (writeFrom b (writeSelectList b ''SELECT '')) of
           Inl e \<Rightarrow> Inl e
         | Inr sb \<Rightarrow>
             (case writeWhere b sb of
                Inl e \<Rightarrow> Inl e
              | Inr sb' \<Rightarrow>
                  let stmt = writeOffsetLimit b (writeOrderBy b sb')
                  in Inr (if selectType b = selectTypeExists then ''SELECT EXISTS('' @ stmt @ '')'' else stmt,
                          whereArgs b))))"

subsection \<open>INSERT\<close>

text \<open>
  The loop \<open>for paramIdx := 1; paramIdx <= columnsCount; paramIdx++\<close> that writes the
  placeholders of one row. The indices are of type \<open>int\<close>; they stay far below its range,
  being bounded by the number of values times the number of columns.
\<close>

function writePlaceholders :: "nat \<Rightarrow> nat \<Rightarrow> nat \<Rightarrow> string \<Rightarrow> string" where
  "writePlaceholders vi paramIdx columnsCount sb =
     (if paramIdx \<le> columnsCount
      then writePlaceholders vi (paramIdx + 1) columnsCount
             ((if paramIdx > 1 then sb @ '','' else sb) @ ''$'' @ decimalNat (vi + paramIdx))
      else sb)"
  by pat_completeness auto
termination
  by (relation "measure (\<lambda>(vi, paramIdx, columnsCount, sb). Suc columnsCount - paramIdx)") auto

declare writePlaceholders.simps [simp del]

text \<open>
  \<open>insertSpecOfColumns\<close> (table\_metadata.go): the insert specs of the named columns, in
  the order of the names; it panics at the first name that is not a column. Each returned
  function asserts that its argument is of the type \<open>T\<close> before it applies the spec; types
  are told apart by their names.
\<close>

fun insertSpecsLoop ::
  "string set \<Rightarrow> ('r, 'v) TableMetadata \<Rightarrow> string list \<Rightarrow> panic + ('r \<Rightarrow> 'v) list" where
  "insertSpecsLoop sqlKeywords t [] = Inr []"
| "insertSpecsLoop sqlKeywords t (name # names) =
     (case MustGetColumnByName sqlKeywords t (wrapWithDoubleQuoteIfSqlKeyword sqlKeywords name) of
        Inl e \<Rightarrow> Inl e
      | Inr col \<Rightarrow>
          (case insertSpecsLoop sqlKeywords t names of
             Inl e \<Rightarrow> Inl e
           | Inr result \<Rightarrow> Inr (insertSpec col # result)))"

definition assertType :: "('r, 'v) TableMetadata \<Rightarrow> 'r insertValue \<Rightarrow> panic + 'r" where
  "assertType t a =
     (case a of
        StructValue n r \<Rightarrow> if n = tm_typeName t then Inr r else Inl TypeAssertionFailed
      | PointerValue n r \<Rightarrow> Inl TypeAssertionFailed)"

definition insertSpecOfColumns ::
  "string set \<Rightarrow> ('r, 'v) TableMetadata \<Rightarrow> string list \<Rightarrow> panic + ('r insertValue \<Rightarrow> panic + 'v) list" where
  "insertSpecOfColumns sqlKeywords t columnsName =
     (case insertSpecsLoop sqlKeywords t (if length columnsName = 0 then ColumnsName t else columnsName) of
        Inl e \<Rightarrow> Inl e
      | Inr specs \<Rightarrow>
          Inr (map (\<lambda>spec a. case assertType t a of Inl e \<Rightarrow> Inl e | Inr r \<Rightarrow> Inr (spec r)) specs))"

text \<open>The loop \<open>for _, isf := range ... { values = append(values, isf(record)) }\<close>.\<close>

fun appendExtracted ::
  "('r insertValue \<Rightarrow> panic + 'v) list \<Rightarrow> 'r insertValue \<Rightarrow> 'v list \<Rightarrow> panic + 'v list" where
  "appendExtracted [] record values = Inr values"
| "appendExtracted (isf # isfs) record values =
     (case isf record of
        Inl e \<Rightarrow> Inl e
      | Inr v \<Rightarrow> appendExtracted isfs record (values @ [v]))"

text \<open>The loop over the records: one parenthesised group of placeholders and the extracted values per record.\<close>

fun writeRows ::
  "string set \<Rightarrow> ('r, 'v) TableMetadata \<Rightarrow> string list \<Rightarrow> nat \<Rightarrow> 'r insertValue list \<Rightarrow> nat
     \<Rightarrow> string \<Rightarrow> 'v list \<Rightarrow> panic + (string \<times> 'v list)" where
  "writeRows sqlKeywords t columnsName columnsCount [] i sb values = Inr (sb, values)"
| "writeRows sqlKeywords t columnsName columnsCount (record # records) i sb values =
     (let vi = i * columnsCount;
          sb' = writePlaceholders vi 1 columnsCount ((if i > 0 then sb @ '','' else sb) @ ''('') @ '')''
      in (case insertSpecOfColumns sqlKeywords t columnsName of
            Inl e \<Rightarrow> Inl e
          | Inr isfs \<Rightarrow>
              (case appendExtracted isfs record values of
                 Inl e \<Rightarrow> Inl e
               | Inr values' \<Rightarrow>
                   writeRows sqlKeywords t columnsName columnsCount records (Suc i) sb' values')))"

definition writeOnConflict :: "('r, 'v) SqlBuilder \<Rightarrow> string \<Rightarrow> panic + string" where
  "writeOnConflict b sb =
     (if insertOnConflictDoNothing b then Inr (sb @ ''\<newline>ON CONFLICT DO NOTHING'')
      else if length (insertOnConflictKeys b) > 0
      then (case writeTokens gc_name (insertOnConflictDoUpdateTokens b)
                   (writeSeparated '', '' gc_name (insertOnConflictKeys b) 0 (sb @ ''\<newline>ON CONFLICT ('')
                      @ '') '' @ ''DO UPDATE SET\<newline>'') of
              Inl e \<Rightarrow> Inl e
            | Inr sb' \<Rightarrow>
                if length (insertOnConflictDoUpdateWhereTokens b) > 0
                then writeTokens tableQualifiedName (insertOnConflictDoUpdateWhereTokens b) (sb' @ ''\<newline>WHERE'')
                else Inr sb')
      else Inr sb)"

definition buildInsert :: "string set \<Rightarrow> ('r, 'v) SqlBuilder \<Rightarrow> panic + (string \<times> 'v list)" where
  "buildInsert sqlKeywords b =
     (if length (insertColumns b) = 0 then Inl NoColumnsForInserting
      else (case insertIntoTable b of
              None \<Rightarrow> Inl NoTableForInserting
            | Some t \<Rightarrow>
                if length (insertValues b) = 0 then Inl NoValuesForInserting
                else
                  (case writeRows sqlKeywords (metadata t) (map gc_name (insertColumns b))
                          (length (insertColumns b)) (insertValues b) 0
                          (writeSeparated '', '' gc_name (insertColumns b) 0
                             (''INSERT INTO '' @ tableName t @ '' ('') @ '')\<newline>VALUES '')
                          [] of
                     Inl e \<Rightarrow> Inl e
                   | Inr (sb, values) \<Rightarrow>
                       (case writeOnConflict b sb of
                          Inl e \<Rightarrow> Inl e
                        | Inr sb' \<Rightarrow> Inr (sb', values)))))"

definition Build :: "string set \<Rightarrow> ('r, 'v) SqlBuilder \<Rightarrow> panic + (string \<times> 'v list)" where
  "Build sqlKeywords b =
     (case b_type b of
        sqlBuilderTypeSelect \<Rightarrow> buildSelect b
      | sqlBuilderTypeInsert \<Rightarrow> buildInsert sqlKeywords b)"

text \<open>
  Closed forms used to state what the writers produce: a list of texts joined by a
  separator (as \<open>strings.Join\<close> of the mapped list), the text of one token and of a token
  stream, the placeholder group of row \<open>r\<close> for \<open>c\<close> columns, the paging clause, the
  conflict clause and the head of an INSERT statement; further the conditions under which
  the parts of a statement render.
\<close>

fun separatedText :: "string \<Rightarrow> ('a \<Rightarrow> string) \<Rightarrow> 'a list \<Rightarrow> string" where
  "separatedText sep f [] = []"
| "separatedText sep f [x] = f x"
| "separatedText sep f (x # y # ys) = f x @ sep @ separatedText sep f (y # ys)"

definition tokenText :: "(('r, 'v) GenericColumnToUse \<Rightarrow> string) \<Rightarrow> ('r, 'v) token \<Rightarrow> string" where
  "tokenText columnText token =
     (case token of
        StringToken t \<Rightarrow> TrimSpace t
      | ColumnToken t \<Rightarrow> columnText t
      | IntToken t \<Rightarrow> decimalInt t
      | BoolToken t \<Rightarrow> (if t then ''TRUE'' else ''FALSE'')
      | OtherToken \<Rightarrow> [])"

definition tokensText :: "(('r, 'v) GenericColumnToUse \<Rightarrow> string) \<Rightarrow> ('r, 'v) token list \<Rightarrow> string" where
  "tokensText columnText tokens = concat (map (\<lambda>token. '' '' @ tokenText columnText token) tokens)"

definition placeholderRow :: "nat \<Rightarrow> nat \<Rightarrow> string" where
  "placeholderRow c r = ''('' @ separatedText '','' (\<lambda>i. ''$'' @ decimalNat (r * c + i)) [1..<Suc c] @ '')''"

definition pagingText :: "nat \<Rightarrow> nat \<Rightarrow> string" where
  "pagingText n m =
     (if n > 0 \<and> m > 0 then ''OFFSET '' @ decimalNat n @ '' LIMIT '' @ decimalNat m @ ''\<newline>''
      else if n > 0 then ''OFFSET '' @ decimalNat n @ ''\<newline>''
      else if m > 0 then ''LIMIT '' @ decimalNat m @ ''\<newline>''
      else [])"

definition conflictText :: "('r, 'v) SqlBuilder \<Rightarrow> string" where
  "conflictText b =
     (if insertOnConflictDoNothing b then ''\<newline>ON CONFLICT DO NOTHING''
      else if insertOnConflictKeys b \<noteq> []
      then ''\<newline>ON CONFLICT ('' @ separatedText '', '' gc_name (insertOnConflictKeys b) @ '') DO UPDATE SET\<newline>''
             @ tokensText gc_name (insertOnConflictDoUpdateTokens b)
             @ (if insertOnConflictDoUpdateWhereTokens b \<noteq> []
                then ''\<newline>WHERE'' @ tokensText tableQualifiedName (insertOnConflictDoUpdateWhereTokens b)
                else [])
      else [])"

definition conflictRenders :: "('r, 'v) SqlBuilder \<Rightarrow> bool" where
  "conflictRenders b =
     (insertOnConflictDoNothing b \<or> insertOnConflictKeys b = [] \<or>
      (OtherToken \<notin> set (insertOnConflictDoUpdateTokens b) \<and>
       OtherToken \<notin> set (insertOnConflictDoUpdateWhereTokens b)))"

definition insertHeader :: "('r, 'v) TableToUse \<Rightarrow> ('r, 'v) GenericColumnToUse list \<Rightarrow> string" where
  "insertHeader t cols =
     ''INSERT INTO '' @ tableName t @ '' ('' @ separatedText '', '' gc_name cols @ '')\<newline>VALUES ''"

definition resolvedColumns ::
  "string set \<Rightarrow> ('r, 'v) TableMetadata \<Rightarrow> string list \<Rightarrow> ('r, 'v) ColumnMetadata list \<Rightarrow> bool" where
  "resolvedColumns sqlKeywords t names metas =
     list_all2 (\<lambda>name m. MustGetColumnByName sqlKeywords t (wrapWithDoubleQuoteIfSqlKeyword sqlKeywords name) = Inr m)
       names metas"

definition extractedRow :: "('r, 'v) ColumnMetadata list \<Rightarrow> 'r \<Rightarrow> 'v list" where
  "extractedRow metas r = map (\<lambda>m. insertSpec m r) metas"

definition selectBuildable :: "('r, 'v) SqlBuilder \<Rightarrow> bool" where
  "selectBuildable b =
     ((selectColumns b \<noteq> [] \<or> selectType b = selectTypeExists \<or> selectType b = selectTypeCount)
      \<and> selectFromTable b \<noteq> [])"

definition finishSelect :: "('r, 'v) SqlBuilder \<Rightarrow> string \<Rightarrow> string" where
  "finishSelect b stmt = (if selectType b = selectTypeExists then ''SELECT EXISTS('' @ stmt @ '')'' else stmt)"

text \<open>Example statements for concrete evaluations.\<close>

definition colName :: "(nat, nat) GenericColumnToUse" where
  "colName = \<lparr>gc_name = doubleQuoted ''name'', gc_isPk = False, gc_table = tableA\<rparr>"

definition whereA :: "(nat, nat) SqlBuilder" where
  "whereA = stateAfter (Where fromA
     [ColumnToken colA, StringToken (CHR 0xC2 # CHR 0xA0 # ''= ''), IntToken 2,
      StringToken (''AND '' @ [CHR 0xE3, CHR 0x80, CHR 0x80]), BoolToken True])"

definition pagedA :: "(nat, nat) SqlBuilder" where
  "pagedA = stateAfter (Limit (stateAfter (Offset fromA 10)) 20)"

definition pagedZeroA :: "(nat, nat) SqlBuilder" where
  "pagedZeroA = stateAfter (Limit (stateAfter (Offset fromA 0)) 5)"

definition insertA :: "(nat, nat) SqlBuilder" where
  "insertA = stateAfter (Values (stateAfter (InsertInto initSqlKeywords tableA []))
     [StructValue ''rec'' 7, StructValue ''rec'' 9])"

text \<open>\<open>InsertInto(a).Values(7, 9).OnConflict()\<close>: an upsert without conflict keys.\<close>

definition noKeysA :: "(nat, nat) SqlBuilder" where
  "noKeysA = stateAfter (OnConflict insertA [])"

definition upsertA :: "(nat, nat) SqlBuilder" where
  "upsertA = stateAfter (Where
     (stateAfter (DoUpdate (stateAfter (OnConflict insertA [colA])) [ColumnToken colName, StringToken ''= 1'']))
     [ColumnToken colA, StringToken ''<'', IntToken 100])"

text \<open>
  INSERT statements that \<open>Build\<close> cannot render: a value handed over as a pointer, a
  token of an unsupported kind in the DO UPDATE clause, and an insert column of another
  table.
\<close>

definition pointerInsertA :: "(nat, nat) SqlBuilder" where
  "pointerInsertA = stateAfter (Values (stateAfter (InsertInto initSqlKeywords tableA [])) [PointerValue ''rec'' 7])"

definition otherTokenA :: "(nat, nat) SqlBuilder" where
  "otherTokenA = stateAfter (DoUpdate (stateAfter (OnConflict insertA [colA])) [ColumnToken colName, OtherToken])"

definition zipColumn :: "(nat, nat) ColumnMetadata" where
  "zipColumn = \<lparr>cm_name = ''zip'', cm_isPk = True, insertSpec = id, selectSpec = id\<rparr>"

definition otherMetadata :: "(nat, nat) TableMetadata" where
  "otherMetadata = \<lparr>tm_name = ''u'', tm_columns = [zipColumn], columnsByName = [''zip'' \<mapsto> zipColumn],
     tm_typeName = ''other''\<rparr>"

definition tableC :: "(nat, nat) TableToUse" where
  "tableC = \<lparr>uid = 3, sealed = True, metadata = otherMetadata, tu_name = ''u'', tu_alias = ''c''\<rparr>"

definition colZip :: "(nat, nat) GenericColumnToUse" where
  "colZip = \<lparr>gc_name = ''zip'', gc_isPk = True, gc_table = tableC\<rparr>"

definition foreignColumnA :: "(nat, nat) SqlBuilder" where
  "foreignColumnA = stateAfter (Values (stateAfter (InsertInto initSqlKeywords tableA [colZip])) [StructValue ''rec'' 7])"

section \<open>Scanned rows and the row correlator (scanner file)\<close>

text \<open>
  \<open>ScannedRows\<close>: every logical row maps a table alias to a cell, \<open>row\<close> in the source.
  The cells are held by value (the correlator allocates one per alias and row, so no two
  entries share a cell); \<open>valueFunc\<close> is the value the materializer returns. An alias
  without a cell reads as the \<open>nil\<close> pointer.
\<close>

record 'a cell =
  valueFunc :: 'a
  read :: bool

record 'a ScannedRows =
  rowsOfAliasToRow :: "(string \<rightharpoonup> 'a cell) list"
  rowIdx :: nat
  anyNext :: bool

text \<open>A method of \<open>ScannedRows\<close> gives a value and leaves a state, or panics and leaves a state.\<close>

datatype ('a, 's) result = Gives 'a 's | Aborts panic 's

definition allRead :: "(string \<rightharpoonup> 'a cell) \<Rightarrow> bool" where
  "allRead currentRow = (\<forall>a \<in> dom currentRow. case currentRow a of Some r \<Rightarrow> read r | None \<Rightarrow> True)"

definition Next :: "'a ScannedRows \<Rightarrow> (bool, 'a ScannedRows) result" where
  "Next sr =
     (if anyNext sr
      then (if rowIdx sr \<ge> length (rowsOfAliasToRow sr) then Aborts IndexOutOfRange sr
            else if \<not> allRead (rowsOfAliasToRow sr ! rowIdx sr) then Aborts NotAllColumnsRead sr
            else Gives (rowIdx sr + 1 < length (rowsOfAliasToRow sr)) (sr\<lparr>rowIdx := rowIdx sr + 1\<rparr>))
      else Gives (0 < length (rowsOfAliasToRow sr)) (sr\<lparr>anyNext := True, rowIdx := 0\<rparr>))"

definition GetTable :: "'a ScannedRows \<Rightarrow> string \<Rightarrow> ('a, 'a ScannedRows) result" where
  "GetTable sr byAlias =
     (if \<not> anyNext sr then Aborts RequireNextFirst sr
      else if rowIdx sr \<ge> length (rowsOfAliasToRow sr) then Aborts IndexOutOfRange sr
      else (case (rowsOfAliasToRow sr ! rowIdx sr) byAlias of
              None \<Rightarrow> Aborts NilDereference sr
            | Some r \<Rightarrow>
                Gives (valueFunc r)
                  (sr\<lparr>rowsOfAliasToRow := (rowsOfAliasToRow sr)
                        [rowIdx sr := (rowsOfAliasToRow sr ! rowIdx sr)(byAlias \<mapsto> r\<lparr>read := True\<rparr>)]\<rparr>)))"

subsection \<open>\<open>scanRows\<close>\<close>

text \<open>
  The first loop of \<open>scanRows\<close>, over the select columns with their indices: it fills
  \<open>tablesByAlias\<close>, \<open>columnsByTableAlias\<close> and \<open>tableAliasToColumnToIndex\<close>.
\<close>

fun indexColumns ::
  "('r, 'v) GenericColumnToUse list \<Rightarrow> nat
     \<Rightarrow> (string \<rightharpoonup> ('r, 'v) TableToUse) \<times> (string \<rightharpoonup> string list) \<times> (string \<rightharpoonup> (string \<rightharpoonup> nat))
     \<Rightarrow> (string \<rightharpoonup> ('r, 'v) TableToUse) \<times> (string \<rightharpoonup> string list) \<times> (string \<rightharpoonup> (string \<rightharpoonup> nat))" where
  "indexColumns [] i maps = maps"
| "indexColumns (column # columns) i (tablesByAlias, columnsByTableAlias, tableAliasToColumnToIndex) =
     (let a = tableAlias (gc_table column)
      in indexColumns columns (Suc i)
           (tablesByAlias(a \<mapsto> gc_table column),
            columnsByTableAlias(a \<mapsto> (case columnsByTableAlias a of None \<Rightarrow> [] | Some cs \<Rightarrow> cs) @ [gc_name column]),
            tableAliasToColumnToIndex(a \<mapsto>
              (case tableAliasToColumnToIndex a of None \<Rightarrow> Map.empty | Some m \<Rightarrow> m)(gc_name column \<mapsto> i))))"

text \<open>
  \<open>selectSpecOfColumns\<close> (table\_metadata.go): it binds a fresh row, here the row at the
  address \<open>rowAddr\<close>, and gives the materializer of that row and, for every named column
  in order, the scan target of the column's select spec on that row. It panics at the
  first name that is not a column.
\<close>

fun selectSpecsLoop ::
  "string set \<Rightarrow> ('r, 'v) TableMetadata \<Rightarrow> nat \<Rightarrow> string list \<Rightarrow> panic + 'v list" where
  "selectSpecsLoop sqlKeywords t rowAddr [] = Inr []"
| "selectSpecsLoop sqlKeywords t rowAddr (name # names) =
     (case MustGetColumnByName sqlKeywords t (wrapWithDoubleQuoteIfSqlKeyword sqlKeywords name) of
        Inl e \<Rightarrow> Inl e
      | Inr col \<Rightarrow>
          (case selectSpecsLoop sqlKeywords t rowAddr names of
             Inl e \<Rightarrow> Inl e
           | Inr columns \<Rightarrow> Inr (selectSpec col rowAddr # columns)))"

definition selectSpecOfColumns ::
  "string set \<Rightarrow> ('r, 'v) TableMetadata \<Rightarrow> nat \<Rightarrow> string list \<Rightarrow> panic + (nat \<times> 'v list)" where
  "selectSpecOfColumns sqlKeywords t rowAddr columnsName =
     (case selectSpecsLoop sqlKeywords t rowAddr
             (if length columnsName = 0 then ColumnsName t else columnsName) of
        Inl e \<Rightarrow> Inl e
      | Inr columns \<Rightarrow> Inr (rowAddr, columns))"

text \<open>
  The loop \<open>for i, column := range columns\<close> that stores the scan targets in
  \<open>columnsForScanning\<close>; an absent slot of that slice is \<open>None\<close>. Reading a missing key of
  the index map gives 0.
\<close>

fun placeTargets ::
  "(string \<rightharpoonup> nat) \<Rightarrow> string list \<Rightarrow> nat \<Rightarrow> 'v list \<Rightarrow> 'v option list \<Rightarrow> panic + 'v option list" where
  "placeTargets columnToIndex [] i specs columnsForScanning = Inr columnsForScanning"
| "placeTargets columnToIndex (column # columns) i specs columnsForScanning =
     (if i \<ge> length specs then Inl IndexOutOfRange
      else
        let j = (case columnToIndex column of None \<Rightarrow> 0 | Some j \<Rightarrow> j)
        in if j \<ge> length columnsForScanning then Inl IndexOutOfRange
           else placeTargets columnToIndex columns (Suc i) specs (columnsForScanning[j := Some (specs ! i)]))"

text \<open>
  The loop \<open>for _, table := range tablesByAlias\<close> of one physical row. Go visits the
  entries of a map in an unspecified order; \<open>order\<close> lists the aliases in the order of
  this visit. \<open>alloc\<close> gives the address of the fresh row bound for an alias.
\<close>

fun scanTables ::
  "string set \<Rightarrow> (string \<Rightarrow> nat)
     \<Rightarrow> (string \<rightharpoonup> ('r, 'v) TableToUse) \<Rightarrow> (string \<rightharpoonup> string list) \<Rightarrow> (string \<rightharpoonup> (string \<rightharpoonup> nat))
     \<Rightarrow> string list \<Rightarrow> (string \<rightharpoonup> nat cell) \<Rightarrow> 'v option list
     \<Rightarrow> panic + ((string \<rightharpoonup> nat cell) \<times> 'v option list)" where
  "scanTables sqlKeywords alloc tablesByAlias columnsByTableAlias tableAliasToColumnToIndex [] aliasToRow
     columnsForScanning = Inr (aliasToRow, columnsForScanning)"
| "scanTables sqlKeywords alloc tablesByAlias columnsByTableAlias tableAliasToColumnToIndex (a # order) aliasToRow
     columnsForScanning =
     (case tablesByAlias a of
        None \<Rightarrow> scanTables sqlKeywords alloc tablesByAlias columnsByTableAlias tableAliasToColumnToIndex order
                  aliasToRow columnsForScanning
      | Some t \<Rightarrow>
          let al = tableAlias t;
              columns = (case columnsByTableAlias al of None \<Rightarrow> [] | Some cs \<Rightarrow> cs)
          in (case selectSpecOfColumns sqlKeywords (metadata t) (alloc al) columns of
                Inl e \<Rightarrow> Inl e
              | Inr (vf, specs) \<Rightarrow>
                  (case placeTargets (case tableAliasToColumnToIndex al of None \<Rightarrow> Map.empty | Some m \<Rightarrow> m)
                          columns 0 specs columnsForScanning of
                     Inl e \<Rightarrow> Inl e
                   | Inr columnsForScanning' \<Rightarrow>
                       scanTables sqlKeywords alloc tablesByAlias columnsByTableAlias tableAliasToColumnToIndex
                         order (aliasToRow(al \<mapsto> \<lparr>valueFunc = vf, read = False\<rparr>)) columnsForScanning')))"

text \<open>
  The physical rows of the row source, by what the driver and the deferred transforms do
  with each; the query itself may have failed (\<open>None\<close>).
\<close>

datatype rowBehaviour = ScanSucceeds | ScanFails | TransformFails

datatype scanError = QueryFailed | FailedToScanRow | FailedToTransformColumn

text \<open>
  The loop \<open>for rows.Next()\<close>: it receives the maps built before it. The row source is
  an effect of the loop: \<open>scanned\<close> lists the destination slices that \<open>rows.Scan\<close> has
  received so far, one for every physical row reached, and the loop returns it beside its
  result.
\<close>

fun scanLoop ::
  "string set \<Rightarrow> (nat \<Rightarrow> string \<Rightarrow> nat) \<Rightarrow> (nat \<Rightarrow> string list)
     \<Rightarrow> (string \<rightharpoonup> ('r, 'v) TableToUse) \<Rightarrow> (string \<rightharpoonup> string list) \<Rightarrow> (string \<rightharpoonup> (string \<rightharpoonup> nat))
     \<Rightarrow> nat \<Rightarrow> rowBehaviour list \<Rightarrow> nat \<Rightarrow> (string \<rightharpoonup> nat cell) list \<Rightarrow> 'v option list list
     \<Rightarrow> panic + ((scanError + nat ScannedRows) \<times> 'v option list list)" where
  "scanLoop sqlKeywords alloc order tba cba idx n [] k acc scanned =
     Inr (Inr \<lparr>rowsOfAliasToRow = acc, rowIdx = 0, anyNext = False\<rparr>, scanned)"
| "scanLoop sqlKeywords alloc order tba cba idx n (p # ps) k acc scanned =
     (case scanTables sqlKeywords (alloc k) tba cba idx (order k) Map.empty (replicate n None) of
        Inl e \<Rightarrow> Inl e
      | Inr (aliasToRow, columnsForScanning) \<Rightarrow>
          (case p of
             ScanFails \<Rightarrow> Inr (Inl FailedToScanRow, scanned @ [columnsForScanning])
           | TransformFails \<Rightarrow> Inr (Inl FailedToTransformColumn, scanned @ [columnsForScanning])
           | ScanSucceeds \<Rightarrow>
               scanLoop sqlKeywords alloc order tba cba idx n ps (Suc k) (acc @ [aliasToRow])
                 (scanned @ [columnsForScanning])))"

definition scanRows ::
  "string set \<Rightarrow> (nat \<Rightarrow> string \<Rightarrow> nat) \<Rightarrow> (nat \<Rightarrow> string list) \<Rightarrow> ('r, 'v) SqlBuilder
     \<Rightarrow> rowBehaviour list option \<Rightarrow> panic + ((scanError + nat ScannedRows) \<times> 'v option list list)" where
  "scanRows sqlKeywords alloc order b rows =
     (case rows of
        None \<Rightarrow> Inr (Inl QueryFailed, [])
      | Some physicalRows \<Rightarrow>
          (case mustTypeSelect b of
             Some e \<Rightarrow> Inl e
           | None \<Rightarrow>
               (case indexColumns (selectColumns b) 0 (Map.empty, Map.empty, Map.empty) of
                  (tablesByAlias, columnsByTableAlias, tableAliasToColumnToIndex) \<Rightarrow>
                    scanLoop sqlKeywords alloc order tablesByAlias columnsByTableAlias tableAliasToColumnToIndex
                      (length (selectColumns b)) physicalRows 0 [] [])))"

text \<open>
  Notions for the statements about \<open>ScannedRows\<close>: being positioned on a logical row, the
  current row, a row none of whose cells has been read, the rows not yet reached being
  unread (as \<open>scanRows\<close> builds them), and the state a call leaves behind.
\<close>

definition onRow :: "'a ScannedRows \<Rightarrow> bool" where
  "onRow sr = (anyNext sr \<and> rowIdx sr < length (rowsOfAliasToRow sr))"

definition currentRow :: "'a ScannedRows \<Rightarrow> (string \<rightharpoonup> 'a cell)" where
  "currentRow sr = rowsOfAliasToRow sr ! rowIdx sr"

definition unreadRow :: "(string \<rightharpoonup> 'a cell) \<Rightarrow> bool" where
  "unreadRow m = (\<forall>a r. m a = Some r \<longrightarrow> \<not> read r)"

definition laterRowsUnread :: "'a ScannedRows \<Rightarrow> bool" where
  "laterRowsUnread sr =
     (\<forall>j < length (rowsOfAliasToRow sr). (anyNext sr \<longrightarrow> rowIdx sr < j) \<longrightarrow> unreadRow (rowsOfAliasToRow sr ! j))"

text \<open>The cells of the current row that have been read are exactly those of the aliases in \<open>A\<close>.\<close>

definition readExactly :: "'a ScannedRows \<Rightarrow> string set \<Rightarrow> bool" where
  "readExactly sr A = (\<forall>a r. currentRow sr a = Some r \<longrightarrow> (read r \<longleftrightarrow> a \<in> A))"

fun stateOf :: "('a, 's) result \<Rightarrow> 's" where
  "stateOf (Gives v s) = s"
| "stateOf (Aborts e s) = s"

definition exampleScanned :: "nat ScannedRows" where
  "exampleScanned = \<lparr>rowsOfAliasToRow =
       [[''alias1'' \<mapsto> \<lparr>valueFunc = 1, read = False\<rparr>, ''alias2'' \<mapsto> \<lparr>valueFunc = 2, read = False\<rparr>],
        [''alias1'' \<mapsto> \<lparr>valueFunc = 3, read = False\<rparr>, ''alias2'' \<mapsto> \<lparr>valueFunc = 4, read = False\<rparr>]],
     rowIdx = 0, anyNext = False\<rparr>"

text \<open>
  The calls of a caller on a \<open>ScannedRows\<close>, one after the other: the state after a call
  (a panicking call leaves the rows as they were), paired with the aliases that
  \<open>GetTable\<close> has been called for since the last \<open>Next\<close> that returned.
  \<open>freshlyScanned\<close> describes the rows as \<open>scanRows\<close> hands them over: before the first
  \<open>Next\<close>, with no cell read.
\<close>

datatype scannerCall = NextCall | GetTableCall string

fun afterCall :: "'a ScannedRows \<times> string set \<Rightarrow> scannerCall \<Rightarrow> 'a ScannedRows \<times> string set" where
  "afterCall (sr, A) NextCall =
     (case Next sr of
        Gives hasRow sr' \<Rightarrow> (sr', {})
      | Aborts e sr' \<Rightarrow> (sr', A))"
| "afterCall (sr, A) (GetTableCall a) = (stateOf (GetTable sr a), insert a A)"

definition freshlyScanned :: "'a ScannedRows \<Rightarrow> bool" where
  "freshlyScanned sr = (\<not> anyNext sr \<and> rowIdx sr = 0 \<and> (\<forall>m \<in> set (rowsOfAliasToRow sr). unreadRow m))"

text \<open>
  The invariant of the calls: the rows not yet reached are unread, and on a logical row
  the cells read are exactly those of the aliases in \<open>A\<close>.
\<close>

definition consumed :: "'a ScannedRows \<Rightarrow> string set \<Rightarrow> bool" where
  "consumed sr A = (laterRowsUnread sr \<and> (onRow sr \<longrightarrow> readExactly sr A))"

text \<open>
  Two callers of the example rows: both read the first row in full and advance; on the
  second row the first reads one alias of the two, the second reads both.
\<close>

definition halfReadSecondRow :: "nat ScannedRows \<times> string set" where
  "halfReadSecondRow = foldl afterCall (exampleScanned, {})
     [NextCall, GetTableCall ''alias1'', GetTableCall ''alias2'', NextCall, GetTableCall ''alias1'']"

definition readSecondRow :: "nat ScannedRows \<times> string set" where
  "readSecondRow = foldl afterCall (exampleScanned, {})
     [NextCall, GetTableCall ''alias1'', GetTableCall ''alias2'', NextCall, GetTableCall ''alias1'',
      GetTableCall ''alias2'']"

subsection \<open>Notions for the statements about the row correlator\<close>

text \<open>
  The alias that tags a select column, the column names selected under one alias in the
  order of the select list, and the closed form of the index map: the index that
  \<open>tableAliasToColumnToIndex\<close> holds for a pair of alias and name after the loop over the
  select list started at index \<open>i\<close>.
\<close>

definition aliasOf :: "('r, 'v) GenericColumnToUse \<Rightarrow> string" where
  "aliasOf c = tableAlias (gc_table c)"

definition namesOf :: "string \<Rightarrow> ('r, 'v) GenericColumnToUse list \<Rightarrow> string list" where
  "namesOf a cols = map gc_name (filter (\<lambda>c. aliasOf c = a) cols)"

fun lastIndexFrom :: "nat \<Rightarrow> string \<Rightarrow> string \<Rightarrow> ('r, 'v) GenericColumnToUse list \<Rightarrow> nat option" where
  "lastIndexFrom i a n [] = None"
| "lastIndexFrom i a n (c # cs) =
     (case lastIndexFrom (Suc i) a n cs of
        Some j \<Rightarrow> Some j
      | None \<Rightarrow> if aliasOf c = a \<and> gc_name c = n then Some i else None)"

definition lookupIndex :: "(string \<rightharpoonup> (string \<rightharpoonup> nat)) \<Rightarrow> string \<Rightarrow> string \<Rightarrow> nat option" where
  "lookupIndex idx a n = (case idx a of None \<Rightarrow> None | Some m \<Rightarrow> m n)"

definition indexOrZero :: "(string \<rightharpoonup> nat) \<Rightarrow> string \<Rightarrow> nat" where
  "indexOrZero m n = (case m n of None \<Rightarrow> 0 | Some j \<Rightarrow> j)"

text \<open>
  Position \<open>i\<close> of the select list is where its pair of alias and name appears first, or
  where it appears last.
\<close>

definition firstOccurrence :: "('r, 'v) GenericColumnToUse list \<Rightarrow> nat \<Rightarrow> bool" where
  "firstOccurrence cols i =
     (\<forall>j < i. \<not> (aliasOf (cols ! j) = aliasOf (cols ! i) \<and> gc_name (cols ! j) = gc_name (cols ! i)))"

definition lastOccurrence :: "('r, 'v) GenericColumnToUse list \<Rightarrow> nat \<Rightarrow> bool" where
  "lastOccurrence cols i =
     (\<forall>j < length cols. i < j \<longrightarrow> \<not> (aliasOf (cols ! j) = aliasOf (cols ! i) \<and> gc_name (cols ! j) = gc_name (cols ! i)))"

text \<open>
  What the descriptors of a select list provide: every column's name resolves in the
  metadata of its own table, to the column \<open>meta c\<close> (\<open>Columns\<close> checks this when it makes
  the descriptor), and columns under one alias belong to one table (the alias registry of
  the builder). The map iteration of every physical row visits every alias of the list.
\<close>

definition columnsResolve ::
  "string set \<Rightarrow> ('r, 'v) GenericColumnToUse list \<Rightarrow> (('r, 'v) GenericColumnToUse \<Rightarrow> ('r, 'v) ColumnMetadata)
     \<Rightarrow> bool" where
  "columnsResolve sqlKeywords cols meta =
     (\<forall>c \<in> set cols. MustGetColumnByName sqlKeywords (metadata (gc_table c))
                         (wrapWithDoubleQuoteIfSqlKeyword sqlKeywords (gc_name c)) = Inr (meta c))"

definition aliasIdentifiesTable :: "('r, 'v) GenericColumnToUse list \<Rightarrow> bool" where
  "aliasIdentifiesTable cols =
     (\<forall>c \<in> set cols. \<forall>c' \<in> set cols. aliasOf c = aliasOf c' \<longrightarrow> gc_table c = gc_table c')"

definition noRepeatedPair :: "('r, 'v) GenericColumnToUse list \<Rightarrow> bool" where
  "noRepeatedPair cols = distinct (map (\<lambda>c. (aliasOf c, gc_name c)) cols)"

definition visitsEveryAlias :: "(nat \<Rightarrow> string list) \<Rightarrow> ('r, 'v) GenericColumnToUse list \<Rightarrow> bool" where
  "visitsEveryAlias order cols = (\<forall>k. distinct (order k) \<and> set (order k) = aliasOf ` set cols)"

text \<open>
  The scan target of a select column on the row bound for its alias, the destination slice
  whose targets stand where their pairs appear last (\<open>None\<close> elsewhere), the same with the
  targets where their pairs appear first, and the number of physical rows that the loop
  reaches: all of them up to the first one whose scan or transform fails.
\<close>

definition scanTarget ::
  "(string \<Rightarrow> nat) \<Rightarrow> (('r, 'v) GenericColumnToUse \<Rightarrow> ('r, 'v) ColumnMetadata) \<Rightarrow> ('r, 'v) GenericColumnToUse \<Rightarrow> 'v" where
  "scanTarget alloc meta c = selectSpec (meta c) (alloc (aliasOf c))"

definition placed ::
  "('r, 'v) GenericColumnToUse list \<Rightarrow> (string \<Rightarrow> nat) \<Rightarrow> (('r, 'v) GenericColumnToUse \<Rightarrow> ('r, 'v) ColumnMetadata)
     \<Rightarrow> string set \<Rightarrow> 'v option list \<Rightarrow> bool" where
  "placed cols alloc meta S dest =
     (length dest = length cols \<and>
      (\<forall>j < length cols. dest ! j =
         (if lastOccurrence cols j \<and> aliasOf (cols ! j) \<in> S then Some (scanTarget alloc meta (cols ! j))
          else None)))"

definition targetsAtLast ::
  "('r, 'v) GenericColumnToUse list \<Rightarrow> (string \<Rightarrow> nat) \<Rightarrow> (('r, 'v) GenericColumnToUse \<Rightarrow> ('r, 'v) ColumnMetadata)
     \<Rightarrow> 'v option list" where
  "targetsAtLast cols alloc meta =
     map (\<lambda>j. if lastOccurrence cols j then Some (scanTarget alloc meta (cols ! j)) else None) [0..<length cols]"

definition targetsAtFirst ::
  "('r, 'v) GenericColumnToUse list \<Rightarrow> (string \<Rightarrow> nat) \<Rightarrow> (('r, 'v) GenericColumnToUse \<Rightarrow> ('r, 'v) ColumnMetadata)
     \<Rightarrow> 'v option list" where
  "targetsAtFirst cols alloc meta =
     map (\<lambda>j. if firstOccurrence cols j then Some (scanTarget alloc meta (cols ! j)) else None) [0..<length cols]"

definition rowsReached :: "rowBehaviour list \<Rightarrow> nat" where
  "rowsReached physicalRows =
     min (length physicalRows) (Suc (length (takeWhile (\<lambda>p. p = ScanSucceeds) physicalRows)))"

text \<open>Example statement: a select list with a repeated column, with one alias.\<close>

definition exampleMeta :: "(nat, nat) GenericColumnToUse \<Rightarrow> (nat, nat) ColumnMetadata" where
  "exampleMeta c = (if gc_name c = ''id'' then idColumn else nameColumn\<lparr>cm_name := doubleQuoted ''name''\<rparr>)"

definition exampleAlloc :: "nat \<Rightarrow> string \<Rightarrow> nat" where
  "exampleAlloc k a = 10 * Suc k"

definition exampleOrder :: "nat \<Rightarrow> string list" where
  "exampleOrder k = [''a'']"

definition selectRepeated :: "(nat, nat) SqlBuilder" where
  "selectRepeated = stateAfter (From (stateAfter (Select [colA, colName, colA])) [tableA])"

section \<open>Registration: keyword quoting and the primary-key check\<close>

lemmas trim_defs = TrimSpace_def runeWidth_def whiteSpace_def

text \<open>
  \<open>TrimSpace\<close> on examples: U+00A0, U+3000, a line feed and U+0085 around a text with
  an inner space; a lone continuation byte and a lone lead byte, which are not white
  space; U+2020, whose encoding ends like that of U+00A0; and a string of spaces.
\<close>

lemma TrimSpace_examples:
  "TrimSpace ([CHR 0xC2, CHR 0xA0] @ '' x y'' @ [CHR 0xE3, CHR 0x80, CHR 0x80, CHR 0x0A, CHR 0xC2, CHR 0x85]) = ''x y''"
  "TrimSpace ([CHR 0xA0] @ '' x '' @ [CHR 0xC2]) = [CHR 0xA0] @ '' x '' @ [CHR 0xC2]"
  "TrimSpace [CHR 0xE2, CHR 0x80, CHR 0xA0] = [CHR 0xE2, CHR 0x80, CHR 0xA0]"
  "TrimSpace ''  '' = []"
  by (simp_all add: trim_defs)

lemma ToLower_ascii:
  "\<forall>c \<in> set s. (of_char c :: nat) < 128 \<Longrightarrow> ToLower unicodeToLower s = map toLowerChar s"
  by (simp add: ToLower_def)

lemma ToLower_examples:
  "ToLower unicodeToLower ''USER'' = ''user''"
  "ToLower unicodeToLower [CHR 0xC3, CHR 0x89, CHR ''C''] = unicodeToLower [CHR 0xC3, CHR 0x89, CHR ''C'']"
  by (simp_all add: ToLower_def toLowerChar_def)

lemma sort_eq_iff_mset: "sort (xs::string list) = sort ys \<longleftrightarrow> mset xs = mset ys"
  by (metis mset_sort properties_for_sort sorted_sort)

lemma collectColumns_distinct:
  "distinct (map cm_name cols) \<Longrightarrow> \<forall>c \<in> set cols. byName (cm_name c) = None \<Longrightarrow>
   \<exists>byName'. collectColumns cols byName pk = Inr (byName', pk @ pkColumnsNameOf cols)"
proof (induction cols arbitrary: byName pk)
  case Nil
  then show ?case by (simp add: pkColumnsNameOf_def)
next
  case (Cons col cols)
  have d: "distinct (map cm_name cols)" using Cons.prems(1) by simp
  have f: "\<forall>c \<in> set cols. (byName(cm_name col \<mapsto> col)) (cm_name c) = None"
  proof
    fix c assume c: "c \<in> set cols"
    have "cm_name col \<notin> cm_name ` set cols" using Cons.prems(1) by simp
    with c have "cm_name c \<noteq> cm_name col" by (metis imageI)
    moreover have "byName (cm_name c) = None" using c Cons.prems(2) by simp
    ultimately show "(byName(cm_name col \<mapsto> col)) (cm_name c) = None" by simp
  qed
  have free: "byName (cm_name col) = None" using Cons.prems(2) by simp
  from Cons.IH [where byName = "byName(cm_name col \<mapsto> col)"
      and pk = "if cm_isPk col then pk @ [cm_name col] else pk", OF d f] free show ?case
    by (auto simp: pkColumnsNameOf_def fun_upd_def)
qed

lemma collectColumns_Inr:
  "collectColumns cols byName pk = Inr (byName', pk') \<Longrightarrow>
   distinct (map cm_name cols) \<and> (\<forall>c \<in> set cols. byName (cm_name c) = None) \<and>
   pk' = pk @ pkColumnsNameOf cols \<and>
   byName' = byName ++ map_of (map (\<lambda>c. (cm_name c, c)) cols)"
proof (induction cols arbitrary: byName pk)
  case Nil
  then show ?case by (simp add: pkColumnsNameOf_def)
next
  case (Cons col cols)
  from Cons.prems have free: "byName (cm_name col) = None"
    and rest: "collectColumns cols (byName(cm_name col \<mapsto> col))
        (if cm_isPk col then pk @ [cm_name col] else pk) = Inr (byName', pk')"
    by (auto split: if_splits)
  note ih = Cons.IH [where byName = "byName(cm_name col \<mapsto> col)"
      and pk = "if cm_isPk col then pk @ [cm_name col] else pk", OF rest]
  from ih have notin: "\<forall>c \<in> set cols. cm_name c \<noteq> cm_name col"
    by (auto split: if_splits)
  then have nodom: "map_of (map (\<lambda>c. (cm_name c, c)) cols) (cm_name col) = None"
    by (auto simp: map_of_eq_None_iff image_iff o_def)
  have "byName' = byName(cm_name col \<mapsto> col) ++ map_of (map (\<lambda>c. (cm_name c, c)) cols)"
    using ih by (simp add: fun_upd_def)
  also have "\<dots> = byName ++ map_of (map (\<lambda>c. (cm_name c, c)) (col # cols))"
    using nodom by (auto simp: map_add_def fun_eq_iff split: option.splits)
  finally have m: "byName' = byName ++ map_of (map (\<lambda>c. (cm_name c, c)) (col # cols))" .
  have d: "distinct (map cm_name (col # cols))" using ih notin by (auto simp: image_iff)
  have f: "\<forall>c \<in> set (col # cols). byName (cm_name c) = None"
    using ih free notin by (auto split: if_splits)
  have p: "pk' = pk @ pkColumnsNameOf (col # cols)"
    using ih by (simp add: pkColumnsNameOf_def)
  from d f p m show ?case by blast
qed

lemma collectColumns_lookup:
  assumes "collectColumns cols byName pk = Inr (byName', pk')" and "c \<in> set cols"
  shows "byName' (cm_name c) = Some c"
proof -
  from collectColumns_Inr [OF assms(1)]
  have d: "distinct (map cm_name cols)"
    and m: "byName' = byName ++ map_of (map (\<lambda>c. (cm_name c, c)) cols)" by simp_all
  have "distinct (map fst (map (\<lambda>c. (cm_name c, c)) cols))" using d by (simp add: o_def)
  moreover have "(cm_name c, c) \<in> set (map (\<lambda>c. (cm_name c, c)) cols)" using assms(2) by auto
  ultimately have "map_of (map (\<lambda>c. (cm_name c, c)) cols) (cm_name c) = Some c"
    by (rule map_of_is_SomeI)
  then show ?thesis using m by (simp add: map_add_def)
qed


lemma foldl_AddSqlKeyword:
  "foldl (AddSqlKeyword unicodeToLower) S added = S \<union> ToLower unicodeToLower ` set added"
  by (induction added arbitrary: S) (auto simp: AddSqlKeyword_def)

lemma doubleQuoted_neq: "doubleQuoted name \<noteq> name"
proof
  assume "doubleQuoted name = name"
  then have "length (doubleQuoted name) = length name" by simp
  then show False by (simp add: doubleQuoted_def)
qed

lemma Build_Inr_columnsByName:
  assumes "TableMetadataBuilder_Build kws reg b expected = Inr (tm, reg')"
    and "c \<in> set (tb_columns b)"
  shows "columnsByName tm (cm_name c) = Some c"
proof -
  from assms(1) obtain byName pk where cc: "collectColumns (tb_columns b) Map.empty [] = Inr (byName, pk)"
    and tm: "columnsByName tm = byName"
    by (auto simp: TableMetadataBuilder_Build_def Let_def split: sum.splits if_splits)
  from collectColumns_lookup [OF cc assms(2)] tm show ?thesis by simp
qed

text \<open>
  C6 (amended). When the type is not yet registered and the column names are unique,
  \<open>Build\<close> fails exactly when the names of the primary-key columns and the declared
  expected names (after the same keyword quoting) differ as multisets, that is, when one
  list is not a permutation of the other; in particular the order of either list never
  matters. When the expected list has no repeated name this is the comparison of the two
  sets.
\<close>

theorem primary_key_check:
  fixes b :: "('r, 'v) TableMetadataBuilder"
  assumes "registeredTableTypeToName reg (tb_typeName b) = None"
    and "distinct (map cm_name (tb_columns b))"
  shows "(isl (TableMetadataBuilder_Build kws reg b expected) \<longleftrightarrow>
           mset (pkColumnsNameOf (tb_columns b)) \<noteq> mset (wrapManyWithDoubleQuoteIfSqlKeyword kws expected))
       \<and> (distinct (wrapManyWithDoubleQuoteIfSqlKeyword kws expected) \<longrightarrow>
            (isl (TableMetadataBuilder_Build kws reg b expected) \<longleftrightarrow>
              set (pkColumnsNameOf (tb_columns b)) \<noteq> set (wrapManyWithDoubleQuoteIfSqlKeyword kws expected)))"
proof -
  from collectColumns_distinct [OF assms(2), of Map.empty "[]"]
  obtain byName where cc: "collectColumns (tb_columns b) Map.empty [] = Inr (byName, pkColumnsNameOf (tb_columns b))"
    by auto
  have main: "isl (TableMetadataBuilder_Build kws reg b expected) \<longleftrightarrow>
           mset (pkColumnsNameOf (tb_columns b)) \<noteq> mset (wrapManyWithDoubleQuoteIfSqlKeyword kws expected)"
    using cc assms(1) by (simp add: TableMetadataBuilder_Build_def Let_def sort_eq_iff_mset)
  have dpk: "distinct (pkColumnsNameOf (tb_columns b))"
    unfolding pkColumnsNameOf_def using assms(2) by (simp add: distinct_map_filter)
  have "mset (pkColumnsNameOf (tb_columns b)) = mset (wrapManyWithDoubleQuoteIfSqlKeyword kws expected)
      \<longleftrightarrow> set (pkColumnsNameOf (tb_columns b)) = set (wrapManyWithDoubleQuoteIfSqlKeyword kws expected)"
    if "distinct (wrapManyWithDoubleQuoteIfSqlKeyword kws expected)"
    using dpk that by (metis set_eq_iff_mset_eq_distinct)
  with main show ?thesis by blast
qed

text \<open>
  With the expected list \<open>[id, id]\<close> and the single primary key \<open>id\<close> the two sets are
  equal, and \<open>Build\<close> fails: the comparison is not a comparison of sets.
\<close>

theorem primary_key_check_counterexample:
  "registeredTableTypeToName (emptyRegistry :: (nat, nat) registry) (tb_typeName exampleTableBuilder) = None
   \<and> distinct (map cm_name (tb_columns exampleTableBuilder))
   \<and> set (pkColumnsNameOf (tb_columns exampleTableBuilder)) = set [''id'', ''id'']
   \<and> TableMetadataBuilder_Build initSqlKeywords emptyRegistry exampleTableBuilder [''id'', ''id'']
        = Inl PrimaryKeysMismatch"
  by (simp add: exampleTableBuilder_def AddColumns_def NewTableMetadata_def idColumn_def nameColumn_def
      emptyRegistry_def pkColumnsNameOf_def TableMetadataBuilder_Build_def trim_defs
      wrapWithDoubleQuoteIfSqlKeyword_def wrapManyWithDoubleQuoteIfSqlKeyword_def
      initSqlKeywords_def predefinedList_def doubleQuoted_def)

theorem primary_key_check_witness:
  "registeredTableTypeToName (emptyRegistry :: (nat, nat) registry) (tb_typeName exampleTableBuilder) = None
   \<and> distinct (map cm_name (tb_columns exampleTableBuilder))
   \<and> distinct (wrapManyWithDoubleQuoteIfSqlKeyword initSqlKeywords [''id''])
   \<and> \<not> isl (TableMetadataBuilder_Build initSqlKeywords emptyRegistry exampleTableBuilder [''id''])
   \<and> isl (TableMetadataBuilder_Build initSqlKeywords emptyRegistry exampleTableBuilder [''name''])"
proof -
  have h1: "registeredTableTypeToName (emptyRegistry :: (nat, nat) registry) (tb_typeName exampleTableBuilder) = None"
    by (simp add: emptyRegistry_def)
  have h2: "distinct (map cm_name (tb_columns exampleTableBuilder))"
    by (simp add: exampleTableBuilder_def AddColumns_def NewTableMetadata_def idColumn_def nameColumn_def
        trim_defs wrapWithDoubleQuoteIfSqlKeyword_def initSqlKeywords_def predefinedList_def
        doubleQuoted_def)
  have pk: "pkColumnsNameOf (tb_columns exampleTableBuilder) = [''id'']"
    by (simp add: exampleTableBuilder_def AddColumns_def NewTableMetadata_def idColumn_def nameColumn_def
        trim_defs wrapWithDoubleQuoteIfSqlKeyword_def initSqlKeywords_def predefinedList_def
        pkColumnsNameOf_def)
  have w1: "wrapManyWithDoubleQuoteIfSqlKeyword initSqlKeywords [''id''] = [''id'']"
    by (simp add: wrapManyWithDoubleQuoteIfSqlKeyword_def wrapWithDoubleQuoteIfSqlKeyword_def
        initSqlKeywords_def predefinedList_def)
  have w2: "wrapManyWithDoubleQuoteIfSqlKeyword initSqlKeywords [''name''] = [doubleQuoted ''name'']"
    by (simp add: wrapManyWithDoubleQuoteIfSqlKeyword_def wrapWithDoubleQuoteIfSqlKeyword_def
        initSqlKeywords_def predefinedList_def)
  from primary_key_check [OF h1 h2, of initSqlKeywords "[''id'']"]
    primary_key_check [OF h1 h2, of initSqlKeywords "[''name'']"] h1 h2
  show ?thesis by (simp add: pk w1 w2 doubleQuoted_def)
qed

text \<open>
  C8 (amended). A name is double-quoted exactly when it is, letter for letter, one of the
  predefined keywords or the lower-cased form of a keyword added with \<open>AddSqlKeyword\<close>;
  \<open>AddColumns\<close> applies this to the trimmed name; after a successful \<open>Build\<close> a lookup
  by the trimmed original name finds the column, and a quoted column is still found after
  more keywords have been added.
\<close>

theorem keyword_quoting:
  fixes b :: "('r, 'v) TableMetadataBuilder"
  shows "(wrapWithDoubleQuoteIfSqlKeyword (foldl (AddSqlKeyword unicodeToLower) initSqlKeywords added) name =
            (if name \<in> set predefinedList \<union> ToLower unicodeToLower ` set added then doubleQuoted name else name))
       \<and> doubleQuoted name \<noteq> name
       \<and> tb_columns (AddColumns kws b cols) = tb_columns b @ map (registeredColumn kws) cols
       \<and> (TableMetadataBuilder_Build kws reg (AddColumns kws b cols) expected = Inr (tm, reg') \<longrightarrow>
            c \<in> set cols \<longrightarrow>
              MustGetColumnByName kws tm (TrimSpace (cm_name c)) = Inr (registeredColumn kws c)
            \<and> (TrimSpace (cm_name c) \<in> kws \<longrightarrow>
                 MustGetColumnByName (foldl (AddSqlKeyword unicodeToLower) kws later) tm (TrimSpace (cm_name c))
                   = Inr (c\<lparr>cm_name := doubleQuoted (TrimSpace (cm_name c))\<rparr>)))"
proof -
  have q: "wrapWithDoubleQuoteIfSqlKeyword (foldl (AddSqlKeyword unicodeToLower) initSqlKeywords added) name =
            (if name \<in> set predefinedList \<union> ToLower unicodeToLower ` set added then doubleQuoted name else name)"
    by (simp add: wrapWithDoubleQuoteIfSqlKeyword_def foldl_AddSqlKeyword initSqlKeywords_def)
  have r: "tb_columns (AddColumns kws b cols) = tb_columns b @ map (registeredColumn kws) cols"
    by (simp add: AddColumns_def registeredColumn_def registeredName_def)
  have l: "MustGetColumnByName kws tm (TrimSpace (cm_name c)) = Inr (registeredColumn kws c)
            \<and> (TrimSpace (cm_name c) \<in> kws \<longrightarrow>
                 MustGetColumnByName (foldl (AddSqlKeyword unicodeToLower) kws later) tm (TrimSpace (cm_name c))
                   = Inr (c\<lparr>cm_name := doubleQuoted (TrimSpace (cm_name c))\<rparr>))"
    if ok: "TableMetadataBuilder_Build kws reg (AddColumns kws b cols) expected = Inr (tm, reg')"
      and c: "c \<in> set cols"
  proof -
    have "registeredColumn kws c \<in> set (tb_columns (AddColumns kws b cols))"
      using c by (simp add: r)
    from Build_Inr_columnsByName [OF ok this]
    have stored: "columnsByName tm (registeredName kws (cm_name c)) = Some (registeredColumn kws c)"
      by (simp add: registeredColumn_def)
    then have a: "MustGetColumnByName kws tm (TrimSpace (cm_name c)) = Inr (registeredColumn kws c)"
      by (simp add: MustGetColumnByName_def registeredName_def)
    have b: "MustGetColumnByName (foldl (AddSqlKeyword unicodeToLower) kws later) tm (TrimSpace (cm_name c))
                   = Inr (c\<lparr>cm_name := doubleQuoted (TrimSpace (cm_name c))\<rparr>)"
      if "TrimSpace (cm_name c) \<in> kws"
      using stored that
      by (simp add: MustGetColumnByName_def registeredName_def registeredColumn_def
          wrapWithDoubleQuoteIfSqlKeyword_def foldl_AddSqlKeyword)
    from a b show ?thesis by blast
  qed
  from q r l doubleQuoted_neq show ?thesis by blast
qed

text \<open>
  Adding the keyword \<open>USER\<close> makes the name \<open>user\<close>, which differs from it in case
  only, quoted, while the name \<open>USER\<close> itself stays unquoted.
\<close>

theorem keyword_quoting_counterexample:
  "wrapWithDoubleQuoteIfSqlKeyword initSqlKeywords ''user'' = ''user''
   \<and> wrapWithDoubleQuoteIfSqlKeyword (AddSqlKeyword asciiOnly initSqlKeywords ''USER'') ''user'' = doubleQuoted ''user''
   \<and> wrapWithDoubleQuoteIfSqlKeyword (AddSqlKeyword asciiOnly initSqlKeywords ''USER'') ''USER'' = ''USER''"
  by (simp add: wrapWithDoubleQuoteIfSqlKeyword_def AddSqlKeyword_def ToLower_def toLowerChar_def
      initSqlKeywords_def predefinedList_def)

theorem keyword_quoting_witness:
  "\<exists>tm reg'. TableMetadataBuilder_Build initSqlKeywords emptyRegistry exampleTableBuilder [''id''] = Inr (tm, reg')
     \<and> nameColumn \<in> set [idColumn, nameColumn]
     \<and> TrimSpace (cm_name nameColumn) \<in> initSqlKeywords
     \<and> MustGetColumnByName initSqlKeywords tm ''name'' = Inr (nameColumn\<lparr>cm_name := doubleQuoted ''name''\<rparr>)
     \<and> MustGetColumnByName (foldl (AddSqlKeyword asciiOnly) initSqlKeywords [''USER'']) tm ''name''
          = Inr (nameColumn\<lparr>cm_name := doubleQuoted ''name''\<rparr>)"
proof -
  have "\<not> isl (TableMetadataBuilder_Build initSqlKeywords emptyRegistry exampleTableBuilder [''id''])"
    by (simp add: exampleTableBuilder_def AddColumns_def NewTableMetadata_def idColumn_def nameColumn_def
      emptyRegistry_def TableMetadataBuilder_Build_def trim_defs Let_def
      wrapWithDoubleQuoteIfSqlKeyword_def wrapManyWithDoubleQuoteIfSqlKeyword_def
      initSqlKeywords_def predefinedList_def doubleQuoted_def)
  then obtain tm reg' where
    ok: "TableMetadataBuilder_Build initSqlKeywords emptyRegistry
          (AddColumns initSqlKeywords (NewTableMetadata ''rec'' ''t'') [idColumn, nameColumn]) [''id''] = Inr (tm, reg')"
    unfolding exampleTableBuilder_def by (metis isl_def old.prod.exhaust sum.collapse(2))
  have t: "TrimSpace (cm_name nameColumn) = ''name''"
    by (simp add: nameColumn_def trim_defs)
  have k: "''name'' \<in> initSqlKeywords" by (simp add: initSqlKeywords_def predefinedList_def)
  have m: "nameColumn \<in> set [idColumn, nameColumn]" by simp
  from keyword_quoting [where kws = initSqlKeywords and b = "NewTableMetadata ''rec'' ''t''"
      and cols = "[idColumn, nameColumn]" and reg = emptyRegistry and expected = "[''id'']"
      and tm = tm and reg' = reg' and c = nameColumn and later = "[''USER'']"
      and unicodeToLower = asciiOnly] ok m t k
  show ?thesis
    by (simp add: exampleTableBuilder_def registeredColumn_def registeredName_def
        wrapWithDoubleQuoteIfSqlKeyword_def)
qed


section \<open>The state machine of the builder\<close>

lemmas check_defs = mustTypeSelect_def mustTypeInsert_def mustSelectType_def mustBasicSelect_def
  mustPreviousAction_def

lemmas method_defs = SqlBuilder_Select_def From_def Join_def Where_def continueWhere_def And_def Or_def
  Args_def OrderBy_def ThenBy_def Offset_def Limit_def Values_def OnConflict_def DoUpdate_def DoNothing_def

lemma wrong_predecessor_aborts:
  "previousAction b \<notin> set (allowedPredecessors (b_type b) c) \<Longrightarrow> \<exists>e. applyCall c b = Panicked e b"
  by (cases c; cases "b_type b") (auto simp: method_defs check_defs)

lemma continue_without_tokens_aborts:
  "existingWhereTokens b = [] \<Longrightarrow> \<exists>e. continueWhere connective b tokens = Panicked e b"
  by (cases "b_type b") (auto simp: continueWhere_def existingWhereTokens_def check_defs)

lemma selectedA_eq: "selectedA = newSqlBuilder\<lparr>b_type := sqlBuilderTypeSelect, selectType := selectTypeBasic,
   previousAction := previousIsSelect, aliasToTableUniqueId := [''a'' \<mapsto> 1], tableUniqueIdToAlias := [1 \<mapsto> ''a''],
   selectColumns := [colA]\<rparr>"
  by (simp add: selectedA_def Select_def SqlBuilder_Select_def check_defs newSqlBuilder_def
      registerUsingTable_def colA_def tableA_def tableAlias_def uniqueIdentity_def setPreviousAction_def Let_def)

lemmas eval_defs = method_defs check_defs newSqlBuilder_def registerUsingTable_def tableAlias_def
  uniqueIdentity_def tableName_def setPreviousAction_def Let_def Select_def SelectExists_def SelectCount_def

lemma fromA_eq: "fromA = selectedA\<lparr>previousAction := previousIsSelectFrom, selectFromTable := [tableA]\<rparr>"
  by (simp add: fromA_def selectedA_eq eval_defs tableA_def)

lemma existsFromA_eq:
  "existsFromA = newSqlBuilder\<lparr>b_type := sqlBuilderTypeSelect, selectType := selectTypeExists,
     previousAction := previousIsSelectFrom, aliasToTableUniqueId := [''a'' \<mapsto> 1],
     tableUniqueIdToAlias := [1 \<mapsto> ''a''], selectFromTable := [tableA]\<rparr>"
  by (simp add: existsFromA_def eval_defs tableA_def)

lemma insertA_eq: "insertA = newSqlBuilder\<lparr>b_type := sqlBuilderTypeInsert,
    previousAction := previousIsInsertIntoValues,
    aliasToTableUniqueId := [''a'' \<mapsto> 1], tableUniqueIdToAlias := [1 \<mapsto> ''a''],
    insertIntoTable := Some tableA, insertColumns := [colA, colName],
    insertValues := [StructValue ''rec'' 7, StructValue ''rec'' 9]\<rparr>"
  by (simp add: insertA_def InsertInto_def Col_def Columns_def MustGetColumnByName_def newGenericColumnToUse_def
      eval_defs tableA_def colA_def colName_def exampleMetadata_def idColumn_def nameColumn_def wrapWithDoubleQuoteIfSqlKeyword_def initSqlKeywords_def predefinedList_def doubleQuoted_def)

lemma noKeysA_eq: "noKeysA = insertA\<lparr>previousAction := previousIsInsertIntoOnConflict\<rparr>"
  by (simp add: noKeysA_def insertA_eq eval_defs validateConflictColumns.simps)

lemma DoUpdate_without_keys:
  "insertOnConflictKeys b = [] \<Longrightarrow>
   DoUpdate b tokens =
     (if b_type b \<noteq> sqlBuilderTypeInsert then Panicked OnlyBuilderTypeSupported b
      else if previousAction b \<notin> {previousIsInsertIntoOnConflict, previousIsInsertIntoOnConflictDoUpdate}
      then Panicked UnexpectedPreviousAction b
      else Panicked ConflictKeysNotAdded (b\<lparr>previousAction := previousIsInsertIntoOnConflictDoUpdate\<rparr>))"
  by (simp add: DoUpdate_def check_defs setPreviousAction_def)

text \<open>
  C1 (amended). A call whose builder is in a state outside the call's legal predecessor
  states panics and leaves the builder as it was, and so do \<open>And\<close> and \<open>Or\<close> on a
  builder without WHERE tokens. \<open>DoUpdate\<close> on a builder without conflict keys always
  panics and changes no accumulator; from a legal predecessor state it panics after its
  deferred update of the cursor has been registered, so the cursor is left at DoUpdate.
\<close>

theorem illegal_call_aborts:
  "(previousAction b \<notin> set (allowedPredecessors (b_type b) c) \<longrightarrow> (\<exists>e. applyCall c b = Panicked e b))
   \<and> (existingWhereTokens b = [] \<longrightarrow>
        (\<exists>e. applyCall (CallAnd tokens) b = Panicked e b) \<and> (\<exists>e. applyCall (CallOr tokens) b = Panicked e b))
   \<and> (insertOnConflictKeys b = [] \<longrightarrow>
        applyCall (CallDoUpdate tokens) b =
          (if b_type b \<noteq> sqlBuilderTypeInsert then Panicked OnlyBuilderTypeSupported b
           else if previousAction b \<notin> {previousIsInsertIntoOnConflict, previousIsInsertIntoOnConflictDoUpdate}
           then Panicked UnexpectedPreviousAction b
           else Panicked ConflictKeysNotAdded (b\<lparr>previousAction := previousIsInsertIntoOnConflictDoUpdate\<rparr>)))"
  using wrong_predecessor_aborts [of b c] continue_without_tokens_aborts [of b]
    DoUpdate_without_keys [of b tokens]
  by (simp add: And_def Or_def)

text \<open>
  After \<open>InsertInto(a).Values(7, 9).OnConflict()\<close> the builder has no conflict key, so
  \<open>DoUpdate\<close> is not a legal call; it panics, and the builder it leaves is not the
  builder it was called on: the cursor has moved from OnConflict to DoUpdate.
\<close>

theorem illegal_call_aborts_counterexample:
  "Values (stateAfter (InsertInto initSqlKeywords tableA [])) [StructValue ''rec'' 7, StructValue ''rec'' 9]
     = Returned insertA
   \<and> OnConflict insertA [] = Returned noKeysA
   \<and> insertOnConflictKeys noKeysA = []
   \<and> previousAction noKeysA = previousIsInsertIntoOnConflict
   \<and> applyCall (CallDoUpdate [StringToken ''x'']) noKeysA
        = Panicked ConflictKeysNotAdded (noKeysA\<lparr>previousAction := previousIsInsertIntoOnConflictDoUpdate\<rparr>)
   \<and> stateAfter (applyCall (CallDoUpdate [StringToken ''x'']) noKeysA) \<noteq> noKeysA"
proof -
  have 1: "Values (stateAfter (InsertInto initSqlKeywords tableA []))
      [StructValue ''rec'' 7, StructValue ''rec'' 9] = Returned insertA"
    by (simp add: insertA_eq InsertInto_def Col_def Columns_def MustGetColumnByName_def
        newGenericColumnToUse_def eval_defs tableA_def colA_def colName_def exampleMetadata_def idColumn_def
        nameColumn_def wrapWithDoubleQuoteIfSqlKeyword_def initSqlKeywords_def predefinedList_def
        doubleQuoted_def)
  have 2: "OnConflict insertA [] = Returned noKeysA"
    by (simp add: noKeysA_eq insertA_eq eval_defs)
  have 3: "applyCall (CallDoUpdate [StringToken ''x'']) noKeysA
        = Panicked ConflictKeysNotAdded (noKeysA\<lparr>previousAction := previousIsInsertIntoOnConflictDoUpdate\<rparr>)"
    by (simp add: noKeysA_eq insertA_eq eval_defs)
  have 4: "previousAction noKeysA = previousIsInsertIntoOnConflict" "insertOnConflictKeys noKeysA = []"
    by (simp_all add: noKeysA_eq insertA_eq newSqlBuilder_def)
  have "previousAction (stateAfter (applyCall (CallDoUpdate [StringToken ''x'']) noKeysA)) \<noteq> previousAction noKeysA"
    unfolding 3 4 by simp
  then have 5: "stateAfter (applyCall (CallDoUpdate [StringToken ''x'']) noKeysA) \<noteq> noKeysA" by auto
  from 1 2 3 4 5 show ?thesis by simp
qed

theorem illegal_call_aborts_witness:
  "previousAction selectedA \<notin> set (allowedPredecessors (b_type selectedA) (CallWhere [StringToken ''x'']))
   \<and> applyCall (CallWhere [StringToken ''x'']) selectedA = Panicked UnexpectedPreviousAction selectedA
   \<and> existingWhereTokens selectedA = []
   \<and> applyCall (CallAnd [StringToken ''x'']) selectedA = Panicked UnexpectedPreviousAction selectedA
   \<and> insertOnConflictKeys selectedA = []
   \<and> applyCall (CallDoUpdate [StringToken ''x'']) selectedA = Panicked OnlyBuilderTypeSupported selectedA
   \<and> insertOnConflictKeys noKeysA = []
   \<and> b_type noKeysA = sqlBuilderTypeInsert
   \<and> previousAction noKeysA = previousIsInsertIntoOnConflict
   \<and> applyCall (CallDoUpdate [StringToken ''x'']) noKeysA
        = Panicked ConflictKeysNotAdded (noKeysA\<lparr>previousAction := previousIsInsertIntoOnConflictDoUpdate\<rparr>)
   \<and> insertOnConflictKeys insertA = []
   \<and> previousAction insertA \<notin> set (allowedPredecessors (b_type insertA) (CallDoUpdate [StringToken ''x'']))
   \<and> applyCall (CallDoUpdate [StringToken ''x'']) insertA = Panicked UnexpectedPreviousAction insertA"
proof -
  have h: "insertOnConflictKeys noKeysA = []" "b_type noKeysA = sqlBuilderTypeInsert"
    "previousAction noKeysA = previousIsInsertIntoOnConflict"
    "insertOnConflictKeys insertA = []" "b_type insertA = sqlBuilderTypeInsert"
    "previousAction insertA = previousIsInsertIntoValues"
    by (simp_all add: noKeysA_eq insertA_eq newSqlBuilder_def)
  from illegal_call_aborts [of selectedA "CallWhere [StringToken ''x'']" "[StringToken ''x'']"]
  have a: "previousAction selectedA \<notin> set (allowedPredecessors (b_type selectedA) (CallWhere [StringToken ''x'']))
   \<and> applyCall (CallWhere [StringToken ''x'']) selectedA = Panicked UnexpectedPreviousAction selectedA
   \<and> existingWhereTokens selectedA = []
   \<and> applyCall (CallAnd [StringToken ''x'']) selectedA = Panicked UnexpectedPreviousAction selectedA
   \<and> insertOnConflictKeys selectedA = []
   \<and> applyCall (CallDoUpdate [StringToken ''x'']) selectedA = Panicked OnlyBuilderTypeSupported selectedA"
    by (simp add: selectedA_eq newSqlBuilder_def existingWhereTokens_def method_defs check_defs)
  from illegal_call_aborts [of noKeysA "CallDoUpdate [StringToken ''x'']" "[StringToken ''x'']"] h
  have b: "applyCall (CallDoUpdate [StringToken ''x'']) noKeysA
        = Panicked ConflictKeysNotAdded (noKeysA\<lparr>previousAction := previousIsInsertIntoOnConflictDoUpdate\<rparr>)"
    by simp
  from illegal_call_aborts [of insertA "CallDoUpdate [StringToken ''x'']" "[StringToken ''x'']"] h
  have c: "previousAction insertA \<notin> set (allowedPredecessors (b_type insertA) (CallDoUpdate [StringToken ''x'']))
     \<and> applyCall (CallDoUpdate [StringToken ''x'']) insertA = Panicked UnexpectedPreviousAction insertA"
    by simp
  from a b c h show ?thesis by simp
qed

subsection \<open>The alias registries\<close>

lemma registerUsingTable_preserves:
  assumes T: "uidIdentifiesInstance T" and t: "t \<in> T" and inv: "registriesFrom T b"
  shows "registriesFrom T (stateAfter (registerUsingTable b t))"
proof (cases "sealed t \<and> aliasToTableUniqueId b (tu_alias t) \<in> {None, Some (uid t)}")
  case False
  then have "stateAfter (registerUsingTable b t) = b"
    by (auto simp: registerUsingTable_def Let_def tableAlias_def uniqueIdentity_def split: option.splits)
  with inv show ?thesis by simp
next
  case True
  let ?al = "tu_alias t" and ?u = "uid t"
  let ?b' = "b\<lparr>aliasToTableUniqueId := (aliasToTableUniqueId b)(?al \<mapsto> ?u),
               tableUniqueIdToAlias := (tableUniqueIdToAlias b)(?u \<mapsto> ?al)\<rparr>"
  from True have st: "stateAfter (registerUsingTable b t) = ?b'"
    by (auto simp: registerUsingTable_def Let_def tableAlias_def uniqueIdentity_def split: option.splits)
  from inv have mi: "\<And>a u. aliasToTableUniqueId b a = Some u \<longleftrightarrow> tableUniqueIdToAlias b u = Some a"
    and src: "\<And>u a. tableUniqueIdToAlias b u = Some a \<Longrightarrow> \<exists>t \<in> T. uid t = u \<and> tu_alias t = a"
    by (auto simp: registriesFrom_def mutuallyInverse_def)
  have u_fresh: "a = ?al" if "tableUniqueIdToAlias b ?u = Some a" for a
  proof -
    from src [OF that] obtain t' where "t' \<in> T" "uid t' = ?u" "tu_alias t' = a" by blast
    with T t show ?thesis unfolding uidIdentifiesInstance_def by metis
  qed
  have al_fresh: "u = ?u" if "aliasToTableUniqueId b ?al = Some u" for u
    using True that by auto
  have "mutuallyInverse ?b'"
    unfolding mutuallyInverse_def
  proof (intro allI)
    fix a u
    show "aliasToTableUniqueId ?b' a = Some u \<longleftrightarrow> tableUniqueIdToAlias ?b' u = Some a"
    proof (cases "a = ?al"; cases "u = ?u")
      assume "a = ?al" "u = ?u" then show ?thesis by simp
    next
      assume a: "a = ?al" and u: "u \<noteq> ?u"
      have "tableUniqueIdToAlias b u \<noteq> Some ?al" using al_fresh mi u by blast
      with a u show ?thesis by simp
    next
      assume a: "a \<noteq> ?al" and u: "u = ?u"
      have "aliasToTableUniqueId b a \<noteq> Some ?u" using u_fresh mi a by blast
      with a u show ?thesis by auto
    next
      assume "a \<noteq> ?al" "u \<noteq> ?u" then show ?thesis using mi by simp
    qed
  qed
  moreover have "\<exists>t \<in> T. uid t = u \<and> tu_alias t = a" if "tableUniqueIdToAlias ?b' u = Some a" for u a
    using that t src by (cases "u = ?u") auto
  ultimately show ?thesis unfolding st registriesFrom_def by blast
qed

lemma registerAll_preserves:
  "uidIdentifiesInstance T \<Longrightarrow> set ts \<subseteq> T \<Longrightarrow> registriesFrom T b \<Longrightarrow>
   registriesFrom T (stateAfter (registerAll b ts))"
proof (induction ts arbitrary: b)
  case Nil
  then show ?case by simp
next
  case (Cons t ts)
  from Cons.prems have step: "registriesFrom T (stateAfter (registerUsingTable b t))"
    by (simp add: registerUsingTable_preserves)
  show ?case
  proof (cases "registerUsingTable b t")
    case (Returned b')
    with step Cons.IH [of b'] Cons.prems show ?thesis by simp
  next
    case (Panicked e b')
    with step show ?thesis by simp
  qed
qed

lemma joinPairs_preserves:
  "uidIdentifiesInstance T \<Longrightarrow> set (map gc_table ps) \<subseteq> T \<Longrightarrow> registriesFrom T b \<Longrightarrow>
   registriesFrom T (stateAfter (joinPairs b n ps))"
proof (induction b n ps rule: joinPairs.induct)
  case (1 b n left right onKeyPairs)
  have l: "registriesFrom T (stateAfter (registerUsingTable b (gc_table left)))"
    using "1.prems" by (simp add: registerUsingTable_preserves)
  show ?case
  proof (cases "tableName (gc_table left) = tableName (gc_table right)
      \<or> (tableName (gc_table left) \<noteq> n \<and> tableName (gc_table right) \<noteq> n)")
    case True
    with "1.prems" show ?thesis by (auto simp: Let_def)
  next
    case False
    show ?thesis
    proof (cases "registerUsingTable b (gc_table left)")
      case (Panicked e b')
      with l False show ?thesis by (auto simp: Let_def)
    next
      case (Returned b')
      with l have l': "registriesFrom T b'" by simp
      then have r: "registriesFrom T (stateAfter (registerUsingTable b' (gc_table right)))"
        using "1.prems" by (simp add: registerUsingTable_preserves)
      show ?thesis
      proof (cases "registerUsingTable b' (gc_table right)")
        case (Panicked e b'')
        with r Returned False show ?thesis by (auto simp: Let_def)
      next
        case R2: (Returned b'')
        with r have "registriesFrom T b''" by simp
        with "1.IH" [OF refl refl _ _ Returned R2] False "1.prems" Returned R2
        show ?thesis by (auto simp: Let_def)
      qed
    qed
  qed
qed simp_all


lemma stateAfter_defer [simp]:
  "stateAfter (deferSetPreviousAction a out) = setPreviousAction a (stateAfter out)"
  by (cases out) simp_all

lemma registriesFrom_setPreviousAction [simp]:
  "registriesFrom T (setPreviousAction a b) = registriesFrom T b"
  by (simp add: registriesFrom_def mutuallyInverse_def setPreviousAction_def)

lemma registriesFrom_after_case:
  assumes "registriesFrom T (stateAfter out)"
    and "\<And>b'. aliasToTableUniqueId (f b') = aliasToTableUniqueId b'"
    and "\<And>b'. tableUniqueIdToAlias (f b') = tableUniqueIdToAlias b'"
  shows "registriesFrom T (stateAfter (case out of Panicked e b' \<Rightarrow> Panicked e b' | Returned b' \<Rightarrow> Returned (f b')))"
  using assms by (cases out) (simp_all add: registriesFrom_def mutuallyInverse_def)

lemma applyCall_preserves:
  assumes T: "uidIdentifiesInstance T" and ts: "set (callTables c) \<subseteq> T" and inv: "registriesFrom T b"
  shows "registriesFrom T (stateAfter (applyCall c b))"
proof (cases c)
  case (CallSelect columns)
  have "registriesFrom T (stateAfter (registerAll b (map gc_table columns)))"
    using T ts inv CallSelect by (simp add: registerAll_preserves)
  then have "registriesFrom T (stateAfter (case registerAll b (map gc_table columns) of
      Panicked e b' \<Rightarrow> Panicked e b'
    | Returned b' \<Rightarrow> Returned (b'\<lparr>selectColumns := selectColumns b' @ columns\<rparr>)))"
    by (rule registriesFrom_after_case) simp_all
  with inv CallSelect show ?thesis
    by (simp add: SqlBuilder_Select_def split: option.splits)
next
  case (CallFrom tables)
  have "registriesFrom T (stateAfter (registerAll b tables))"
    using T ts inv CallFrom by (simp add: registerAll_preserves)
  then have "registriesFrom T (stateAfter (case registerAll b tables of
      Panicked e b' \<Rightarrow> Panicked e b'
    | Returned b' \<Rightarrow> Returned (b'\<lparr>selectFromTable := tables\<rparr>)))"
    by (rule registriesFrom_after_case) simp_all
  with inv CallFrom show ?thesis
    by (simp add: From_def split: option.splits)
next
  case (CallJoin jt t onKeyPairs)
  have "registriesFrom T (stateAfter (joinPairs b (tableName t) onKeyPairs))"
    using T ts inv CallJoin by (simp add: joinPairs_preserves)
  then have "registriesFrom T (stateAfter (case joinPairs b (tableName t) onKeyPairs of
      Panicked e b' \<Rightarrow> Panicked e b'
    | Returned b' \<Rightarrow> Returned (b'\<lparr>joinsOn := joinsOn b' @
          [\<lparr>joinType = jt, joinOnTable = t, joinOnColumns = onKeyPairs\<rparr>]\<rparr>)))"
    by (rule registriesFrom_after_case) simp_all
  with inv CallJoin show ?thesis
    by (simp add: Join_def split: option.splits)
qed (use inv in \<open>auto simp: method_defs registriesFrom_def mutuallyInverse_def setPreviousAction_def
      split: option.splits sqlBuilderType.splits\<close>)

lemma registriesFrom_new:
  "aliasToTableUniqueId b = Map.empty \<Longrightarrow> tableUniqueIdToAlias b = Map.empty \<Longrightarrow> registriesFrom T b"
  by (simp add: registriesFrom_def mutuallyInverse_def)

lemma builders_registriesFrom:
  assumes T: "uidIdentifiesInstance T" and b: "b \<in> builders sqlKeywords T"
  shows "registriesFrom T b"
  using b
proof (induction rule: builders.induct)
  case (fromSelect columns b)
  have "registriesFrom T (stateAfter (applyCall (CallSelect columns)
      (newSqlBuilder\<lparr>b_type := sqlBuilderTypeSelect, selectType := selectTypeBasic,
                      previousAction := previousIsSelect\<rparr>)))"
    using T fromSelect(2) by (intro applyCall_preserves registriesFrom_new) (simp_all add: newSqlBuilder_def)
  with fromSelect(1) show ?case by (simp add: Select_def)
next
  case (fromSelectExists b)
  have "registriesFrom T (stateAfter (applyCall (CallSelect [])
      (newSqlBuilder\<lparr>b_type := sqlBuilderTypeSelect, selectType := selectTypeBasic,
                      previousAction := previousIsSelect\<rparr>)))"
    using T by (intro applyCall_preserves registriesFrom_new) (simp_all add: newSqlBuilder_def)
  then have "registriesFrom T (stateAfter (Select []))" by (simp add: Select_def)
  with fromSelectExists show ?case
    by (auto simp: SelectExists_def registriesFrom_def mutuallyInverse_def split: outcome.splits)
next
  case (fromSelectCount b)
  have "registriesFrom T (stateAfter (applyCall (CallSelect [])
      (newSqlBuilder\<lparr>b_type := sqlBuilderTypeSelect, selectType := selectTypeBasic,
                      previousAction := previousIsSelect\<rparr>)))"
    using T by (intro applyCall_preserves registriesFrom_new) (simp_all add: newSqlBuilder_def)
  then have "registriesFrom T (stateAfter (Select []))" by (simp add: Select_def)
  with fromSelectCount show ?case
    by (auto simp: SelectCount_def registriesFrom_def mutuallyInverse_def split: outcome.splits)
next
  case (fromInsertInto use columns b)
  from fromInsertInto(1) obtain cols b1 where
    r: "registerUsingTable (newSqlBuilder\<lparr>b_type := sqlBuilderTypeInsert, insertColumns := cols\<rparr>) use = Returned b1"
    and b: "b = setPreviousAction previousIsInsertInto (b1\<lparr>insertIntoTable := Some use\<rparr>)"
    by (auto simp: InsertInto_def Let_def split: sum.splits outcome.splits if_splits)
  have "registriesFrom T (stateAfter (registerUsingTable
      (newSqlBuilder\<lparr>b_type := sqlBuilderTypeInsert, insertColumns := cols\<rparr>) use))"
    using T fromInsertInto(2)
    by (intro registerUsingTable_preserves registriesFrom_new) (simp_all add: newSqlBuilder_def)
  with r have "registriesFrom T b1" by simp
  then show ?case unfolding b by (simp add: registriesFrom_def mutuallyInverse_def setPreviousAction_def)
next
  case (afterCall b c)
  with T show ?case by (simp add: applyCall_preserves)
qed

text \<open>
  C3. Registering a sealed table whose alias is bound to another unique id panics and
  changes nothing; registering a table that is already registered under its alias returns
  the unchanged builder; and in every builder a caller can hold, the registries
  alias-to-id and id-to-alias are mutually inverse, the unique id identifying the table
  instance.
\<close>

theorem alias_registry:
  "(sealed t \<and> aliasToTableUniqueId b (tu_alias t) = Some u \<and> u \<noteq> uid t \<longrightarrow>
      registerUsingTable b t = Panicked AliasAlreadyUsed b)
   \<and> (sealed t \<and> mutuallyInverse b \<and> aliasToTableUniqueId b (tu_alias t) = Some (uid t) \<longrightarrow>
      registerUsingTable b t = Returned b)
   \<and> (uidIdentifiesInstance T \<and> b' \<in> builders sqlKeywords T \<longrightarrow> mutuallyInverse b')"
proof -
  have 1: "registerUsingTable b t = Panicked AliasAlreadyUsed b"
    if "sealed t" "aliasToTableUniqueId b (tu_alias t) = Some u" "u \<noteq> uid t"
    using that by (simp add: registerUsingTable_def Let_def tableAlias_def uniqueIdentity_def)
  have 2: "registerUsingTable b t = Returned b"
    if s: "sealed t" and mi: "mutuallyInverse b" and a: "aliasToTableUniqueId b (tu_alias t) = Some (uid t)"
  proof -
    from mi a have u: "tableUniqueIdToAlias b (uid t) = Some (tu_alias t)"
      by (simp add: mutuallyInverse_def)
    have "(aliasToTableUniqueId b)(tu_alias t \<mapsto> uid t) = aliasToTableUniqueId b"
      using a by (rule map_upd_triv)
    moreover have "(tableUniqueIdToAlias b)(uid t \<mapsto> tu_alias t) = tableUniqueIdToAlias b"
      using u by (rule map_upd_triv)
    ultimately show ?thesis
      using s a by (simp add: registerUsingTable_def Let_def tableAlias_def uniqueIdentity_def)
  qed
  have 3: "mutuallyInverse b'" if "uidIdentifiesInstance T" "b' \<in> builders sqlKeywords T"
    using builders_registriesFrom [OF that] by (simp add: registriesFrom_def)
  from 1 2 3 show ?thesis by blast
qed

theorem alias_registry_witness:
  "sealed tableB \<and> aliasToTableUniqueId selectedA (tu_alias tableB) = Some 1 \<and> 1 \<noteq> uid tableB
   \<and> registerUsingTable selectedA tableB = Panicked AliasAlreadyUsed selectedA
   \<and> sealed tableA \<and> mutuallyInverse selectedA
   \<and> aliasToTableUniqueId selectedA (tu_alias tableA) = Some (uid tableA)
   \<and> registerUsingTable selectedA tableA = Returned selectedA
   \<and> uidIdentifiesInstance {tableA, tableB} \<and> selectedA \<in> builders initSqlKeywords {tableA, tableB}"
proof -
  have h1: "sealed tableB \<and> aliasToTableUniqueId selectedA (tu_alias tableB) = Some 1 \<and> 1 \<noteq> uid tableB"
    by (simp add: selectedA_eq tableB_def)
  have h2: "sealed tableA \<and> aliasToTableUniqueId selectedA (tu_alias tableA) = Some (uid tableA)"
    by (simp add: selectedA_eq tableA_def)
  have h3: "uidIdentifiesInstance {tableA, tableB}"
    by (simp add: uidIdentifiesInstance_def tableA_def tableB_def)
  have "Select [colA] = Returned selectedA"
    by (simp add: selectedA_def eval_defs colA_def tableA_def)
  then have h4: "selectedA \<in> builders initSqlKeywords {tableA, tableB}"
    by (rule builders.fromSelect) (simp add: colA_def)
  from alias_registry [of tableB selectedA 1 "{tableA, tableB}" selectedA initSqlKeywords]
    alias_registry [of tableA selectedA 1 "{tableA, tableB}" selectedA initSqlKeywords] h1 h2 h3 h4
  show ?thesis by simp
qed

subsection \<open>SELECT EXISTS and SELECT COUNT\<close>

lemma registerUsingTable_only_registries:
  "\<exists>m1 m2. stateAfter (registerUsingTable b t) = b\<lparr>aliasToTableUniqueId := m1, tableUniqueIdToAlias := m2\<rparr>"
proof (cases "registerUsingTable b t")
  case (Returned b')
  then show ?thesis
    by (auto simp: registerUsingTable_def Let_def split: if_splits option.splits)
next
  case (Panicked e b')
  then have "b' = b"
    by (auto simp: registerUsingTable_def Let_def split: if_splits option.splits)
  then have "stateAfter (registerUsingTable b t)
      = b\<lparr>aliasToTableUniqueId := aliasToTableUniqueId b, tableUniqueIdToAlias := tableUniqueIdToAlias b\<rparr>"
    using Panicked by simp
  then show ?thesis by blast
qed

lemma registerAll_only_registries:
  "\<exists>m1 m2. stateAfter (registerAll b ts) = b\<lparr>aliasToTableUniqueId := m1, tableUniqueIdToAlias := m2\<rparr>"
proof (induction ts arbitrary: b)
  case Nil
  have "b = b\<lparr>aliasToTableUniqueId := aliasToTableUniqueId b, tableUniqueIdToAlias := tableUniqueIdToAlias b\<rparr>"
    by simp
  then show ?case by (metis registerAll.simps(1) stateAfter.simps(1))
next
  case (Cons t ts)
  from registerUsingTable_only_registries [of b t] obtain m1 m2 where
    s: "stateAfter (registerUsingTable b t) = b\<lparr>aliasToTableUniqueId := m1, tableUniqueIdToAlias := m2\<rparr>"
    by blast
  show ?case
  proof (cases "registerUsingTable b t")
    case (Panicked e b')
    with s show ?thesis by auto
  next
    case (Returned b')
    from Cons.IH [of b'] obtain n1 n2 where
      "stateAfter (registerAll b' ts) = b'\<lparr>aliasToTableUniqueId := n1, tableUniqueIdToAlias := n2\<rparr>"
      by blast
    with s Returned have "stateAfter (registerAll b (t # ts))
      = b\<lparr>aliasToTableUniqueId := n1, tableUniqueIdToAlias := n2\<rparr>" by simp
    then show ?thesis by blast
  qed
qed

lemma joinPairs_only_registries:
  "\<exists>m1 m2. stateAfter (joinPairs b n ps) = b\<lparr>aliasToTableUniqueId := m1, tableUniqueIdToAlias := m2\<rparr>"
proof (induction b n ps rule: joinPairs.induct)
  case (1 b n left right onKeyPairs)
  have triv: "b = b\<lparr>aliasToTableUniqueId := aliasToTableUniqueId b, tableUniqueIdToAlias := tableUniqueIdToAlias b\<rparr>"
    by simp
  from registerUsingTable_only_registries [of b "gc_table left"] obtain m1 m2 where
    l: "stateAfter (registerUsingTable b (gc_table left)) = b\<lparr>aliasToTableUniqueId := m1, tableUniqueIdToAlias := m2\<rparr>"
    by blast
  show ?case
  proof (cases "tableName (gc_table left) = tableName (gc_table right)
      \<or> (tableName (gc_table left) \<noteq> n \<and> tableName (gc_table right) \<noteq> n)")
    case True
    then have "stateAfter (joinPairs b n (left # right # onKeyPairs)) = b" by (auto simp: Let_def)
    with triv show ?thesis by metis
  next
    case False
    show ?thesis
    proof (cases "registerUsingTable b (gc_table left)")
      case (Panicked e b')
      with l False show ?thesis by (auto simp: Let_def)
    next
      case (Returned b')
      from registerUsingTable_only_registries [of b' "gc_table right"] obtain n1 n2 where
        r: "stateAfter (registerUsingTable b' (gc_table right))
              = b'\<lparr>aliasToTableUniqueId := n1, tableUniqueIdToAlias := n2\<rparr>"
        by blast
      show ?thesis
      proof (cases "registerUsingTable b' (gc_table right)")
        case (Panicked e b'')
        with l r Returned False have "stateAfter (joinPairs b n (left # right # onKeyPairs))
            = b\<lparr>aliasToTableUniqueId := n1, tableUniqueIdToAlias := n2\<rparr>" by (auto simp: Let_def)
        then show ?thesis by blast
      next
        case R2: (Returned b'')
        from "1.IH" [OF refl refl _ _ Returned R2] False obtain k1 k2 where
          "stateAfter (joinPairs b'' n onKeyPairs) = b''\<lparr>aliasToTableUniqueId := k1, tableUniqueIdToAlias := k2\<rparr>"
          by blast
        with l r Returned R2 False have "stateAfter (joinPairs b n (left # right # onKeyPairs))
            = b\<lparr>aliasToTableUniqueId := k1, tableUniqueIdToAlias := k2\<rparr>" by (auto simp: Let_def)
        then show ?thesis by blast
      qed
    qed
  qed
next
  case (2 b n left)
  have "b = b\<lparr>aliasToTableUniqueId := aliasToTableUniqueId b, tableUniqueIdToAlias := tableUniqueIdToAlias b\<rparr>"
    by simp
  then show ?case by (metis joinPairs.simps(2) stateAfter.simps(2))
next
  case (3 b n)
  have "b = b\<lparr>aliasToTableUniqueId := aliasToTableUniqueId b, tableUniqueIdToAlias := tableUniqueIdToAlias b\<rparr>"
    by simp
  then show ?case by (metis joinPairs.simps(3) stateAfter.simps(1))
qed

lemma basicOnly_aborts:
  "basicOnlyCall c \<Longrightarrow> b_type b \<noteq> sqlBuilderTypeSelect \<or> selectType b \<noteq> selectTypeBasic \<Longrightarrow>
   \<exists>e. applyCall c b = Panicked e b"
  by (cases c) (auto simp: basicOnlyCall_def method_defs check_defs)

lemma applyCall_keeps_existsOrCount:
  assumes "existsOrCount b" "carriesNothingBasic b"
  shows "existsOrCount (stateAfter (applyCall c b)) \<and> carriesNothingBasic (stateAfter (applyCall c b))"
proof (cases c)
  case (CallFrom tables)
  from registerAll_only_registries [of b tables] obtain m1 m2 where
    "stateAfter (registerAll b tables) = b\<lparr>aliasToTableUniqueId := m1, tableUniqueIdToAlias := m2\<rparr>" by blast
  with assms CallFrom show ?thesis
    by (cases "registerAll b tables")
      (auto simp: From_def check_defs existsOrCount_def carriesNothingBasic_def setPreviousAction_def)
next
  case (CallJoin jt t ps)
  from joinPairs_only_registries [of b "tableName t" ps] obtain m1 m2 where
    "stateAfter (joinPairs b (tableName t) ps) = b\<lparr>aliasToTableUniqueId := m1, tableUniqueIdToAlias := m2\<rparr>"
    by blast
  with assms CallJoin show ?thesis
    by (cases "joinPairs b (tableName t) ps")
      (auto simp: Join_def check_defs existsOrCount_def carriesNothingBasic_def setPreviousAction_def)
qed (use assms in \<open>auto simp: method_defs check_defs existsOrCount_def carriesNothingBasic_def
      setPreviousAction_def\<close>)

lemma SelectExists_eq:
  "SelectExists = Returned (newSqlBuilder\<lparr>b_type := sqlBuilderTypeSelect, selectType := selectTypeExists,
      previousAction := previousIsSelect\<rparr>)"
  by (simp add: SelectExists_def Select_def SqlBuilder_Select_def check_defs newSqlBuilder_def
      setPreviousAction_def)

lemma SelectCount_eq:
  "SelectCount = Returned (newSqlBuilder\<lparr>b_type := sqlBuilderTypeSelect, selectType := selectTypeCount,
      previousAction := previousIsSelect\<rparr>)"
  by (simp add: SelectCount_def Select_def SqlBuilder_Select_def check_defs newSqlBuilder_def
      setPreviousAction_def)

lemma descendants_existsOrCount:
  "b \<in> descendants b0 \<Longrightarrow> existsOrCount b0 \<Longrightarrow> carriesNothingBasic b0 \<Longrightarrow>
   existsOrCount b \<and> carriesNothingBasic b"
  by (induction rule: descendants.induct) (simp_all add: applyCall_keeps_existsOrCount)

text \<open>
  C10. On a SELECT EXISTS or SELECT COUNT builder the calls \<open>Select\<close>, \<open>OrderBy\<close>,
  \<open>ThenBy\<close>, \<open>Offset\<close> and \<open>Limit\<close> panic in every state; where one of them returns,
  the builder is a basic SELECT; and no state such a builder can get into carries a column
  list, an ordering, an offset or a limit.
\<close>

theorem exists_count_basic_only:
  "(basicOnlyCall c \<and> (selectType b = selectTypeExists \<or> selectType b = selectTypeCount) \<longrightarrow>
      (\<exists>e. applyCall c b = Panicked e b))
   \<and> (basicOnlyCall c \<and> applyCall c b = Returned b' \<longrightarrow>
      b_type b = sqlBuilderTypeSelect \<and> selectType b = selectTypeBasic)
   \<and> (d \<in> descendants (stateAfter SelectExists) \<union> descendants (stateAfter SelectCount) \<longrightarrow>
      (selectType d = selectTypeExists \<or> selectType d = selectTypeCount) \<and>
      selectColumns d = [] \<and> orders d = [] \<and> offset d = 0 \<and> limit d = 0)"
proof -
  have 1: "\<exists>e. applyCall c b = Panicked e b"
    if "basicOnlyCall c" "selectType b = selectTypeExists \<or> selectType b = selectTypeCount"
    using that basicOnly_aborts [of c b] by auto
  have 2: "b_type b = sqlBuilderTypeSelect \<and> selectType b = selectTypeBasic"
    if "basicOnlyCall c" "applyCall c b = Returned b'"
    using that basicOnly_aborts [of c b] by auto
  have e: "existsOrCount (stateAfter SelectExists)" "carriesNothingBasic (stateAfter SelectExists)"
    "existsOrCount (stateAfter SelectCount)" "carriesNothingBasic (stateAfter SelectCount)"
    by (simp_all add: SelectExists_eq SelectCount_eq existsOrCount_def carriesNothingBasic_def newSqlBuilder_def)
  have 3: "(selectType d = selectTypeExists \<or> selectType d = selectTypeCount) \<and>
      selectColumns d = [] \<and> orders d = [] \<and> offset d = 0 \<and> limit d = 0"
    if "d \<in> descendants (stateAfter SelectExists) \<union> descendants (stateAfter SelectCount)"
    using that e descendants_existsOrCount [of d "stateAfter SelectExists"]
      descendants_existsOrCount [of d "stateAfter SelectCount"]
    by (auto simp: existsOrCount_def carriesNothingBasic_def)
  from 1 2 3 show ?thesis by blast
qed

theorem exists_count_basic_only_witness:
  "basicOnlyCall (CallOffset 5 :: (nat, nat) call) \<and> selectType existsFromA = selectTypeExists
   \<and> previousAction existsFromA \<in> set (allowedPredecessors (b_type existsFromA) (CallOffset 5 :: (nat, nat) call))
   \<and> applyCall (CallOffset 5) existsFromA = Panicked OnlySelectTypeSupported existsFromA
   \<and> applyCall (CallOffset 5) fromA = Returned (stateAfter (applyCall (CallOffset 5) fromA))
   \<and> selectType fromA = selectTypeBasic
   \<and> existsFromA \<in> descendants (stateAfter SelectExists)
   \<and> selectColumns existsFromA = [] \<and> orders existsFromA = [] \<and> offset existsFromA = 0 \<and> limit existsFromA = 0"
proof -
  have h1: "basicOnlyCall (CallOffset 5 :: (nat, nat) call)" by (simp add: basicOnlyCall_def)
  have h2: "selectType existsFromA = selectTypeExists" by (simp add: existsFromA_eq)
  have h3: "applyCall (CallOffset 5) fromA = Returned (stateAfter (applyCall (CallOffset 5) fromA))"
    by (simp add: fromA_eq selectedA_eq eval_defs)
  have "stateAfter (applyCall (CallFrom [tableA]) (stateAfter SelectExists)) \<in> descendants (stateAfter SelectExists)"
    by (intro descendants.afterCall descendants.itself)
  then have h4: "existsFromA \<in> descendants (stateAfter SelectExists)"
    by (simp add: existsFromA_def)
  have h5: "previousAction existsFromA \<in> set (allowedPredecessors (b_type existsFromA) (CallOffset 5 :: (nat, nat) call))"
    by (simp add: existsFromA_eq)
  have h6: "applyCall (CallOffset 5) existsFromA = Panicked OnlySelectTypeSupported existsFromA"
    by (simp add: existsFromA_eq eval_defs)
  from exists_count_basic_only [of "CallOffset 5" existsFromA _ existsFromA]
    exists_count_basic_only [of "CallOffset 5" fromA "stateAfter (applyCall (CallOffset 5) fromA)" existsFromA]
    h1 h2 h3 h4 h5 h6
  show ?thesis by simp
qed

section \<open>Rendering\<close>

lemma separatedText_Cons:
  "separatedText sep f (x # xs) = f x @ (if xs = [] then [] else sep @ separatedText sep f xs)"
  by (cases xs) simp_all

lemma writeSeparated_eq:
  "writeSeparated sep f xs i sb =
     sb @ (if xs = [] then [] else (if i > 0 then sep else []) @ separatedText sep f xs)"
proof (induction xs arbitrary: i sb)
  case Nil
  then show ?case by simp
next
  case (Cons x xs)
  show ?case by (simp add: Cons.IH separatedText_Cons)
qed

lemma writeSeparated_0: "writeSeparated sep f xs 0 sb = sb @ separatedText sep f xs"
  by (simp add: writeSeparated_eq)

lemma writeTokens_eq:
  "writeTokens columnText tokens sb =
     (if OtherToken \<in> set tokens then Inl UnexpectedTokenType
      else Inr (sb @ tokensText columnText tokens))"
proof (induction tokens arbitrary: sb)
  case Nil
  then show ?case by (simp add: tokensText_def)
next
  case (Cons token tokens)
  show ?case
    by (cases token) (simp_all add: Cons.IH tokensText_def tokenText_def)
qed

lemma writePlaceholders_eq:
  "1 \<le> p \<Longrightarrow> writePlaceholders vi p c sb =
     sb @ (if p \<le> c then (if p > 1 then '','' else []) @ separatedText '','' (\<lambda>i. ''$'' @ decimalNat (vi + i)) [p..<Suc c]
           else [])"
proof (induction vi p c sb rule: writePlaceholders.induct)
  case (1 vi p c sb)
  show ?case
  proof (cases "p \<le> c")
    case False
    then show ?thesis by (simp add: writePlaceholders.simps)
  next
    case True
    then have up: "[p..<Suc c] = p # [Suc p..<Suc c]" by (simp add: upt_conv_Cons)
    define sb1 where "sb1 = (if p > 1 then sb @ '','' else sb) @ ''$'' @ decimalNat (vi + p)"
    have ih: "writePlaceholders vi (p + 1) c sb1 =
      sb1 @ (if p + 1 \<le> c then '','' @ separatedText '','' (\<lambda>i. ''$'' @ decimalNat (vi + i)) [p + 1..<Suc c] else [])"
      using "1.IH" [OF True] "1.prems" unfolding sb1_def by simp
    have "writePlaceholders vi p c sb = writePlaceholders vi (p + 1) c sb1"
      using True unfolding sb1_def by (subst writePlaceholders.simps) simp
    also note ih
    finally show ?thesis
      using True unfolding sb1_def up by (simp del: upt_Suc add: separatedText_Cons)
  qed
qed

lemma writePlaceholders_row:
  "writePlaceholders (r * c) 1 c (sb @ ''('') @ '')'' = sb @ placeholderRow c r"
  by (cases "1 \<le> c") (simp_all del: upt_Suc add: writePlaceholders_eq placeholderRow_def)

lemma insertSpecsLoop_eq:
  assumes "resolvedColumns sqlKeywords t ns metas"
  shows "insertSpecsLoop sqlKeywords t ns = Inr (map insertSpec metas)"
  using assms unfolding resolvedColumns_def
  by (induction rule: list_all2_induct) simp_all

lemma appendExtracted_eq:
  "appendExtracted (map (\<lambda>spec a. case assertType t a of Inl e \<Rightarrow> Inl e | Inr r \<Rightarrow> Inr (spec r)) specs)
     (StructValue (tm_typeName t) r) values = Inr (values @ map (\<lambda>spec. spec r) specs)"
  by (induction specs arbitrary: "values") (simp_all add: assertType_def)

lemma appendExtracted_row:
  assumes "resolvedColumns sqlKeywords t names metas" "names \<noteq> []"
  shows "\<exists>isfs. insertSpecOfColumns sqlKeywords t names = Inr isfs
     \<and> appendExtracted isfs (StructValue (tm_typeName t) r) values = Inr (values @ extractedRow metas r)"
proof -
  have "insertSpecOfColumns sqlKeywords t names =
      Inr (map (\<lambda>spec a. case assertType t a of Inl e \<Rightarrow> Inl e | Inr r \<Rightarrow> Inr (spec r)) (map insertSpec metas))"
    using assms by (simp add: insertSpecOfColumns_def insertSpecsLoop_eq del: map_map)
  moreover have "appendExtracted
      (map (\<lambda>spec a. case assertType t a of Inl e \<Rightarrow> Inl e | Inr r \<Rightarrow> Inr (spec r)) (map insertSpec metas))
      (StructValue (tm_typeName t) r) values = Inr (values @ extractedRow metas r)"
    unfolding appendExtracted_eq by (simp add: extractedRow_def o_def)
  ultimately show ?thesis by blast
qed

lemma writeRows_eq:
  assumes res: "resolvedColumns sqlKeywords t names metas" and ne: "names \<noteq> []"
  shows "writeRows sqlKeywords t names c (map (StructValue (tm_typeName t)) recs) i sb values =
     Inr (sb @ (if recs = [] then [] else (if i > 0 then '','' else []) @
                  separatedText '','' (placeholderRow c) [i..<i + length recs]),
          values @ concat (map (extractedRow metas) recs))"
proof (induction recs arbitrary: i sb "values")
  case Nil
  then show ?case by simp
next
  case (Cons r recs)
  from appendExtracted_row [OF res ne, of r "values"] obtain isfs where
    isfs: "insertSpecOfColumns sqlKeywords t names = Inr isfs"
    and ex: "appendExtracted isfs (StructValue (tm_typeName t) r) values = Inr (values @ extractedRow metas r)"
    by blast
  have up: "[i..<i + length (r # recs)] = i # [Suc i..<Suc i + length recs]"
    by (simp add: upt_conv_Cons del: upt_Suc)
  have row: "writePlaceholders (i * c) 1 c ((if i > 0 then sb @ '','' else sb) @ ''('') @ '')''
      = (if i > 0 then sb @ '','' else sb) @ placeholderRow c i"
    by (rule writePlaceholders_row)
  have step: "writeRows sqlKeywords t names c (StructValue (tm_typeName t) r # map (StructValue (tm_typeName t)) recs)
        i sb values =
      writeRows sqlKeywords t names c (map (StructValue (tm_typeName t)) recs) (Suc i)
        ((if i > 0 then sb @ '','' else sb) @ placeholderRow c i) (values @ extractedRow metas r)"
    by (simp only: writeRows.simps Let_def isfs ex row sum.case)
  show ?case
    unfolding up list.map step Cons.IH
    by (simp del: upt_Suc add: separatedText_Cons)
qed

lemma writeOnConflict_eq:
  "conflictRenders b \<Longrightarrow> writeOnConflict b sb = Inr (sb @ conflictText b)"
  by (auto simp: conflictRenders_def writeOnConflict_def conflictText_def writeTokens_eq writeSeparated_0)

lemma nth_concat_uniform:
  "\<forall>xs \<in> set xss. length xs = c \<Longrightarrow> r < length xss \<Longrightarrow> i < c \<Longrightarrow>
   concat xss ! (r * c + i) = xss ! r ! i"
proof (induction xss arbitrary: r)
  case Nil
  then show ?case by simp
next
  case (Cons xs xss)
  show ?case
  proof (cases r)
    case 0
    with Cons.prems show ?thesis by (simp add: nth_append)
  next
    case (Suc r')
    with Cons.prems have "concat xss ! (r' * c + i) = xss ! r' ! i"
      by (intro Cons.IH) simp_all
    moreover have "length xs = c" using Cons.prems by simp
    ultimately show ?thesis using Suc by (simp add: nth_append)
  qed
qed

lemma length_concat_uniform:
  "\<forall>xs \<in> set xss. length xs = c \<Longrightarrow> length (concat xss) = length xss * c"
  by (induction xss) simp_all

lemma buildInsert_eq:
  assumes t: "insertIntoTable b = Some t"
    and cols: "insertColumns b \<noteq> []"
    and vals: "insertValues b = map (StructValue (tm_typeName (metadata t))) recs"
    and recs: "recs \<noteq> []"
    and res: "resolvedColumns sqlKeywords (metadata t) (map gc_name (insertColumns b)) metas"
    and conf: "conflictRenders b"
  shows "buildInsert sqlKeywords b =
     Inr (insertHeader t (insertColumns b)
            @ separatedText '','' (placeholderRow (length (insertColumns b))) [0..<length recs]
            @ conflictText b,
          concat (map (extractedRow metas) recs))"
proof -
  have ne: "map gc_name (insertColumns b) \<noteq> []" using cols by simp
  show ?thesis
    using t cols recs
    by (simp add: buildInsert_def vals writeRows_eq [OF res ne] writeOnConflict_eq [OF conf]
        writeSeparated_0 insertHeader_def)
qed

lemma writeWhere_eq:
  "writeWhere b sb =
     (if whereTokens b = [] then Inr sb
      else if OtherToken \<in> set (whereTokens b) then Inl UnexpectedTokenType
      else Inr (sb @ ''WHERE'' @ tokensText nameWithAlias (whereTokens b) @ ''\<newline>''))"
  by (simp add: writeWhere_def writeTokens_eq)

lemma buildSelect_where:
  assumes "selectBuildable b"
    and "writeJoins (joinsOn b) (writeFrom b (writeSelectList b ''SELECT '')) = Inr sb"
    and "whereTokens b \<noteq> []"
  shows "buildSelect b =
     (if OtherToken \<in> set (whereTokens b) then Inl UnexpectedTokenType
      else Inr (finishSelect b (writeOffsetLimit b (writeOrderBy b
                  (sb @ ''WHERE'' @ tokensText nameWithAlias (whereTokens b) @ ''\<newline>''))),
                whereArgs b))"
  using assms
  by (cases "selectType b") (auto simp: buildSelect_def selectBuildable_def writeWhere_eq finishSelect_def Let_def)

lemma buildInsert_conflict:
  assumes "insertColumns b \<noteq> []" and "insertIntoTable b = Some t" and "insertValues b \<noteq> []"
    and "writeRows sqlKeywords (metadata t) (map gc_name (insertColumns b)) (length (insertColumns b))
           (insertValues b) 0
           (writeSeparated '', '' gc_name (insertColumns b) 0 (''INSERT INTO '' @ tableName t @ '' ('')
              @ '')\<newline>VALUES '') [] = Inr (sb, args)"
    and "\<not> insertOnConflictDoNothing b" and "insertOnConflictKeys b \<noteq> []"
  shows "buildInsert sqlKeywords b =
     (if OtherToken \<in> set (insertOnConflictDoUpdateTokens b)
         \<or> OtherToken \<in> set (insertOnConflictDoUpdateWhereTokens b)
      then Inl UnexpectedTokenType
      else Inr (sb @ ''\<newline>ON CONFLICT ('' @ separatedText '', '' gc_name (insertOnConflictKeys b)
                  @ '') DO UPDATE SET\<newline>''
                  @ tokensText gc_name (insertOnConflictDoUpdateTokens b)
                  @ (if insertOnConflictDoUpdateWhereTokens b = [] then []
                     else ''\<newline>WHERE'' @ tokensText tableQualifiedName (insertOnConflictDoUpdateWhereTokens b)),
                args))"
  using assms
  by (auto simp: buildInsert_def writeOnConflict_def writeTokens_eq writeSeparated_0)

lemma writeOffsetLimit_eq: "writeOffsetLimit b sb = sb @ pagingText (offset b) (limit b)"
  by (simp add: writeOffsetLimit_def pagingText_def)

lemma buildSelect_paging:
  assumes "buildSelect (b\<lparr>offset := 0, limit := 0\<rparr>) = Inr (body, args)" and "selectType b = selectTypeBasic"
  shows "buildSelect b = Inr (body @ pagingText (offset b) (limit b), args)"
proof -
  let ?b0 = "b\<lparr>offset := 0, limit := 0\<rparr>"
  have same: "\<And>sb. writeFrom ?b0 sb = writeFrom b sb" "\<And>sb. writeSelectList ?b0 sb = writeSelectList b sb"
    "\<And>sb. writeWhere ?b0 sb = writeWhere b sb" "\<And>sb. writeOrderBy ?b0 sb = writeOrderBy b sb"
    "\<And>sb. writeOffsetLimit ?b0 sb = sb"
    by (simp_all add: writeFrom_def writeSelectList_def writeWhere_def writeOrderBy_def writeOffsetLimit_def)
  from assms show ?thesis
    by (auto simp: buildSelect_def same writeOffsetLimit_eq pagingText_def Let_def split: sum.splits if_splits)
qed

lemmas kw_defs = wrapWithDoubleQuoteIfSqlKeyword_def initSqlKeywords_def predefinedList_def doubleQuoted_def

lemma dec_simps: "decimalNat 1 = ''1''" "decimalNat 2 = ''2''" "decimalNat 3 = ''3''" "decimalNat 4 = ''4''"
  "decimalNat 5 = ''5''" "decimalNat 10 = ''10''" "decimalNat 20 = ''20''" "decimalNat 100 = ''100''"
  "decimalNat (Suc 0) = ''1''" "decimalNat (Suc (Suc 0)) = ''2''" "decimalNat (Suc (Suc (Suc 0))) = ''3''"
  "decimalNat (Suc (Suc (Suc (Suc 0)))) = ''4''"
  by (simp_all add: decimalNat.simps digitChar_def)

lemma whereA_eq: "whereA = fromA\<lparr>previousAction := previousIsSelectWhere,
    whereTokens := [ColumnToken colA, StringToken (CHR 0xC2 # CHR 0xA0 # ''= ''), IntToken 2,
      StringToken (''AND '' @ [CHR 0xE3, CHR 0x80, CHR 0x80]), BoolToken True]\<rparr>"
  by (simp add: whereA_def fromA_eq selectedA_eq eval_defs)

lemma pagedA_eq: "pagedA = fromA\<lparr>previousAction := previousIsSelectLimit, offset := 10, limit := 20\<rparr>"
  by (simp add: pagedA_def fromA_eq selectedA_eq eval_defs)

lemma pagedZeroA_eq: "pagedZeroA = fromA\<lparr>previousAction := previousIsSelectLimit, offset := 0, limit := 5\<rparr>"
  by (simp add: pagedZeroA_def fromA_eq selectedA_eq eval_defs)

lemma upsertA_eq: "upsertA = insertA\<lparr>previousAction := previousIsInsertIntoOnConflictDoUpdateWhere,
    insertOnConflictKeys := [colA],
    insertOnConflictDoUpdateTokens := [ColumnToken colName, StringToken ''= 1''],
    insertOnConflictDoUpdateWhereTokens := [ColumnToken colA, StringToken ''<'', IntToken 100]\<rparr>"
  by (simp add: upsertA_def insertA_eq eval_defs colA_def tableA_def)

lemma fromA_body: "writeJoins (joinsOn fromA) (writeFrom fromA (writeSelectList fromA ''SELECT ''))
    = Inr ''SELECT a.id\<newline>FROM t AS a\<newline>''"
  by (simp add: fromA_eq selectedA_eq newSqlBuilder_def writeFrom_def writeSelectList_def nameWithAlias_def
      colA_def tableA_def tableAlias_def tableName_def)


lemma fromA_builds: "buildSelect (pagedA\<lparr>offset := 0, limit := 0\<rparr>) = Inr (''SELECT a.id\<newline>FROM t AS a\<newline>'', [])"
  by (simp add: pagedA_eq fromA_eq selectedA_eq eval_defs buildSelect_def writeFrom_def writeSelectList_def
      writeWhere_def writeOrderBy_def writeOffsetLimit_def nameWithAlias_def colA_def tableA_def)

lemma upt_examples: "[0..<2] = [0, 1]" "[1..<Suc 2] = [1, 2]"
  by (simp_all add: upt_rec)

lemma insertA_resolved:
  "resolvedColumns initSqlKeywords (metadata tableA) (map gc_name (insertColumns insertA))
     [idColumn, nameColumn\<lparr>cm_name := doubleQuoted ''name''\<rparr>]"
  by (simp add: resolvedColumns_def insertA_eq colA_def colName_def tableA_def exampleMetadata_def
      MustGetColumnByName_def kw_defs idColumn_def nameColumn_def)

lemma insertA_rows:
  "writeRows initSqlKeywords (metadata tableA) (map gc_name (insertColumns insertA)) (length (insertColumns insertA))
     (insertValues insertA) 0
     (writeSeparated '', '' gc_name (insertColumns insertA) 0 (''INSERT INTO '' @ tableName tableA @ '' ('')
        @ '')\<newline>VALUES '') []
   = Inr (''INSERT INTO t (id, '' @ doubleQuoted ''name'' @ '')\<newline>VALUES ($1,$2),($3,$4)'', [7, 8, 9, 10])"
proof -
  have v: "insertValues insertA = map (StructValue (tm_typeName (metadata tableA))) [7, 9]"
    by (simp add: insertA_eq tableA_def exampleMetadata_def)
  have ne: "map gc_name (insertColumns insertA) \<noteq> []" by (simp add: insertA_eq)
  show ?thesis
    unfolding v writeRows_eq [OF insertA_resolved ne]
    by (simp add: insertA_eq writeSeparated_0 colA_def colName_def tableA_def tableName_def placeholderRow_def
        upt_examples extractedRow_def idColumn_def nameColumn_def dec_simps doubleQuoted_def)
qed

lemma pointerInsertA_eq: "Values (stateAfter (InsertInto initSqlKeywords tableA [])) [PointerValue ''rec'' 7]
     = Returned pointerInsertA
  \<and> pointerInsertA = insertA\<lparr>insertValues := [PointerValue ''rec'' 7]\<rparr>"
  by (simp add: pointerInsertA_def insertA_eq InsertInto_def Col_def Columns_def MustGetColumnByName_def
      newGenericColumnToUse_def eval_defs tableA_def colA_def colName_def exampleMetadata_def idColumn_def
      nameColumn_def kw_defs)

lemma otherTokenA_eq: "OnConflict insertA [colA] = Returned (stateAfter (OnConflict insertA [colA]))
  \<and> DoUpdate (stateAfter (OnConflict insertA [colA])) [ColumnToken colName, OtherToken] = Returned otherTokenA
  \<and> otherTokenA = insertA\<lparr>previousAction := previousIsInsertIntoOnConflictDoUpdate,
      insertOnConflictKeys := [colA], insertOnConflictDoUpdateTokens := [ColumnToken colName, OtherToken]\<rparr>"
  by (simp add: otherTokenA_def insertA_eq eval_defs colA_def tableA_def)

lemma foreignColumnA_eq: "Values (stateAfter (InsertInto initSqlKeywords tableA [colZip])) [StructValue ''rec'' 7]
     = Returned foreignColumnA
  \<and> foreignColumnA = insertA\<lparr>insertColumns := [colZip], insertValues := [StructValue ''rec'' 7]\<rparr>"
  by (simp add: foreignColumnA_def insertA_eq InsertInto_def eval_defs tableA_def exampleMetadata_def)

text \<open>
  C2 (amended). For an INSERT builder with a target table, at least one insert column that the
  table's metadata resolves, at least one value, each of the table's record type, and a
  conflict clause that renders, \<open>buildInsert\<close> returns; the statement lists, for row
  \<open>r\<close> (from 0) of \<open>c\<close> columns, the placeholders \<open>$(r*c+1)\<close> to \<open>$(r*c+c)\<close> in
  increasing order, and the argument list has length \<open>n*c\<close> with the insert spec of the
  column at index \<open>i\<close> (from 0) applied to the value of row \<open>r\<close> at position \<open>r*c+i\<close>.
\<close>

theorem insert_placeholders_and_arguments:
  assumes "insertIntoTable b = Some t"
    and "insertColumns b \<noteq> []"
    and "insertValues b = map (StructValue (tm_typeName (metadata t))) recs"
    and "recs \<noteq> []"
    and "resolvedColumns sqlKeywords (metadata t) (map gc_name (insertColumns b)) metas"
    and "conflictRenders b"
  shows "\<exists>args. buildInsert sqlKeywords b =
           Inr (insertHeader t (insertColumns b)
                  @ separatedText '','' (placeholderRow (length (insertColumns b))) [0..<length recs]
                  @ conflictText b,
                args)
         \<and> length args = length recs * length (insertColumns b)
         \<and> (\<forall>r < length recs. \<forall>i < length (insertColumns b).
               args ! (r * length (insertColumns b) + i) = insertSpec (metas ! i) (recs ! r))
         \<and> (\<forall>r. placeholderRow (length (insertColumns b)) r =
               ''('' @ separatedText '','' (\<lambda>i. ''$'' @ decimalNat (r * length (insertColumns b) + i))
                         [1..<Suc (length (insertColumns b))] @ '')'')"
proof -
  let ?c = "length (insertColumns b)"
  let ?args = "concat (map (extractedRow metas) recs)"
  have lm: "length metas = ?c"
    using assms(5) by (auto simp: resolvedColumns_def dest: list_all2_lengthD)
  have uni: "\<forall>xs \<in> set (map (extractedRow metas) recs). length xs = ?c"
    by (simp add: extractedRow_def lm)
  have len: "length ?args = length recs * ?c"
    using length_concat_uniform [OF uni] by simp
  have nth: "?args ! (r * ?c + i) = insertSpec (metas ! i) (recs ! r)"
    if "r < length recs" "i < ?c" for r i
    using nth_concat_uniform [OF uni, of r i] that lm by (simp add: extractedRow_def)
  from buildInsert_eq [OF assms] len nth show ?thesis
    by (auto simp: placeholderRow_def)
qed

text \<open>
  Three INSERT builders with at least one value and one column that \<open>Build\<close> does not
  render: \<open>Values\<close> accepts a pointer to a record, and the type assertion of the insert
  spec then panics; a DO UPDATE token of an unsupported kind panics; an insert column of
  another table is not found in the metadata of the target table.
\<close>

theorem insert_placeholders_and_arguments_counterexample:
  "Values (stateAfter (InsertInto initSqlKeywords tableA [])) [PointerValue ''rec'' 7] = Returned pointerInsertA
   \<and> DoUpdate (stateAfter (OnConflict insertA [colA])) [ColumnToken colName, OtherToken] = Returned otherTokenA
   \<and> Values (stateAfter (InsertInto initSqlKeywords tableA [colZip])) [StructValue ''rec'' 7]
        = Returned foreignColumnA
   \<and> length (insertValues pointerInsertA) = 1 \<and> length (insertColumns pointerInsertA) = 2
   \<and> buildInsert initSqlKeywords pointerInsertA = Inl TypeAssertionFailed
   \<and> length (insertValues otherTokenA) = 2 \<and> length (insertColumns otherTokenA) = 2
   \<and> buildInsert initSqlKeywords otherTokenA = Inl UnexpectedTokenType
   \<and> length (insertValues foreignColumnA) = 1 \<and> length (insertColumns foreignColumnA) = 1
   \<and> buildInsert initSqlKeywords foreignColumnA = Inl ColumnNotFound"
proof -
  have 1: "buildInsert initSqlKeywords pointerInsertA = Inl TypeAssertionFailed"
    by (simp add: pointerInsertA_eq insertA_eq newSqlBuilder_def buildInsert_def insertSpecOfColumns_def
        MustGetColumnByName_def tableA_def exampleMetadata_def colA_def colName_def kw_defs Let_def
        idColumn_def nameColumn_def dec_simps assertType_def)
  have 2: "buildInsert initSqlKeywords otherTokenA = Inl UnexpectedTokenType"
    by (simp add: otherTokenA_eq insertA_eq newSqlBuilder_def buildInsert_def insertSpecOfColumns_def
        MustGetColumnByName_def tableA_def exampleMetadata_def colA_def colName_def kw_defs Let_def
        idColumn_def nameColumn_def dec_simps writeOnConflict_def assertType_def)
  have 3: "buildInsert initSqlKeywords foreignColumnA = Inl ColumnNotFound"
    by (simp add: foreignColumnA_eq insertA_eq newSqlBuilder_def buildInsert_def insertSpecOfColumns_def
        MustGetColumnByName_def tableA_def exampleMetadata_def colZip_def kw_defs Let_def
        idColumn_def nameColumn_def dec_simps assertType_def)
  have 4: "length (insertValues pointerInsertA) = 1 \<and> length (insertColumns pointerInsertA) = 2
      \<and> length (insertValues otherTokenA) = 2 \<and> length (insertColumns otherTokenA) = 2
      \<and> length (insertValues foreignColumnA) = 1 \<and> length (insertColumns foreignColumnA) = 1"
    by (simp add: pointerInsertA_eq otherTokenA_eq foreignColumnA_eq insertA_eq)
  from 1 2 3 4 pointerInsertA_eq [THEN conjunct1] otherTokenA_eq [THEN conjunct2, THEN conjunct1]
    foreignColumnA_eq [THEN conjunct1]
  show ?thesis by blast
qed

theorem insert_placeholders_and_arguments_witness:
  "insertIntoTable insertA = Some tableA \<and> insertColumns insertA \<noteq> []
   \<and> insertValues insertA = map (StructValue (tm_typeName (metadata tableA))) [7, 9]
   \<and> resolvedColumns initSqlKeywords (metadata tableA) (map gc_name (insertColumns insertA))
        [idColumn, nameColumn\<lparr>cm_name := doubleQuoted ''name''\<rparr>]
   \<and> conflictRenders insertA
   \<and> fst (projr (buildInsert initSqlKeywords insertA))
        = ''INSERT INTO t (id, '' @ doubleQuoted ''name'' @ '')\<newline>VALUES ($1,$2),($3,$4)''
   \<and> length (snd (projr (buildInsert initSqlKeywords insertA))) = 2 * 2
   \<and> snd (projr (buildInsert initSqlKeywords insertA)) ! (0 * 2 + 1) = 8
   \<and> snd (projr (buildInsert initSqlKeywords insertA)) ! (1 * 2 + 0) = 9"
proof -
  have h1: "insertIntoTable insertA = Some tableA" and h2: "insertColumns insertA \<noteq> []"
    and h3: "insertValues insertA = map (StructValue (tm_typeName (metadata tableA))) [7, 9]"
    and h4: "[7, 9::nat] \<noteq> []" and h6: "conflictRenders insertA"
    by (simp_all add: insertA_eq newSqlBuilder_def tableA_def exampleMetadata_def conflictRenders_def)
  from insert_placeholders_and_arguments [OF h1 h2 h3 h4 insertA_resolved h6]
  obtain args where b: "buildInsert initSqlKeywords insertA =
        Inr (insertHeader tableA (insertColumns insertA)
               @ separatedText '','' (placeholderRow (length (insertColumns insertA))) [0..<length [7, 9::nat]]
               @ conflictText insertA, args)"
    and l: "length args = length [7, 9::nat] * length (insertColumns insertA)"
    and n: "\<forall>r < length [7, 9::nat]. \<forall>i < length (insertColumns insertA).
        args ! (r * length (insertColumns insertA) + i)
          = insertSpec ([idColumn, nameColumn\<lparr>cm_name := doubleQuoted ''name''\<rparr>] ! i) ([7, 9] ! r)"
    by blast
  have c: "length (insertColumns insertA) = 2" by (simp add: insertA_eq)
  from n [rule_format, of 0 1] have n1: "args ! (0 * 2 + 1) = 8"
    by (simp add: c nameColumn_def)
  from n [rule_format, of 1 0] have n2: "args ! (1 * 2 + 0) = 9"
    by (simp add: c idColumn_def)
  have t: "insertHeader tableA (insertColumns insertA)
               @ separatedText '','' (placeholderRow (length (insertColumns insertA))) [0..<length [7, 9::nat]]
               @ conflictText insertA
      = ''INSERT INTO t (id, '' @ doubleQuoted ''name'' @ '')\<newline>VALUES ($1,$2),($3,$4)''"
    by (simp add: insertA_eq newSqlBuilder_def insertHeader_def conflictText_def placeholderRow_def upt_examples
        colA_def colName_def tableA_def tableName_def dec_simps doubleQuoted_def)
  from h1 h2 h3 insertA_resolved h6 b l n1 n2 t c show ?thesis by simp
qed

text \<open>
  C5. A token stream renders every token after a single space: a string trimmed, an
  integer in decimal, a boolean as \<open>TRUE\<close> or \<open>FALSE\<close>, a column by the text of the
  stream; a token of any other kind makes the rendering panic. The WHERE stream of a
  SELECT writes a column as alias and name, the DO UPDATE SET stream of an INSERT as the
  bare name, the WHERE stream of DO UPDATE as table name and name.
\<close>

theorem token_stream_rendering:
  "writeTokens columnText tokens sb0 =
      (if OtherToken \<in> set tokens then Inl UnexpectedTokenType
       else Inr (sb0 @ concat (map (\<lambda>token. '' '' @ tokenText columnText token) tokens)))
   \<and> tokenText columnText (StringToken s) = TrimSpace s
   \<and> tokenText columnText (IntToken i) = decimalInt i
   \<and> tokenText columnText (BoolToken True) = ''TRUE''
   \<and> tokenText columnText (BoolToken False) = ''FALSE''
   \<and> tokenText columnText (ColumnToken c) = columnText c
   \<and> nameWithAlias c = tableAlias (gc_table c) @ ''.'' @ gc_name c
   \<and> tableQualifiedName c = tableName (gc_table c) @ ''.'' @ gc_name c
   \<and> (selectBuildable b \<and> writeJoins (joinsOn b) (writeFrom b (writeSelectList b ''SELECT '')) = Inr sb
        \<and> whereTokens b \<noteq> [] \<longrightarrow>
        buildSelect b =
          (if OtherToken \<in> set (whereTokens b) then Inl UnexpectedTokenType
           else Inr (finishSelect b (writeOffsetLimit b (writeOrderBy b
                       (sb @ ''WHERE'' @ tokensText nameWithAlias (whereTokens b) @ ''\<newline>''))),
                     whereArgs b)))
   \<and> (insertColumns bi \<noteq> [] \<and> insertIntoTable bi = Some t \<and> insertValues bi \<noteq> []
        \<and> writeRows sqlKeywords (metadata t) (map gc_name (insertColumns bi)) (length (insertColumns bi))
             (insertValues bi) 0
             (writeSeparated '', '' gc_name (insertColumns bi) 0 (''INSERT INTO '' @ tableName t @ '' ('')
                @ '')\<newline>VALUES '') [] = Inr (sbi, args)
        \<and> \<not> insertOnConflictDoNothing bi \<and> insertOnConflictKeys bi \<noteq> [] \<longrightarrow>
        buildInsert sqlKeywords bi =
          (if OtherToken \<in> set (insertOnConflictDoUpdateTokens bi)
              \<or> OtherToken \<in> set (insertOnConflictDoUpdateWhereTokens bi)
           then Inl UnexpectedTokenType
           else Inr (sbi @ ''\<newline>ON CONFLICT ('' @ separatedText '', '' gc_name (insertOnConflictKeys bi)
                       @ '') DO UPDATE SET\<newline>''
                       @ tokensText gc_name (insertOnConflictDoUpdateTokens bi)
                       @ (if insertOnConflictDoUpdateWhereTokens bi = [] then []
                          else ''\<newline>WHERE''
                                 @ tokensText tableQualifiedName (insertOnConflictDoUpdateWhereTokens bi)),
                     args)))"
proof -
  have 1: "writeTokens columnText tokens sb0 =
      (if OtherToken \<in> set tokens then Inl UnexpectedTokenType
       else Inr (sb0 @ concat (map (\<lambda>token. '' '' @ tokenText columnText token) tokens)))"
    by (simp add: writeTokens_eq tokensText_def)
  have 2: "tokenText columnText (StringToken s) = TrimSpace s"
    "tokenText columnText (IntToken i) = decimalInt i"
    "tokenText columnText (BoolToken True) = ''TRUE''"
    "tokenText columnText (BoolToken False) = ''FALSE''"
    "tokenText columnText (ColumnToken c) = columnText c"
    by (simp_all add: tokenText_def)
  have 3: "nameWithAlias c = tableAlias (gc_table c) @ ''.'' @ gc_name c"
    "tableQualifiedName c = tableName (gc_table c) @ ''.'' @ gc_name c"
    by (simp_all add: nameWithAlias_def tableQualifiedName_def)
  note 4 = buildSelect_where [of b sb] buildInsert_conflict [of bi t sqlKeywords sbi args]
  show ?thesis
    apply (intro conjI impI)
    subgoal by (rule 1)
    subgoal by (rule 2)
    subgoal by (rule 2)
    subgoal by (rule 2)
    subgoal by (rule 2)
    subgoal by (rule 2)
    subgoal by (rule 3)
    subgoal by (rule 3)
    subgoal by (rule 4) blast+
    subgoal by (rule 4) blast+
    done
qed

theorem token_stream_rendering_witness:
  "selectBuildable whereA
   \<and> writeJoins (joinsOn whereA) (writeFrom whereA (writeSelectList whereA ''SELECT ''))
        = Inr ''SELECT a.id\<newline>FROM t AS a\<newline>''
   \<and> whereTokens whereA \<noteq> []
   \<and> buildSelect whereA = Inr (''SELECT a.id\<newline>FROM t AS a\<newline>WHERE a.id = 2 AND TRUE\<newline>'', [])
   \<and> insertColumns upsertA \<noteq> [] \<and> insertIntoTable upsertA = Some tableA \<and> insertValues upsertA \<noteq> []
   \<and> \<not> insertOnConflictDoNothing upsertA \<and> insertOnConflictKeys upsertA \<noteq> []
   \<and> buildInsert initSqlKeywords upsertA
        = Inr (''INSERT INTO t (id, '' @ doubleQuoted ''name'' @ '')\<newline>VALUES ($1,$2),($3,$4)''
                 @ ''\<newline>ON CONFLICT (id) DO UPDATE SET\<newline> '' @ doubleQuoted ''name'' @ '' = 1''
                 @ ''\<newline>WHERE t.id < 100'', [7, 8, 9, 10])"
proof -
  have s1: "selectBuildable whereA" and s3: "whereTokens whereA \<noteq> []"
    by (simp_all add: selectBuildable_def whereA_eq fromA_eq selectedA_eq)
  have s2: "writeJoins (joinsOn whereA) (writeFrom whereA (writeSelectList whereA ''SELECT ''))
        = Inr ''SELECT a.id\<newline>FROM t AS a\<newline>''"
    by (simp add: whereA_eq fromA_eq selectedA_eq newSqlBuilder_def writeFrom_def writeSelectList_def
        nameWithAlias_def colA_def tableA_def tableAlias_def tableName_def)
  have i1: "insertColumns upsertA \<noteq> []" "insertIntoTable upsertA = Some tableA" "insertValues upsertA \<noteq> []"
    "\<not> insertOnConflictDoNothing upsertA" "insertOnConflictKeys upsertA \<noteq> []"
    by (simp_all add: upsertA_eq insertA_eq newSqlBuilder_def)
  have i2: "writeRows initSqlKeywords (metadata tableA) (map gc_name (insertColumns upsertA))
       (length (insertColumns upsertA)) (insertValues upsertA) 0
       (writeSeparated '', '' gc_name (insertColumns upsertA) 0 (''INSERT INTO '' @ tableName tableA @ '' ('')
          @ '')\<newline>VALUES '') []
     = Inr (''INSERT INTO t (id, '' @ doubleQuoted ''name'' @ '')\<newline>VALUES ($1,$2),($3,$4)'', [7, 8, 9, 10])"
    using insertA_rows by (simp add: upsertA_eq)
  note T = token_stream_rendering [where b = whereA and sb = "''SELECT a.id\<newline>FROM t AS a\<newline>''"
      and bi = upsertA and t = tableA and sqlKeywords = initSqlKeywords
      and sbi = "''INSERT INTO t (id, '' @ doubleQuoted ''name'' @ '')\<newline>VALUES ($1,$2),($3,$4)''"
      and args = "[7, 8, 9, 10]"]
  from T s1 s2 s3 have sel: "buildSelect whereA =
          (if OtherToken \<in> set (whereTokens whereA) then Inl UnexpectedTokenType
           else Inr (finishSelect whereA (writeOffsetLimit whereA (writeOrderBy whereA
                       (''SELECT a.id\<newline>FROM t AS a\<newline>'' @ ''WHERE''
                          @ tokensText nameWithAlias (whereTokens whereA) @ ''\<newline>''))),
                     whereArgs whereA))"
    by blast
  from T i1 i2 have ins: "buildInsert initSqlKeywords upsertA =
          (if OtherToken \<in> set (insertOnConflictDoUpdateTokens upsertA)
              \<or> OtherToken \<in> set (insertOnConflictDoUpdateWhereTokens upsertA)
           then Inl UnexpectedTokenType
           else Inr ((''INSERT INTO t (id, '' @ doubleQuoted ''name'' @ '')\<newline>VALUES ($1,$2),($3,$4)'')
                       @ ''\<newline>ON CONFLICT ('' @ separatedText '', '' gc_name (insertOnConflictKeys upsertA)
                       @ '') DO UPDATE SET\<newline>''
                       @ tokensText gc_name (insertOnConflictDoUpdateTokens upsertA)
                       @ (if insertOnConflictDoUpdateWhereTokens upsertA = [] then []
                          else ''\<newline>WHERE''
                                 @ tokensText tableQualifiedName (insertOnConflictDoUpdateWhereTokens upsertA)),
                     [7, 8, 9, 10]))"
    by blast
  have sel': "buildSelect whereA
      = Inr (''SELECT a.id\<newline>FROM t AS a\<newline>WHERE a.id = 2 AND TRUE\<newline>'', [])"
    unfolding sel
    by (simp add: whereA_eq fromA_eq selectedA_eq newSqlBuilder_def finishSelect_def
        writeOffsetLimit_def writeOrderBy_def tokensText_def tokenText_def nameWithAlias_def
        colA_def tableA_def tableAlias_def trim_defs decimalInt_def dec_simps)
  have ins': "buildInsert initSqlKeywords upsertA
        = Inr (''INSERT INTO t (id, '' @ doubleQuoted ''name'' @ '')\<newline>VALUES ($1,$2),($3,$4)''
                 @ ''\<newline>ON CONFLICT (id) DO UPDATE SET\<newline> '' @ doubleQuoted ''name'' @ '' = 1''
                 @ ''\<newline>WHERE t.id < 100'', [7, 8, 9, 10])"
    unfolding ins
    by (simp add: upsertA_eq insertA_eq newSqlBuilder_def tokensText_def tokenText_def tableQualifiedName_def
        colA_def colName_def tableA_def tableName_def trim_defs decimalInt_def
        dec_simps doubleQuoted_def)
  from s1 s2 s3 i1 sel' ins' show ?thesis by blast
qed

text \<open>
  C9 (amended). For a basic SELECT builder that builds, the statement is the statement
  without paging followed by the paging clause of the stored offset \<open>n\<close> and limit \<open>m\<close>:
  \<open>OFFSET n LIMIT m\<close> on one line when both are positive, the one clause whose value is
  positive when only one is, and nothing when both are zero. \<open>Offset\<close> and \<open>Limit\<close>
  only store their argument, so a call with the value 0 is the same as no call.
\<close>

theorem offset_limit_rendering:
  "(buildSelect (b\<lparr>offset := 0, limit := 0\<rparr>) = Inr (body, args) \<and> selectType b = selectTypeBasic \<longrightarrow>
      buildSelect b = Inr (body @ pagingText (offset b) (limit b), args))
   \<and> pagingText n m =
       (if 0 < n \<and> 0 < m then ''OFFSET '' @ decimalNat n @ '' LIMIT '' @ decimalNat m @ ''\<newline>''
        else if 0 < n then ''OFFSET '' @ decimalNat n @ ''\<newline>''
        else if 0 < m then ''LIMIT '' @ decimalNat m @ ''\<newline>''
        else [])
   \<and> (Offset b n = Returned b' \<longrightarrow> offset b' = n \<and> limit b' = limit b)
   \<and> (Limit b m = Returned b'' \<longrightarrow> limit b'' = m \<and> offset b'' = offset b)"
proof -
  have 3: "offset b' = n \<and> limit b' = limit b" if "Offset b n = Returned b'"
    using that by (auto simp: Offset_def setPreviousAction_def split: option.splits)
  have 4: "limit b'' = m \<and> offset b'' = offset b" if "Limit b m = Returned b''"
    using that by (auto simp: Limit_def setPreviousAction_def split: option.splits)
  from buildSelect_paging [of b body args] 3 4 show ?thesis
    by (simp add: pagingText_def)
qed

text \<open>
  After \<open>Offset(0)\<close> and \<open>Limit(5)\<close> the statement carries \<open>LIMIT 5\<close> alone, not
  \<open>OFFSET 0 LIMIT 5\<close>.
\<close>

theorem offset_limit_rendering_counterexample:
  "Offset fromA 0 = Returned (stateAfter (Offset fromA 0))
   \<and> Limit (stateAfter (Offset fromA 0)) 5 = Returned pagedZeroA
   \<and> selectType pagedZeroA = selectTypeBasic
   \<and> buildSelect pagedZeroA = Inr (''SELECT a.id\<newline>FROM t AS a\<newline>LIMIT 5\<newline>'', [])"
  by (simp add: pagedZeroA_eq fromA_eq selectedA_eq eval_defs buildSelect_def writeFrom_def writeSelectList_def
      writeWhere_def writeOrderBy_def writeOffsetLimit_def nameWithAlias_def colA_def tableA_def dec_simps)

theorem offset_limit_rendering_witness:
  "buildSelect (pagedA\<lparr>offset := 0, limit := 0\<rparr>) = Inr (''SELECT a.id\<newline>FROM t AS a\<newline>'', [])
   \<and> selectType pagedA = selectTypeBasic
   \<and> Offset fromA 10 = Returned (stateAfter (Offset fromA 10))
   \<and> Limit (stateAfter (Offset fromA 10)) 20 = Returned pagedA
   \<and> offset pagedA = 10 \<and> limit pagedA = 20
   \<and> buildSelect pagedA = Inr (''SELECT a.id\<newline>FROM t AS a\<newline>OFFSET 10 LIMIT 20\<newline>'', [])"
proof -
  have h1: "selectType pagedA = selectTypeBasic" by (simp add: pagedA_eq fromA_eq selectedA_eq)
  have h2: "Offset fromA 10 = Returned (stateAfter (Offset fromA 10))"
    by (simp add: fromA_eq selectedA_eq eval_defs)
  have h3: "Limit (stateAfter (Offset fromA 10)) 20 = Returned pagedA"
    by (simp add: pagedA_eq fromA_eq selectedA_eq eval_defs)
  from offset_limit_rendering [where b = pagedA and body = "''SELECT a.id\<newline>FROM t AS a\<newline>''"
      and args = "[]" and n = 10 and m = 20]
    offset_limit_rendering [where b = fromA and n = 10 and b' = "stateAfter (Offset fromA 10)"]
    offset_limit_rendering [where b = "stateAfter (Offset fromA 10)" and m = 20 and b'' = pagedA]
    fromA_builds h1 h2 h3
  show ?thesis by (simp add: dec_simps)
qed


subsection \<open>The row correlator\<close>

lemma indexColumns_eq:
  "indexColumns cols i (tba, cba, idx) = (tba', cba', idx') \<Longrightarrow>
   (\<forall>a. cba' a = (if namesOf a cols = [] then cba a
                  else Some ((case cba a of None \<Rightarrow> [] | Some cs \<Rightarrow> cs) @ namesOf a cols)))
   \<and> (\<forall>a n. lookupIndex idx' a n =
          (case lastIndexFrom i a n cols of Some j \<Rightarrow> Some j | None \<Rightarrow> lookupIndex idx a n))
   \<and> (\<forall>a. tba' a = (case filter (\<lambda>c. aliasOf c = a) cols of [] \<Rightarrow> tba a | cs \<Rightarrow> Some (gc_table (last cs))))"
proof (induction cols arbitrary: i tba cba idx)
  case Nil
  then show ?case by (simp add: namesOf_def)
next
  case (Cons c cols)
  let ?a = "aliasOf c"
  let ?tba = "tba(?a \<mapsto> gc_table c)"
  let ?cba = "cba(?a \<mapsto> (case cba ?a of None \<Rightarrow> [] | Some cs \<Rightarrow> cs) @ [gc_name c])"
  let ?idx = "idx(?a \<mapsto> (case idx ?a of None \<Rightarrow> Map.empty | Some m \<Rightarrow> m)(gc_name c \<mapsto> i))"
  from Cons.prems have "indexColumns cols (Suc i) (?tba, ?cba, ?idx) = (tba', cba', idx')"
    by (simp add: Let_def aliasOf_def)
  note ih = Cons.IH [OF this]
  have 1: "cba' a = (if namesOf a (c # cols) = [] then cba a
                  else Some ((case cba a of None \<Rightarrow> [] | Some cs \<Rightarrow> cs) @ namesOf a (c # cols)))" for a
    using ih by (auto simp: namesOf_def split: option.splits)
  have l: "lookupIndex ?idx a n = (if a = ?a \<and> n = gc_name c then Some i else lookupIndex idx a n)" for a n
    by (auto simp: lookupIndex_def split: option.splits)
  have 2: "lookupIndex idx' a n =
          (case lastIndexFrom i a n (c # cols) of Some j \<Rightarrow> Some j | None \<Rightarrow> lookupIndex idx a n)" for a n
    using ih l by (auto split: option.splits)
  have 3: "tba' a = (case filter (\<lambda>c. aliasOf c = a) (c # cols) of [] \<Rightarrow> tba a | cs \<Rightarrow> Some (gc_table (last cs)))"
    for a
    using ih by (auto split: list.splits)
  from 1 2 3 show ?case by blast
qed

lemma lastIndexFrom_None:
  "\<forall>c \<in> set cols. \<not> (aliasOf c = a \<and> gc_name c = n) \<Longrightarrow> lastIndexFrom i a n cols = None"
  by (induction cols arbitrary: i) auto

lemma lastOccurrence_Cons_Suc:
  "lastOccurrence (c # cols) (Suc j) \<Longrightarrow> lastOccurrence cols j"
  unfolding lastOccurrence_def
proof (intro allI impI)
  fix k
  assume a: "\<forall>j' < length (c # cols). Suc j < j' \<longrightarrow>
      \<not> (aliasOf ((c # cols) ! j') = aliasOf ((c # cols) ! Suc j) \<and> gc_name ((c # cols) ! j') = gc_name ((c # cols) ! Suc j))"
    and k: "k < length cols" "j < k"
  from a [rule_format, of "Suc k"] k
  show "\<not> (aliasOf (cols ! k) = aliasOf (cols ! j) \<and> gc_name (cols ! k) = gc_name (cols ! j))" by simp
qed

lemma lastOccurrence_Cons_0:
  assumes "lastOccurrence (c # cols) 0" and "c' \<in> set cols"
  shows "\<not> (aliasOf c' = aliasOf c \<and> gc_name c' = gc_name c)"
proof -
  from assms(2) obtain k where k: "k < length cols" "cols ! k = c'" by (auto simp: in_set_conv_nth)
  from assms(1) [unfolded lastOccurrence_def, rule_format, of "Suc k"] k show ?thesis by simp
qed

lemma lastIndexFrom_last:
  "j < length cols \<Longrightarrow> lastOccurrence cols j \<Longrightarrow>
   lastIndexFrom i (aliasOf (cols ! j)) (gc_name (cols ! j)) cols = Some (i + j)"
proof (induction cols arbitrary: i j)
  case Nil
  then show ?case by simp
next
  case (Cons c cols)
  show ?case
  proof (cases j)
    case 0
    with Cons.prems lastOccurrence_Cons_0 [of c cols]
    have "lastIndexFrom (Suc i) (aliasOf c) (gc_name c) cols = None"
      by (intro lastIndexFrom_None) blast
    with 0 show ?thesis by simp
  next
    case (Suc j')
    with Cons.prems have "j' < length cols" "lastOccurrence cols j'"
      by (auto dest: lastOccurrence_Cons_Suc)
    from Cons.IH [OF this, of "Suc i"] Suc show ?thesis by simp
  qed
qed

text \<open>Every column of the list has a last occurrence of its pair of alias and name.\<close>

lemma last_occurrence_exists:
  assumes "k < length cols"
  shows "\<exists>j < length cols. k \<le> j \<and> aliasOf (cols ! j) = aliasOf (cols ! k) \<and> gc_name (cols ! j) = gc_name (cols ! k)
           \<and> lastOccurrence cols j"
proof -
  define K where "K = {j. j < length cols \<and> aliasOf (cols ! j) = aliasOf (cols ! k) \<and> gc_name (cols ! j) = gc_name (cols ! k)}"
  have fin: "finite K" and ne: "k \<in> K" using assms by (auto simp: K_def)
  then have mx: "Max K \<in> K" and ge: "k \<le> Max K" and ub: "\<And>j. j \<in> K \<Longrightarrow> j \<le> Max K"
    by (auto intro: Max_in)
  have "lastOccurrence cols (Max K)"
    unfolding lastOccurrence_def
  proof (intro allI impI notI)
    fix j assume j: "j < length cols" "Max K < j"
      and m: "aliasOf (cols ! j) = aliasOf (cols ! Max K) \<and> gc_name (cols ! j) = gc_name (cols ! Max K)"
    with mx have "j \<in> K" by (simp add: K_def)
    from ub [OF this] j(2) show False by simp
  qed
  with mx ge show ?thesis unfolding K_def by blast
qed

lemma placeTargets_eq:
  assumes "i + length names \<le> length specs"
    and "\<forall>n \<in> set names. indexOrZero m n < length dest"
    and "\<forall>k < length names. \<forall>k' < length names.
           indexOrZero m (names ! k) = indexOrZero m (names ! k') \<longrightarrow> specs ! (i + k) = specs ! (i + k')"
  shows "\<exists>dest'. placeTargets m names i specs dest = Inr dest' \<and> length dest' = length dest
     \<and> (\<forall>k < length names. dest' ! indexOrZero m (names ! k) = Some (specs ! (i + k)))
     \<and> (\<forall>j. (\<forall>k < length names. indexOrZero m (names ! k) \<noteq> j) \<longrightarrow> dest' ! j = dest ! j)"
  using assms
proof (induction names arbitrary: i dest)
  case Nil
  then show ?case by simp
next
  case (Cons n ns)
  let ?j = "indexOrZero m n"
  let ?d1 = "dest[?j := Some (specs ! i)]"
  have j: "?j < length dest" using Cons.prems(2) by simp
  have i: "i < length specs" using Cons.prems(1) by simp
  have p1: "Suc i + length ns \<le> length specs" using Cons.prems(1) by simp
  have p2: "\<forall>n' \<in> set ns. indexOrZero m n' < length ?d1" using Cons.prems(2) by simp
  have p3: "\<forall>k < length ns. \<forall>k' < length ns.
           indexOrZero m (ns ! k) = indexOrZero m (ns ! k') \<longrightarrow> specs ! (Suc i + k) = specs ! (Suc i + k')"
  proof (intro allI impI)
    fix k k' assume "k < length ns" "k' < length ns" "indexOrZero m (ns ! k) = indexOrZero m (ns ! k')"
    with Cons.prems(3) [rule_format, of "Suc k" "Suc k'"] show "specs ! (Suc i + k) = specs ! (Suc i + k')"
      by simp
  qed
  from Cons.IH [OF p1 p2 p3] obtain dest' where
    r: "placeTargets m ns (Suc i) specs ?d1 = Inr dest'" and l: "length dest' = length ?d1"
    and w: "\<forall>k < length ns. dest' ! indexOrZero m (ns ! k) = Some (specs ! (Suc i + k))"
    and u: "\<forall>j. (\<forall>k < length ns. indexOrZero m (ns ! k) \<noteq> j) \<longrightarrow> dest' ! j = ?d1 ! j"
    by blast
  have step: "placeTargets m (n # ns) i specs dest = Inr dest'"
    using i j r by (simp add: Let_def indexOrZero_def)
  have head: "dest' ! ?j = Some (specs ! i)"
  proof (cases "\<exists>k < length ns. indexOrZero m (ns ! k) = ?j")
    case True
    then obtain k where k: "k < length ns" "indexOrZero m (ns ! k) = ?j" by blast
    from Cons.prems(3) [rule_format, of "Suc k" 0] k have e: "specs ! (Suc i + k) = specs ! i" by simp
    from w [rule_format, OF k(1)] have "dest' ! ?j = Some (specs ! (Suc i + k))" unfolding k(2) .
    with e show ?thesis by simp
  next
    case False
    with u have "dest' ! ?j = ?d1 ! ?j" by blast
    with j show ?thesis by simp
  qed
  have written: "\<forall>k < length (n # ns). dest' ! indexOrZero m ((n # ns) ! k) = Some (specs ! (i + k))"
  proof (intro allI impI)
    fix k assume "k < length (n # ns)"
    then show "dest' ! indexOrZero m ((n # ns) ! k) = Some (specs ! (i + k))"
      using head w by (cases k) simp_all
  qed
  have untouched: "\<forall>j'. (\<forall>k < length (n # ns). indexOrZero m ((n # ns) ! k) \<noteq> j') \<longrightarrow> dest' ! j' = dest ! j'"
  proof (intro allI impI)
    fix j' assume a: "\<forall>k < length (n # ns). indexOrZero m ((n # ns) ! k) \<noteq> j'"
    from a [rule_format, of 0] have ne: "?j \<noteq> j'" by simp
    have "\<forall>k < length ns. indexOrZero m (ns ! k) \<noteq> j'"
      using a by (metis Suc_less_eq length_Cons nth_Cons_Suc)
    with u have "dest' ! j' = ?d1 ! j'" by blast
    with ne show "dest' ! j' = dest ! j'" by simp
  qed
  from step l written untouched show ?case by auto
qed

lemma selectSpecsLoop_eq:
  "\<forall>c \<in> set cs. MustGetColumnByName sqlKeywords t (wrapWithDoubleQuoteIfSqlKeyword sqlKeywords (gc_name c))
       = Inr (meta c) \<Longrightarrow>
   selectSpecsLoop sqlKeywords t addr (map gc_name cs) = Inr (map (\<lambda>c. selectSpec (meta c) addr) cs)"
  by (induction cs) simp_all


lemma scanTables_step:
  assumes ix: "indexColumns cols 0 (Map.empty, Map.empty, Map.empty) = (tba, cba, idx)"
    and res: "columnsResolve sqlKeywords cols meta"
    and ait: "aliasIdentifiesTable cols"
    and inv: "placed cols alloc meta S dest"
  shows "(tba a = None \<and> placed cols alloc meta (insert a S) dest)
     \<or> (\<exists>t specs dest'. tba a = Some t \<and> tableAlias t = a
          \<and> selectSpecOfColumns sqlKeywords (metadata t) (alloc a)
                (case cba a of None \<Rightarrow> [] | Some cs \<Rightarrow> cs) = Inr (alloc a, specs)
          \<and> placeTargets (case idx a of None \<Rightarrow> Map.empty | Some m \<Rightarrow> m)
                (case cba a of None \<Rightarrow> [] | Some cs \<Rightarrow> cs) 0 specs dest = Inr dest'
          \<and> placed cols alloc meta (insert a S) dest')"
proof -
  note facts = indexColumns_eq [OF ix]
  define cs where "cs = filter (\<lambda>c. aliasOf c = a) cols"
  have cs_set: "\<And>c. c \<in> set cs \<longleftrightarrow> c \<in> set cols \<and> aliasOf c = a" by (simp add: cs_def)
  let ?m = "case idx a of None \<Rightarrow> Map.empty | Some m \<Rightarrow> m"
  have cba: "cba a = (if namesOf a cols = [] then None else Some (namesOf a cols))"
    using facts by simp
  have tba: "tba a = (case cs of [] \<Rightarrow> None | x # xs \<Rightarrow> Some (gc_table (last (x # xs))))"
    using facts by (simp add: cs_def)
  have m: "?m n = lastIndexFrom 0 a n cols" for n
    using facts [THEN conjunct2, THEN conjunct1, rule_format, of a n]
    by (auto simp: lookupIndex_def split: option.splits)
  show ?thesis
  proof (cases "cs = []")
    case True
    have none: "aliasOf (cols ! j) \<noteq> a" if "j < length cols" for j
    proof
      assume "aliasOf (cols ! j) = a"
      with that have "cols ! j \<in> set cs" by (simp add: cs_set)
      with True show False by simp
    qed
    from True tba have "tba a = None" by simp
    moreover have "placed cols alloc meta (insert a S) dest"
      using inv none unfolding placed_def by auto
    ultimately show ?thesis by blast
  next
    case False
    define t where "t = gc_table (last cs)"
    from False tba have t: "tba a = Some t" by (cases cs) (simp_all add: t_def)
    have lastin: "last cs \<in> set cs" using False by (rule last_in_set)
    then have lastcols: "last cs \<in> set cols" and lasta: "aliasOf (last cs) = a"
      by (simp_all add: cs_set)
    have ta: "tableAlias t = a" using lasta by (simp add: t_def aliasOf_def)
    have tab: "gc_table c = t" if "c \<in> set cs" for c
    proof -
      from that have "c \<in> set cols" "aliasOf c = aliasOf (last cs)" using lasta by (simp_all add: cs_set)
      with ait lastcols show ?thesis unfolding aliasIdentifiesTable_def t_def by blast
    qed
    have names: "(case cba a of None \<Rightarrow> [] | Some cs \<Rightarrow> cs) = map gc_name cs"
      using cba by (simp add: namesOf_def cs_def)
    have ne: "map gc_name cs \<noteq> []" using False by simp
    have "\<forall>c \<in> set cs. MustGetColumnByName sqlKeywords (metadata t)
        (wrapWithDoubleQuoteIfSqlKeyword sqlKeywords (gc_name c)) = Inr (meta c)"
    proof
      fix c assume c: "c \<in> set cs"
      then have "c \<in> set cols" by (simp add: cs_set)
      with res have "MustGetColumnByName sqlKeywords (metadata (gc_table c))
          (wrapWithDoubleQuoteIfSqlKeyword sqlKeywords (gc_name c)) = Inr (meta c)"
        unfolding columnsResolve_def by blast
      with tab [OF c] show "MustGetColumnByName sqlKeywords (metadata t)
          (wrapWithDoubleQuoteIfSqlKeyword sqlKeywords (gc_name c)) = Inr (meta c)" by simp
    qed
    from selectSpecsLoop_eq [OF this, of "alloc a"]
    have loop: "selectSpecsLoop sqlKeywords (metadata t) (alloc a) (map gc_name cs)
        = Inr (map (\<lambda>c. selectSpec (meta c) (alloc a)) cs)" .
    define specs where "specs = map (scanTarget alloc meta) cs"
    have specs_eq: "map (\<lambda>c. selectSpec (meta c) (alloc a)) cs = specs"
      unfolding specs_def scanTarget_def by (rule map_cong) (simp_all add: cs_set)
    have sel: "selectSpecOfColumns sqlKeywords (metadata t) (alloc a)
        (case cba a of None \<Rightarrow> [] | Some cs \<Rightarrow> cs) = Inr (alloc a, specs)"
      unfolding names using ne loop specs_eq by (simp add: selectSpecOfColumns_def)
    have L: "indexOrZero ?m (gc_name c) < length cols \<and> lastOccurrence cols (indexOrZero ?m (gc_name c))
        \<and> aliasOf (cols ! indexOrZero ?m (gc_name c)) = a
        \<and> gc_name (cols ! indexOrZero ?m (gc_name c)) = gc_name c"
      if c: "c \<in> set cs" for c
    proof -
      from c have ca: "aliasOf c = a" and cc: "c \<in> set cols" by (simp_all add: cs_set)
      from cc obtain k where k: "k < length cols" "cols ! k = c" by (auto simp: in_set_conv_nth)
      from last_occurrence_exists [OF k(1)] k(2) obtain j where
        j: "j < length cols" "aliasOf (cols ! j) = aliasOf c" "gc_name (cols ! j) = gc_name c"
          "lastOccurrence cols j" by auto
      from lastIndexFrom_last [OF j(1) j(4), of 0] j(2,3) ca
      have "?m (gc_name c) = Some j" by (simp add: m)
      then have "indexOrZero ?m (gc_name c) = j" by (simp add: indexOrZero_def)
      with j ca show ?thesis by simp
    qed
    have same_meta: "scanTarget alloc meta c = scanTarget alloc meta c'"
      if "c \<in> set cs" "c' \<in> set cs" "gc_name c = gc_name c'" for c c'
    proof -
      from that tab have "gc_table c = gc_table c'" by simp
      moreover from that have "c \<in> set cols" "c' \<in> set cols" by (simp_all add: cs_set)
      ultimately have "Inr (meta c) = (Inr (meta c') :: panic + ('a, 'b) ColumnMetadata)"
        using res that(3) unfolding columnsResolve_def by metis
      then have "meta c = meta c'" by simp
      moreover from that have "aliasOf c = aliasOf c'" by (simp add: cs_set)
      ultimately show ?thesis by (simp add: scanTarget_def)
    qed
    have a1: "0 + length (map gc_name cs) \<le> length specs" by (simp add: specs_def)
    have a2: "\<forall>n \<in> set (map gc_name cs). indexOrZero ?m n < length dest"
    proof
      fix n assume "n \<in> set (map gc_name cs)"
      then obtain c where "c \<in> set cs" "n = gc_name c" by auto
      with L [of c] inv show "indexOrZero ?m n < length dest" by (simp add: placed_def)
    qed
    have a3: "\<forall>k < length (map gc_name cs). \<forall>k' < length (map gc_name cs).
        indexOrZero ?m (map gc_name cs ! k) = indexOrZero ?m (map gc_name cs ! k')
          \<longrightarrow> specs ! (0 + k) = specs ! (0 + k')"
    proof (intro allI impI)
      fix k k' assume k: "k < length (map gc_name cs)" "k' < length (map gc_name cs)"
        and e: "indexOrZero ?m (map gc_name cs ! k) = indexOrZero ?m (map gc_name cs ! k')"
      from k have in1: "cs ! k \<in> set cs" and in2: "cs ! k' \<in> set cs" by simp_all
      from e k have e': "indexOrZero ?m (gc_name (cs ! k)) = indexOrZero ?m (gc_name (cs ! k'))" by simp
      have "gc_name (cs ! k) = gc_name (cols ! indexOrZero ?m (gc_name (cs ! k)))"
        using L [OF in1] by simp
      also have "\<dots> = gc_name (cs ! k')" unfolding e' using L [OF in2] by simp
      finally have "gc_name (cs ! k) = gc_name (cs ! k')" .
      from same_meta [OF in1 in2 this] k show "specs ! (0 + k) = specs ! (0 + k')"
        by (simp add: specs_def)
    qed
    from placeTargets_eq [OF a1 a2 a3] obtain dest' where
      pt: "placeTargets ?m (map gc_name cs) 0 specs dest = Inr dest'" and len: "length dest' = length dest"
      and w: "\<forall>k < length (map gc_name cs). dest' ! indexOrZero ?m (map gc_name cs ! k) = Some (specs ! (0 + k))"
      and u: "\<forall>j. (\<forall>k < length (map gc_name cs). indexOrZero ?m (map gc_name cs ! k) \<noteq> j)
              \<longrightarrow> dest' ! j = dest ! j"
      by blast
    have "placed cols alloc meta (insert a S) dest'"
      unfolding placed_def
    proof (intro conjI allI impI)
      show "length dest' = length cols" using len inv by (simp add: placed_def)
    next
      fix j assume j: "j < length cols"
      show "dest' ! j = (if lastOccurrence cols j \<and> aliasOf (cols ! j) \<in> insert a S
          then Some (scanTarget alloc meta (cols ! j)) else None)"
      proof (cases "lastOccurrence cols j \<and> aliasOf (cols ! j) = a")
        case True
        then have "cols ! j \<in> set cs" using j by (simp add: cs_set)
        then obtain k where k: "k < length cs" "cs ! k = cols ! j" by (auto simp: in_set_conv_nth)
        from lastIndexFrom_last [OF j, of 0] True have "?m (gc_name (cols ! j)) = Some j" by (simp add: m)
        then have "indexOrZero ?m (map gc_name cs ! k) = j" using k by (simp add: indexOrZero_def)
        with w [rule_format, of k] k have "dest' ! j = Some (scanTarget alloc meta (cols ! j))"
          by (simp add: specs_def)
        with True show ?thesis by simp
      next
        case False
        have "\<forall>k < length (map gc_name cs). indexOrZero ?m (map gc_name cs ! k) \<noteq> j"
        proof (intro allI impI notI)
          fix k assume k: "k < length (map gc_name cs)" and e: "indexOrZero ?m (map gc_name cs ! k) = j"
          from k have "cs ! k \<in> set cs" by simp
          from L [OF this] have "lastOccurrence cols (indexOrZero ?m (gc_name (cs ! k)))
              \<and> aliasOf (cols ! indexOrZero ?m (gc_name (cs ! k))) = a" by simp
          moreover from e k have "indexOrZero ?m (gc_name (cs ! k)) = j" by simp
          ultimately have "lastOccurrence cols j \<and> aliasOf (cols ! j) = a" by simp
          with False show False by simp
        qed
        with u have "dest' ! j = dest ! j" by blast
        also have "\<dots> = (if lastOccurrence cols j \<and> aliasOf (cols ! j) \<in> S
            then Some (scanTarget alloc meta (cols ! j)) else None)"
          using inv j by (simp add: placed_def)
        finally show ?thesis using False by auto
      qed
    qed
    with t ta sel pt show ?thesis unfolding names by blast
  qed
qed

lemma scanTables_placed:
  assumes ix: "indexColumns cols 0 (Map.empty, Map.empty, Map.empty) = (tba, cba, idx)"
    and res: "columnsResolve sqlKeywords cols meta"
    and ait: "aliasIdentifiesTable cols"
  shows "placed cols alloc meta S dest \<Longrightarrow>
     \<exists>rowMap' dest'. scanTables sqlKeywords alloc tba cba idx order rowMap dest = Inr (rowMap', dest')
        \<and> placed cols alloc meta (set order \<union> S) dest'"
proof (induction order arbitrary: S rowMap dest)
  case Nil
  then show ?case by simp
next
  case (Cons a order)
  from scanTables_step [OF ix res ait Cons.prems, of a]
  show ?case
  proof (elim disjE conjE exE)
    assume n: "tba a = None" and p: "placed cols alloc meta (insert a S) dest"
    from Cons.IH [OF p, of rowMap] n show ?thesis by simp
  next
    fix t specs dest'
    assume t: "tba a = Some t" "tableAlias t = a"
      and sel: "selectSpecOfColumns sqlKeywords (metadata t) (alloc a)
                (case cba a of None \<Rightarrow> [] | Some cs \<Rightarrow> cs) = Inr (alloc a, specs)"
      and pt: "placeTargets (case idx a of None \<Rightarrow> Map.empty | Some m \<Rightarrow> m)
                (case cba a of None \<Rightarrow> [] | Some cs \<Rightarrow> cs) 0 specs dest = Inr dest'"
      and p: "placed cols alloc meta (insert a S) dest'"
    from Cons.IH [OF p, of "rowMap(a \<mapsto> \<lparr>valueFunc = alloc a, read = False\<rparr>)"] t sel pt
    show ?thesis by (simp add: Let_def fun_upd_def)
  qed
qed


lemma placed_start: "placed cols alloc meta {} (replicate (length cols) None)"
  by (simp add: placed_def)

lemma placed_all:
  assumes "placed cols alloc meta S dest" and "aliasOf ` set cols \<subseteq> S"
  shows "dest = targetsAtLast cols alloc meta"
proof (rule nth_equalityI)
  show "length dest = length (targetsAtLast cols alloc meta)"
    using assms(1) by (simp add: placed_def targetsAtLast_def)
next
  fix j assume "j < length dest"
  with assms(1) have j: "j < length cols" by (simp add: placed_def)
  then have "aliasOf (cols ! j) \<in> S" using assms(2) by auto
  with assms(1) j show "dest ! j = targetsAtLast cols alloc meta ! j"
    by (simp add: placed_def targetsAtLast_def)
qed

lemma rowsReached_simps:
  "rowsReached [] = 0"
  "rowsReached (ScanSucceeds # ps) = Suc (rowsReached ps)"
  "rowsReached (ScanFails # ps) = 1"
  "rowsReached (TransformFails # ps) = 1"
  by (simp_all add: rowsReached_def)

lemma scanLoop_targets:
  assumes ix: "indexColumns cols 0 (Map.empty, Map.empty, Map.empty) = (tba, cba, idx)"
    and res: "columnsResolve sqlKeywords cols meta"
    and ait: "aliasIdentifiesTable cols"
    and ord: "visitsEveryAlias order cols"
  shows "\<exists>r. scanLoop sqlKeywords alloc order tba cba idx (length cols) physicalRows k acc scanned
       = Inr (r, scanned @ map (\<lambda>i. targetsAtLast cols (alloc i) meta) [k..<k + rowsReached physicalRows])"
proof (induction physicalRows arbitrary: k acc scanned)
  case Nil
  then show ?case by (simp add: rowsReached_simps)
next
  case (Cons p ps)
  from scanTables_placed [OF ix res ait placed_start, of "alloc k" "order k" Map.empty]
  obtain rowMap dest where
    st: "scanTables sqlKeywords (alloc k) tba cba idx (order k) Map.empty (replicate (length cols) None)
           = Inr (rowMap, dest)"
    and p: "placed cols (alloc k) meta (set (order k) \<union> {}) dest" by blast
  from ord have "aliasOf ` set cols \<subseteq> set (order k) \<union> {}" by (simp add: visitsEveryAlias_def)
  from placed_all [OF p this] have dest: "dest = targetsAtLast cols (alloc k) meta" .
  show ?case
  proof (cases p)
    case ScanSucceeds
    from Cons.IH [of "Suc k" "acc @ [rowMap]" "scanned @ [dest]"] obtain r where
      "scanLoop sqlKeywords alloc order tba cba idx (length cols) ps (Suc k) (acc @ [rowMap]) (scanned @ [dest])
         = Inr (r, (scanned @ [dest]) @ map (\<lambda>i. targetsAtLast cols (alloc i) meta) [Suc k..<Suc k + rowsReached ps])"
      by blast
    with st ScanSucceeds dest show ?thesis
      by (simp add: rowsReached_simps upt_conv_Cons del: upt_Suc)
  next
    case ScanFails
    with st dest show ?thesis by (simp add: rowsReached_simps)
  next
    case TransformFails
    with st dest show ?thesis by (simp add: rowsReached_simps)
  qed
qed

lemma selectRepeated_eq:
  "mustTypeSelect selectRepeated = None \<and> selectColumns selectRepeated = [colA, colName, colA]"
  by (simp add: selectRepeated_def eval_defs colA_def colName_def tableA_def)

text \<open>
  What \<open>scanRows\<close> hands to the row source: for a SELECT builder whose columns
  resolve it does not panic, and the destination slice of every physical row it reaches
  holds the scan target of each pair of alias and column at the index that the index map
  holds for the pair, the last one at which the pair stands in the select list. The
  index map is the one that the loop over the select list builds before the row loop.
\<close>

lemma scanRows_targets:
  assumes "mustTypeSelect b = None"
    and "columnsResolve sqlKeywords (selectColumns b) meta"
    and "aliasIdentifiesTable (selectColumns b)"
    and "visitsEveryAlias order (selectColumns b)"
  shows "\<exists>r. scanRows sqlKeywords alloc order b (Some physicalRows)
       = Inr (r, map (\<lambda>k. targetsAtLast (selectColumns b) (alloc k) meta) [0..<rowsReached physicalRows])"
proof -
  obtain tba cba idx where
    ix: "indexColumns (selectColumns b) 0 (Map.empty, Map.empty, Map.empty) = (tba, cba, idx)"
    by (cases "indexColumns (selectColumns b) 0 (Map.empty, Map.empty, Map.empty)") auto
  from scanLoop_targets [OF ix assms(2,3,4), of alloc physicalRows 0 "[]" "[]"] ix assms(1)
  show ?thesis by (simp add: scanRows_def)
qed

text \<open>In a select list without a repeated pair every index holds the target of its column.\<close>

lemma noRepeatedPair_last:
  assumes "noRepeatedPair cols" and "j < length cols"
  shows "lastOccurrence cols j"
  unfolding lastOccurrence_def
proof (intro allI impI notI)
  fix k assume k: "k < length cols" "j < k"
    and e: "aliasOf (cols ! k) = aliasOf (cols ! j) \<and> gc_name (cols ! k) = gc_name (cols ! j)"
  let ?ps = "map (\<lambda>c. (aliasOf c, gc_name c)) cols"
  from e k assms(2) have eq: "?ps ! k = ?ps ! j" by simp
  have d: "distinct ?ps" using assms(1) by (simp add: noRepeatedPair_def)
  have "k < length ?ps" "j < length ?ps" using k(1) assms(2) by simp_all
  with d have "(?ps ! k = ?ps ! j) = (k = j)" by (rule nth_eq_iff_index_eq)
  with eq have "k = j" by blast
  with k(2) show False by simp
qed

lemma targetsAtLast_noRepeatedPair:
  assumes "noRepeatedPair cols"
  shows "targetsAtLast cols alloc meta = map (\<lambda>c. Some (scanTarget alloc meta c)) cols"
proof (rule nth_equalityI)
  show "length (targetsAtLast cols alloc meta) = length (map (\<lambda>c. Some (scanTarget alloc meta c)) cols)"
    by (simp add: targetsAtLast_def)
next
  fix j assume "j < length (targetsAtLast cols alloc meta)"
  then have j: "j < length cols" by (simp add: targetsAtLast_def)
  from noRepeatedPair_last [OF assms j] j
  show "targetsAtLast cols alloc meta ! j = map (\<lambda>c. Some (scanTarget alloc meta c)) cols ! j"
    by (simp add: targetsAtLast_def)
qed

lemma scanRows_targets_noRepeatedPair:
  assumes "mustTypeSelect b = None"
    and "columnsResolve sqlKeywords (selectColumns b) meta"
    and "aliasIdentifiesTable (selectColumns b)"
    and "visitsEveryAlias order (selectColumns b)"
    and "noRepeatedPair (selectColumns b)"
  shows "\<exists>r. scanRows sqlKeywords alloc order b (Some physicalRows)
       = Inr (r, map (\<lambda>k. map (\<lambda>c. Some (scanTarget (alloc k) meta c)) (selectColumns b))
                   [0..<rowsReached physicalRows])"
  using scanRows_targets [OF assms(1-4), of alloc physicalRows]
  by (simp add: targetsAtLast_noRepeatedPair [OF assms(5)])

lemma selectRepeated_scan:
  "scanRows initSqlKeywords exampleAlloc exampleOrder selectRepeated (Some [ScanSucceeds])
     = Inr (Inr \<lparr>rowsOfAliasToRow = [[''a'' \<mapsto> \<lparr>valueFunc = 10, read = False\<rparr>]], rowIdx = 0, anyNext = False\<rparr>,
            [[None, Some 11, Some 10]])"
  by (simp add: scanRows_def selectRepeated_eq exampleOrder_def exampleAlloc_def Let_def
      colA_def colName_def tableA_def tableAlias_def selectSpecOfColumns_def MustGetColumnByName_def
      exampleMetadata_def kw_defs idColumn_def nameColumn_def)

text \<open>
  C4. \<open>Select(a.id, a."name", a.id).From(a)\<close> repeats the pair of \<open>a\<close> and \<open>id\<close>. The
  index map keeps the last index of the pair, so for the one physical row the destination
  slice handed to the row source has no target at index 0, where the pair appears first:
  the target stands at index 2 alone. The placement by first appearance would fill
  index 0.
\<close>

theorem scan_targets_repeated_pair:
  "From (stateAfter (Select [colA, colName, colA])) [tableA] = Returned selectRepeated
   \<and> selectColumns selectRepeated = [colA, colName, colA]
   \<and> map_sum id snd (scanRows initSqlKeywords exampleAlloc exampleOrder selectRepeated (Some [ScanSucceeds]))
       = Inr [[None, Some 11, Some 10]]
   \<and> targetsAtFirst (selectColumns selectRepeated) (exampleAlloc 0) exampleMeta = [Some 10, Some 11, None]"
proof -
  have 1: "From (stateAfter (Select [colA, colName, colA])) [tableA] = Returned selectRepeated"
    by (simp add: selectRepeated_def eval_defs colA_def colName_def tableA_def)
  have 4: "targetsAtFirst (selectColumns selectRepeated) (exampleAlloc 0) exampleMeta = [Some 10, Some 11, None]"
    by (simp add: selectRepeated_eq targetsAtFirst_def firstOccurrence_def scanTarget_def exampleMeta_def
        exampleAlloc_def aliasOf_def colA_def colName_def tableA_def tableAlias_def doubleQuoted_def
        idColumn_def nameColumn_def upt_conv_Cons less_Suc_eq del: upt_Suc)
  from 1 4 selectRepeated_eq selectRepeated_scan show ?thesis by simp
qed

section \<open>Consuming scanned rows\<close>

lemma GetTable_marks:
  assumes "onRow sr" "a \<in> dom (currentRow sr)" "readExactly sr A"
  shows "\<exists>v sr'. GetTable sr a = Gives v sr' \<and> onRow sr' \<and> rowIdx sr' = rowIdx sr
           \<and> length (rowsOfAliasToRow sr') = length (rowsOfAliasToRow sr)
           \<and> dom (currentRow sr') = dom (currentRow sr) \<and> readExactly sr' (insert a A)
           \<and> (\<forall>j. j \<noteq> rowIdx sr \<longrightarrow> rowsOfAliasToRow sr' ! j = rowsOfAliasToRow sr ! j)"
proof -
  from assms(2) obtain r where r: "currentRow sr a = Some r" by blast
  let ?sr' = "sr\<lparr>rowsOfAliasToRow := (rowsOfAliasToRow sr)
                        [rowIdx sr := (rowsOfAliasToRow sr ! rowIdx sr)(a \<mapsto> r\<lparr>read := True\<rparr>)]\<rparr>"
  have g: "GetTable sr a = Gives (valueFunc r) ?sr'"
    using assms(1) r by (simp add: GetTable_def onRow_def currentRow_def)
  have c: "currentRow ?sr' = (currentRow sr)(a \<mapsto> r\<lparr>read := True\<rparr>)"
    using assms(1) by (simp add: currentRow_def onRow_def)
  have "readExactly ?sr' (insert a A)"
    using assms(3) unfolding readExactly_def c by auto
  moreover have "dom (currentRow ?sr') = dom (currentRow sr)"
    unfolding c using r by auto
  moreover have "onRow ?sr'" using assms(1) by (simp add: onRow_def)
  ultimately show ?thesis using g by auto
qed

lemma allRead_iff: "readExactly sr A \<Longrightarrow> allRead (currentRow sr) \<longleftrightarrow> dom (currentRow sr) \<subseteq> A"
  by (auto simp: readExactly_def allRead_def split: option.splits)

lemma Next_onRow:
  "onRow sr \<Longrightarrow> Next sr =
     (if allRead (currentRow sr)
      then Gives (rowIdx sr + 1 < length (rowsOfAliasToRow sr)) (sr\<lparr>rowIdx := rowIdx sr + 1\<rparr>)
      else Aborts NotAllColumnsRead sr)"
  by (simp add: Next_def onRow_def currentRow_def)

lemma afterCall_consumed:
  assumes "consumed sr A" and "afterCall (sr, A) c = (sr', A')"
  shows "consumed sr' A'"
proof (cases c)
  case NextCall
  show ?thesis
  proof (cases "anyNext sr")
    case False
    with assms(2) NextCall have s: "sr' = sr\<lparr>anyNext := True, rowIdx := 0\<rparr>" "A' = {}"
      by (auto simp: Next_def)
    from assms(1) False show ?thesis
      unfolding s by (auto simp: consumed_def laterRowsUnread_def onRow_def currentRow_def readExactly_def unreadRow_def)
  next
    case True
    show ?thesis
    proof (cases "rowIdx sr < length (rowsOfAliasToRow sr) \<and> allRead (rowsOfAliasToRow sr ! rowIdx sr)")
      case False
      with assms(2) NextCall True have "sr' = sr" "A' = A" by (auto simp: Next_def split: if_splits)
      with assms(1) show ?thesis by simp
    next
      case ok: True
      with assms(2) NextCall True have s: "sr' = sr\<lparr>rowIdx := rowIdx sr + 1\<rparr>" "A' = {}"
        by (auto simp: Next_def split: if_splits)
      from assms(1) True ok show ?thesis
        unfolding s by (auto simp: consumed_def laterRowsUnread_def onRow_def currentRow_def readExactly_def unreadRow_def)
    qed
  qed
next
  case (GetTableCall a)
  with assms(2) have A': "A' = insert a A" and sr': "sr' = stateOf (GetTable sr a)" by auto
  show ?thesis
  proof (cases "onRow sr")
    case False
    then have "GetTable sr a = Aborts RequireNextFirst sr \<or> GetTable sr a = Aborts IndexOutOfRange sr"
      by (auto simp: GetTable_def onRow_def)
    then have "sr' = sr" using sr' by auto
    with assms(1) False show ?thesis by (simp add: consumed_def)
  next
    case True
    with assms(1) have l: "laterRowsUnread sr" and r: "readExactly sr A" by (simp_all add: consumed_def)
    show ?thesis
    proof (cases "currentRow sr a")
      case None
      with True have "GetTable sr a = Aborts NilDereference sr"
        by (simp add: GetTable_def onRow_def currentRow_def)
      then have s: "sr' = sr" using sr' by simp
      from r None have "readExactly sr (insert a A)" by (auto simp: readExactly_def)
      with l show ?thesis unfolding s A' by (simp add: consumed_def)
    next
      case (Some c)
      then have d: "a \<in> dom (currentRow sr)" by auto
      from GetTable_marks [OF True d r] sr' obtain
        o: "onRow sr'" and i: "rowIdx sr' = rowIdx sr"
        and n: "length (rowsOfAliasToRow sr') = length (rowsOfAliasToRow sr)"
        and e: "readExactly sr' (insert a A)"
        and k: "\<forall>j. j \<noteq> rowIdx sr \<longrightarrow> rowsOfAliasToRow sr' ! j = rowsOfAliasToRow sr ! j"
        by auto
      have an: "anyNext sr'" "anyNext sr" using o True by (simp_all add: onRow_def)
      have "laterRowsUnread sr'"
        using l k i n an by (auto simp: laterRowsUnread_def)
      with e show ?thesis unfolding A' by (simp add: consumed_def)
    qed
  qed
qed

lemma afterCalls_consumed:
  "consumed sr0 A0 \<Longrightarrow> foldl afterCall (sr0, A0) calls = (sr, A) \<Longrightarrow> consumed sr A"
proof (induction calls arbitrary: sr0 A0)
  case Nil
  then show ?case by simp
next
  case (Cons c calls)
  obtain sr1 A1 where s: "afterCall (sr0, A0) c = (sr1, A1)" by (cases "afterCall (sr0, A0) c")
  from afterCall_consumed [OF Cons.prems(1) s] have "consumed sr1 A1" .
  from Cons.IH [OF this] Cons.prems(2) s show ?case by simp
qed

lemma freshlyScanned_consumed: "freshlyScanned sr \<Longrightarrow> consumed sr {}"
  by (auto simp: freshlyScanned_def consumed_def laterRowsUnread_def onRow_def)

lemma scanTables_unread:
  "scanTables sqlKeywords alloc tba cba idx order rowMap dest = Inr (rowMap', dest') \<Longrightarrow>
   unreadRow rowMap \<Longrightarrow> unreadRow rowMap'"
proof (induction order arbitrary: rowMap dest)
  case Nil
  then show ?case by simp
next
  case (Cons a order)
  show ?case
  proof (cases "tba a")
    case None
    with Cons show ?thesis by simp
  next
    case (Some t)
    let ?al = "tableAlias t"
    from Cons.prems(1) Some obtain vf dest1 where
      r: "scanTables sqlKeywords alloc tba cba idx order (rowMap(?al \<mapsto> \<lparr>valueFunc = vf, read = False\<rparr>)) dest1
            = Inr (rowMap', dest')"
      by (auto simp: Let_def split: sum.splits prod.splits)
    have "unreadRow (rowMap(?al \<mapsto> \<lparr>valueFunc = vf, read = False\<rparr>))"
      using Cons.prems(2) by (auto simp: unreadRow_def)
    from Cons.IH [OF r this] show ?thesis .
  qed
qed

lemma scanLoop_unread:
  "scanLoop sqlKeywords alloc order tba cba idx n physicalRows k acc scanned = Inr (Inr sr, dests) \<Longrightarrow>
   \<forall>m \<in> set acc. unreadRow m \<Longrightarrow>
   \<not> anyNext sr \<and> rowIdx sr = 0 \<and> (\<forall>m \<in> set (rowsOfAliasToRow sr). unreadRow m)"
proof (induction physicalRows arbitrary: k acc scanned)
  case Nil
  then show ?case by auto
next
  case (Cons p ps)
  from Cons.prems(1) obtain rowMap dest where
    st: "scanTables sqlKeywords (alloc k) tba cba idx (order k) Map.empty (replicate n None) = Inr (rowMap, dest)"
    and p: "p = ScanSucceeds"
    and r: "scanLoop sqlKeywords alloc order tba cba idx n ps (Suc k) (acc @ [rowMap]) (scanned @ [dest])
              = Inr (Inr sr, dests)"
    by (auto split: sum.splits prod.splits rowBehaviour.splits)
  have "unreadRow (Map.empty :: string \<rightharpoonup> nat cell)" by (simp add: unreadRow_def)
  from scanTables_unread [OF st this] Cons.prems(2) have "\<forall>m \<in> set (acc @ [rowMap]). unreadRow m" by simp
  from Cons.IH [OF r this] show ?case .
qed

lemma scanRows_freshlyScanned:
  fixes b :: "('r, 'v) SqlBuilder"
  assumes "scanRows sqlKeywords alloc order b rows = Inr (Inr sr, dests)"
  shows "freshlyScanned sr"
proof -
  from assms have "\<exists>physicalRows (tba :: string \<rightharpoonup> ('r, 'v) TableToUse) cba idx.
    scanLoop sqlKeywords alloc order tba cba idx (length (selectColumns b)) physicalRows 0 [] [] = Inr (Inr sr, dests)"
    by (auto simp: scanRows_def split: option.splits prod.splits)
  then obtain physicalRows and tba :: "string \<rightharpoonup> ('r, 'v) TableToUse" and cba idx where
    "scanLoop sqlKeywords alloc order tba cba idx (length (selectColumns b)) physicalRows 0 [] [] = Inr (Inr sr, dests)"
    by blast
  from scanLoop_unread [OF this] show ?thesis by (simp add: freshlyScanned_def)
qed

lemma halfRead_eval:
  "anyNext (fst halfReadSecondRow) \<and> rowIdx (fst halfReadSecondRow) = 1
   \<and> length (rowsOfAliasToRow (fst halfReadSecondRow)) = 2
   \<and> dom (currentRow (fst halfReadSecondRow)) = {''alias1'', ''alias2''}
   \<and> snd halfReadSecondRow = {''alias1''}"
  by (auto simp: halfReadSecondRow_def exampleScanned_def Next_def GetTable_def allRead_def currentRow_def
      split: if_splits)

lemma readSecond_eval:
  "anyNext (fst readSecondRow) \<and> rowIdx (fst readSecondRow) = 1
   \<and> length (rowsOfAliasToRow (fst readSecondRow)) = 2
   \<and> dom (currentRow (fst readSecondRow)) = {''alias1'', ''alias2''}
   \<and> snd readSecondRow = {''alias1'', ''alias2''}"
  by (auto simp: readSecondRow_def exampleScanned_def Next_def GetTable_def allRead_def currentRow_def
      split: if_splits)

text \<open>
  C7. The rows that \<open>scanRows\<close> returns are before the first \<open>Next\<close> with no cell
  read. After any calls of \<open>Next\<close> and \<open>GetTable\<close> on such rows: before the first
  \<open>Next\<close>, \<open>GetTable\<close> panics and \<open>Next\<close> succeeds; on a logical row, whichever row it is, \<open>Next\<close>
  succeeds (it advances, or reports that the rows are exhausted) when \<open>GetTable\<close> has
  been called for every alias of the row since the row was reached, and panics
  otherwise.
\<close>

theorem consume_before_advance:
  fixes b :: "('r, 'v) SqlBuilder"
  shows "(scanRows sqlKeywords alloc order b rows = Inr (Inr fresh, dests) \<longrightarrow> freshlyScanned fresh)
       \<and> (freshlyScanned fresh \<and> foldl afterCall (fresh, {}) calls = (sr, A) \<longrightarrow>
            (\<not> anyNext sr \<longrightarrow>
               GetTable sr a = Aborts RequireNextFirst sr
               \<and> Next sr = Gives (0 < length (rowsOfAliasToRow sr)) (sr\<lparr>anyNext := True, rowIdx := 0\<rparr>))
          \<and> (onRow sr \<longrightarrow>
               Next sr = (if dom (currentRow sr) \<subseteq> A
                          then Gives (rowIdx sr + 1 < length (rowsOfAliasToRow sr)) (sr\<lparr>rowIdx := rowIdx sr + 1\<rparr>)
                          else Aborts NotAllColumnsRead sr)))"
proof -
  have 0: "freshlyScanned fresh" if "scanRows sqlKeywords alloc order b rows = Inr (Inr fresh, dests)"
    using that by (rule scanRows_freshlyScanned)
  have 1: "GetTable sr a = Aborts RequireNextFirst sr
      \<and> Next sr = Gives (0 < length (rowsOfAliasToRow sr)) (sr\<lparr>anyNext := True, rowIdx := 0\<rparr>)"
    if "\<not> anyNext sr"
    using that by (simp add: GetTable_def Next_def)
  have 2: "Next sr = (if dom (currentRow sr) \<subseteq> A
                       then Gives (rowIdx sr + 1 < length (rowsOfAliasToRow sr)) (sr\<lparr>rowIdx := rowIdx sr + 1\<rparr>)
                       else Aborts NotAllColumnsRead sr)"
    if f: "freshlyScanned fresh" and c: "foldl afterCall (fresh, {}) calls = (sr, A)" and o: "onRow sr"
  proof -
    from afterCalls_consumed [OF freshlyScanned_consumed [OF f] c] o
    have "readExactly sr A" by (simp add: consumed_def)
    from allRead_iff [OF this] Next_onRow [OF o] show ?thesis by simp
  qed
  from 0 1 2 show ?thesis by blast
qed

theorem consume_before_advance_witness:
  "scanRows initSqlKeywords exampleAlloc exampleOrder selectRepeated (Some [ScanSucceeds])
     = Inr (Inr \<lparr>rowsOfAliasToRow = [[''a'' \<mapsto> \<lparr>valueFunc = 10, read = False\<rparr>]], rowIdx = 0, anyNext = False\<rparr>,
            [[None, Some 11, Some 10]])
   \<and> freshlyScanned \<lparr>rowsOfAliasToRow = [[''a'' \<mapsto> \<lparr>valueFunc = 10 :: nat, read = False\<rparr>]], rowIdx = 0,
         anyNext = False\<rparr>
   \<and> freshlyScanned exampleScanned
   \<and> \<not> anyNext exampleScanned
   \<and> GetTable exampleScanned ''alias1'' = Aborts RequireNextFirst exampleScanned
   \<and> onRow (fst halfReadSecondRow) \<and> rowIdx (fst halfReadSecondRow) = 1
   \<and> \<not> dom (currentRow (fst halfReadSecondRow)) \<subseteq> snd halfReadSecondRow
   \<and> Next (fst halfReadSecondRow) = Aborts NotAllColumnsRead (fst halfReadSecondRow)
   \<and> onRow (fst readSecondRow) \<and> rowIdx (fst readSecondRow) = 1
   \<and> dom (currentRow (fst readSecondRow)) \<subseteq> snd readSecondRow
   \<and> Next (fst readSecondRow) = Gives False ((fst readSecondRow)\<lparr>rowIdx := 2\<rparr>)"
proof -
  have f: "freshlyScanned exampleScanned"
    by (auto simp: freshlyScanned_def exampleScanned_def unreadRow_def split: if_splits)
  have n: "\<not> anyNext exampleScanned" by (simp add: exampleScanned_def)
  have h0: "foldl afterCall (exampleScanned, {}) [] = (exampleScanned, {})" by simp
  have h1: "foldl afterCall (exampleScanned, {})
       [NextCall, GetTableCall ''alias1'', GetTableCall ''alias2'', NextCall, GetTableCall ''alias1'']
     = (fst halfReadSecondRow, snd halfReadSecondRow)"
    by (simp only: halfReadSecondRow_def prod.collapse)
  have h2: "foldl afterCall (exampleScanned, {})
       [NextCall, GetTableCall ''alias1'', GetTableCall ''alias2'', NextCall, GetTableCall ''alias1'',
        GetTableCall ''alias2'']
     = (fst readSecondRow, snd readSecondRow)"
    by (simp only: readSecondRow_def prod.collapse)
  have o1: "onRow (fst halfReadSecondRow)" and o2: "onRow (fst readSecondRow)"
    using halfRead_eval readSecond_eval by (simp_all add: onRow_def)
  have d1: "\<not> dom (currentRow (fst halfReadSecondRow)) \<subseteq> snd halfReadSecondRow"
    using halfRead_eval by simp
  have d2: "dom (currentRow (fst readSecondRow)) \<subseteq> snd readSecondRow"
    using readSecond_eval by simp
  from consume_before_advance [where b = selectRepeated and sqlKeywords = initSqlKeywords
      and alloc = exampleAlloc and order = exampleOrder and rows = "Some [ScanSucceeds]"
      and fresh = "\<lparr>rowsOfAliasToRow = [[''a'' \<mapsto> \<lparr>valueFunc = 10, read = False\<rparr>]], rowIdx = 0, anyNext = False\<rparr>"
      and dests = "[[None, Some 11, Some 10]]"] selectRepeated_scan
  have s: "freshlyScanned \<lparr>rowsOfAliasToRow = [[''a'' \<mapsto> \<lparr>valueFunc = 10 :: nat, read = False\<rparr>]], rowIdx = 0,
         anyNext = False\<rparr>"
    by blast
  from consume_before_advance [where fresh = exampleScanned and calls = "[]" and sr = exampleScanned
      and A = "{}" and a = "''alias1''"] f h0 n
  have a: "GetTable exampleScanned ''alias1'' = Aborts RequireNextFirst exampleScanned" by blast
  from consume_before_advance [where fresh = exampleScanned and sr = "fst halfReadSecondRow"
      and A = "snd halfReadSecondRow"
      and calls = "[NextCall, GetTableCall ''alias1'', GetTableCall ''alias2'', NextCall, GetTableCall ''alias1'']"]
    f h1 o1 d1
  have b: "Next (fst halfReadSecondRow) = Aborts NotAllColumnsRead (fst halfReadSecondRow)" by simp
  from consume_before_advance [where fresh = exampleScanned and sr = "fst readSecondRow"
      and A = "snd readSecondRow"
      and calls = "[NextCall, GetTableCall ''alias1'', GetTableCall ''alias2'', NextCall, GetTableCall ''alias1'',
        GetTableCall ''alias2'']"]
    f h2 o2 d2 readSecond_eval
  have c: "Next (fst readSecondRow) = Gives False ((fst readSecondRow)\<lparr>rowIdx := 2\<rparr>)" by simp
  from selectRepeated_scan s f n a o1 d1 b o2 d2 c halfRead_eval readSecond_eval show ?thesis by simp
qed

end
